(* ===== verification/Js_Prelude.thy ===== *)
theory Js_Prelude
  imports Complex_Main "HOL-Library.Multiset"
begin

text \<open>
  The part of JavaScript that the workbench uses: strings, decimal printing and scanning,
  numbers, plain objects as ordered association lists, stable sorting and the
  "remember what was seen" loops, together with the generic transition-system locale and the
  named collections \<open>js_simps\<close> and \<open>store_simps\<close> the component theories add to.

  A JavaScript string is a HOL \<open>string\<close>, one \<open>char\<close> per UTF-16 code unit, so the strings of
  the model are those whose code units are below 256. The few literals of the program outside
  that range (em dash, ellipsis, arrow) are constants holding their UTF-8 bytes; no length is
  ever taken of them. A finite JavaScript number is a \<open>rat\<close>: a literal such as \<open>0.85\<close> is the
  decimal it spells, and rounding to a double is not modelled. Times in milliseconds are \<open>int\<close>.
\<close>

named_theorems js_simps \<open>evaluation of the JavaScript primitives\<close>
named_theorems store_simps \<open>reads of a store after a write\<close>

section \<open>Strings\<close>

definition em_dash :: string where
  "em_dash = [CHR 0xE2, CHR 0x80, CHR 0x94]"

definition ellipsis :: string where
  "ellipsis = [CHR 0xE2, CHR 0x80, CHR 0xA6]"

definition right_arrow :: string where
  "right_arrow = [CHR 0xE2, CHR 0x86, CHR 0x92]"

definition middle_dot :: string where
  "middle_dot = [CHR 0xB7]"

definition newline :: string where
  "newline = [CHR 0x0A]"

definition code :: "char \<Rightarrow> nat" where
  "code c = of_char c"

definition char_between :: "nat \<Rightarrow> nat \<Rightarrow> char \<Rightarrow> bool" where
  "char_between lo hi c \<longleftrightarrow> lo \<le> code c \<and> code c \<le> hi"

abbreviation is_digit :: "char \<Rightarrow> bool" where
  "is_digit \<equiv> char_between 48 57"

abbreviation is_upper_az :: "char \<Rightarrow> bool" where
  "is_upper_az \<equiv> char_between 65 90"

abbreviation is_lower_az :: "char \<Rightarrow> bool" where
  "is_lower_az \<equiv> char_between 97 122"

text \<open>The class \<open>\w\<close> of a regular expression without the unicode flag.\<close>

definition is_word_char :: "char \<Rightarrow> bool" where
  "is_word_char c \<longleftrightarrow> is_digit c \<or> is_upper_az c \<or> is_lower_az c \<or> c = CHR ''_''"

definition lower_char :: "char \<Rightarrow> char" where
  "lower_char c =
     (if is_upper_az c \<or> char_between 192 222 c \<and> code c \<noteq> 215 then char_of (code c + 32) else c)"

definition upper_char :: "char \<Rightarrow> char" where
  "upper_char c = (if is_lower_az c then char_of (code c - 32) else c)"

definition toLowerCase :: "string \<Rightarrow> string" where
  "toLowerCase = map lower_char"

definition is_space :: "char \<Rightarrow> bool" where
  "is_space c \<longleftrightarrow> char_between 9 13 c \<or> code c = 32 \<or> code c = 160"

definition trim :: "string \<Rightarrow> string" where
  "trim s = rev (dropWhile is_space (rev (dropWhile is_space s)))"

fun str_includes :: "string \<Rightarrow> string \<Rightarrow> bool" where
  "str_includes [] n = (n = [])"
| "str_includes (c # cs) n = (take (length n) (c # cs) = n \<or> str_includes cs n)"

definition startsWith :: "string \<Rightarrow> string \<Rightarrow> bool" where
  "startsWith s p \<longleftrightarrow> take (length p) s = p"

definition slice :: "nat \<Rightarrow> nat \<Rightarrow> 'a list \<Rightarrow> 'a list" where
  "slice a b s = take (b - a) (drop a s)"

definition replaceChar :: "char \<Rightarrow> string \<Rightarrow> string \<Rightarrow> string" where
  "replaceChar c r s = concat (map (\<lambda>x. if x = c then r else [x]) s)"

fun replaceFirst :: "char \<Rightarrow> string \<Rightarrow> string \<Rightarrow> string" where
  "replaceFirst c r [] = []"
| "replaceFirst c r (x # xs) = (if x = c then r @ xs else x # replaceFirst c r xs)"

fun joinWith :: "string \<Rightarrow> string list \<Rightarrow> string" where
  "joinWith sep [] = []"
| "joinWith sep [s] = s"
| "joinWith sep (s # t # ss) = s @ sep @ joinWith sep (t # ss)"

fun splitChar :: "char \<Rightarrow> string \<Rightarrow> string list" where
  "splitChar c [] = [[]]"
| "splitChar c (x # xs) =
     (if x = c then [] # splitChar c xs
      else (case splitChar c xs of [] \<Rightarrow> [[x]] | s # ss \<Rightarrow> (x # s) # ss))"

text \<open>\<open>s.replace(/\/$/, "")\<close>: one trailing slash is removed.\<close>

definition dropTrailingSlash :: "string \<Rightarrow> string" where
  "dropTrailingSlash s = (if s \<noteq> [] \<and> last s = CHR ''/'' then butlast s else s)"

text \<open>\<open>s.replace(/\b\w/g, c => c.toUpperCase())\<close>: a word character that does not follow
  another word character is upper-cased.\<close>

fun capitalizeFrom :: "bool \<Rightarrow> string \<Rightarrow> string" where
  "capitalizeFrom prev [] = []"
| "capitalizeFrom prev (c # cs) =
     (if is_word_char c \<and> \<not> prev then upper_char c else c) # capitalizeFrom (is_word_char c) cs"

definition capitalizeWords :: "string \<Rightarrow> string" where
  "capitalizeWords = capitalizeFrom False"

text \<open>\<open>s.replace(/([a-z])([A-Z])/g, "$1 $2")\<close>: the scan resumes after the matched pair.\<close>

fun spaceCamel :: "string \<Rightarrow> string" where
  "spaceCamel (a # b # cs) =
     (if is_lower_az a \<and> is_upper_az b then a # CHR '' '' # b # spaceCamel cs
      else a # spaceCamel (b # cs))"
| "spaceCamel cs = cs"

text \<open>\<open>encodeURIComponent\<close> on code units below 128; the others become their two UTF-8 bytes.\<close>

definition uri_unreserved :: "char \<Rightarrow> bool" where
  "uri_unreserved c \<longleftrightarrow> is_digit c \<or> is_upper_az c \<or> is_lower_az c \<or> c \<in> set ''-_.!~*''
     \<or> code c = 39 \<or> code c = 40 \<or> code c = 41"

definition hexDigit :: "nat \<Rightarrow> char" where
  "hexDigit n = (if n < 10 then char_of (48 + n) else char_of (55 + n))"

definition pctByte :: "nat \<Rightarrow> string" where
  "pctByte n = [CHR 0x25, hexDigit (n div 16), hexDigit (n mod 16)]"

definition encodeChar :: "char \<Rightarrow> string" where
  "encodeChar c =
     (if uri_unreserved c then [c]
      else if code c < 128 then pctByte (code c)
      else pctByte (192 + code c div 64) @ pctByte (128 + code c mod 64))"

definition encodeURIComponent :: "string \<Rightarrow> string" where
  "encodeURIComponent s = concat (map encodeChar s)"

section \<open>Decimal printing\<close>

definition digitChar :: "nat \<Rightarrow> char" where
  "digitChar n = char_of (48 + n)"

fun natStr :: "nat \<Rightarrow> string" where
  "natStr n = (if n < 10 then [digitChar n] else natStr (n div 10) @ [digitChar (n mod 10)])"

declare natStr.simps [simp del]

definition intStr :: "int \<Rightarrow> string" where
  "intStr i = (if i < 0 then CHR ''-'' # natStr (nat (- i)) else natStr (nat i))"

definition padStart :: "nat \<Rightarrow> string \<Rightarrow> string" where
  "padStart n s = replicate (n - length s) CHR ''0'' @ s"

text \<open>\<open>Math.round\<close> and \<open>Number.prototype.toFixed\<close> on finite numbers: the nearest integer, ties
  upward; \<open>toFixed\<close> rounds the absolute value.\<close>

definition mathRound :: "rat \<Rightarrow> int" where
  "mathRound x = \<lfloor>x + 1 / 2\<rfloor>"

definition fixedDigits :: "nat \<Rightarrow> nat \<Rightarrow> string" where
  "fixedDigits d n =
     (if d = 0 then natStr n
      else natStr (n div 10 ^ d) @ ''.'' @ padStart d (natStr (n mod 10 ^ d)))"

definition toFixed :: "nat \<Rightarrow> rat \<Rightarrow> string" where
  "toFixed d x =
     (if x < 0 then CHR ''-'' # fixedDigits d (nat (mathRound (- x * 10 ^ d)))
      else fixedDigits d (nat (mathRound (x * 10 ^ d))))"

text \<open>\<open>String(x)\<close> of a finite number with at most \<open>20\<close> decimal places: the shortest decimal.\<close>

fun decimalPlaces :: "nat \<Rightarrow> rat \<Rightarrow> nat" where
  "decimalPlaces 0 x = 0"
| "decimalPlaces (Suc fuel) x = (if x = of_int \<lfloor>x\<rfloor> then 0 else Suc (decimalPlaces fuel (x * 10)))"

definition ratStr :: "rat \<Rightarrow> string" where
  "ratStr x = toFixed (decimalPlaces 20 x) x"


section \<open>Facts on strings\<close>

lemma take_is_pre: "take (length n) h = n \<longleftrightarrow> (\<exists>v. h = n @ v)"
  by (metis append_eq_conv_conj append_take_drop_id)

lemma str_includes_iff: "str_includes h n \<longleftrightarrow> (\<exists>u v. h = u @ n @ v)"
proof (induction h)
  case (Cons c cs)
  have "str_includes (c # cs) n \<longleftrightarrow> (\<exists>v. c # cs = n @ v) \<or> (\<exists>u v. cs = u @ n @ v)"
    using Cons.IH take_is_pre [of n "c # cs"] by simp
  also have "\<dots> \<longleftrightarrow> (\<exists>u v. c # cs = u @ n @ v)"
    by (auto simp: Cons_eq_append_conv)
  finally show ?case .
qed simp

lemma str_includes_refl [simp]: "str_includes s s"
  by (auto simp: str_includes_iff intro: exI [of _ "[]"])

lemma startsWith_iff: "startsWith s p \<longleftrightarrow> (\<exists>t. s = p @ t)"
  by (auto simp: startsWith_def) (metis append_take_drop_id)

lemma startsWith_append [simp]: "startsWith (p @ t) p"
  by (simp add: startsWith_def)

lemma length_dropWhile_le: "length (dropWhile P xs) \<le> length xs"
  by (induction xs) auto

lemma length_trim: "length (trim s) \<le> length s"
proof -
  have "length (trim s) \<le> length (dropWhile is_space s)"
    using length_dropWhile_le [of is_space "rev (dropWhile is_space s)"] by (simp add: trim_def)
  also have "\<dots> \<le> length s" by (rule length_dropWhile_le)
  finally show ?thesis .
qed

lemma hd_dropWhile_space: "dropWhile is_space s \<noteq> [] \<Longrightarrow> \<not> is_space (hd (dropWhile is_space s))"
  by (rule hd_dropWhile)

lemma trim_last: "trim s \<noteq> [] \<Longrightarrow> \<not> is_space (last (trim s))"
  by (simp add: trim_def last_rev hd_dropWhile)

lemma dropWhile_rev_hd:
  assumes "xs \<noteq> []" and "\<not> P (hd xs)"
  shows "rev (dropWhile P (rev xs)) \<noteq> [] \<and> hd (rev (dropWhile P (rev xs))) = hd xs"
proof -
  from assms obtain x ys where xs: "xs = x # ys" and x: "\<not> P x" by (cases xs) auto
  have "dropWhile P (rev ys @ [x]) = dropWhile P (rev ys) @ [x]"
    using x by (cases "\<forall>y\<in>set (rev ys). P y") (auto simp: dropWhile_append)
  then show ?thesis using xs by simp
qed

lemma trim_hd: "trim s \<noteq> [] \<Longrightarrow> \<not> is_space (hd (trim s))"
proof -
  assume ne: "trim s \<noteq> []"
  then have d: "dropWhile is_space s \<noteq> []"
    unfolding trim_def by (metis dropWhile.simps(1) rev.simps(1))
  then have "\<not> is_space (hd (dropWhile is_space s))" by (rule hd_dropWhile)
  with d have "hd (trim s) = hd (dropWhile is_space s)"
    unfolding trim_def by (blast dest: dropWhile_rev_hd)
  with d show ?thesis by (simp add: hd_dropWhile)
qed

lemma trim_noop: "s \<noteq> [] \<Longrightarrow> \<not> is_space (hd s) \<Longrightarrow> \<not> is_space (last s) \<Longrightarrow> trim s = s"
proof -
  assume "s \<noteq> []" and "\<not> is_space (hd s)" and "\<not> is_space (last s)"
  then have "dropWhile is_space s = s" and "dropWhile is_space (rev s) = rev s"
    by (simp_all add: dropWhile_eq_self_iff hd_rev)
  then show ?thesis by (simp add: trim_def)
qed

lemma trim_Nil [simp]: "trim [] = []"
  by (simp add: trim_def)

lemma trim_idem [simp]: "trim (trim s) = trim s"
proof (cases "trim s = []")
  case True
  then show ?thesis by simp
next
  case False
  then show ?thesis by (intro trim_noop trim_hd trim_last)
qed

lemma toLowerCase_Nil [simp]: "toLowerCase s = [] \<longleftrightarrow> s = []"
  by (simp add: toLowerCase_def)

lemma splitChar_join: "joinWith [c] (splitChar c s) = s"
proof (induction s)
  case (Cons x xs)
  have ne: "splitChar c xs \<noteq> []"
    by (cases xs) (auto split: list.splits)
  then obtain t ts where t: "splitChar c xs = t # ts" by (cases "splitChar c xs") auto
  show ?case
    using Cons.IH t by (cases ts) auto
qed simp

section \<open>Facts on decimals\<close>

lemma digitChar_digit: "n < 10 \<Longrightarrow> is_digit (digitChar n)"
  by (simp add: digitChar_def char_between_def code_def)

lemma code_digitChar: "n < 10 \<Longrightarrow> code (digitChar n) = 48 + n"
  by (simp add: digitChar_def code_def)

lemma natStr_digits: "c \<in> set (natStr n) \<Longrightarrow> is_digit c"
proof (induction n rule: natStr.induct)
  case (1 n)
  show ?case
  proof (cases "n < 10")
    case True
    with "1.prems" show ?thesis by (simp add: natStr.simps [of n] digitChar_digit)
  next
    case False
    with "1.prems" have "c \<in> set (natStr (n div 10)) \<or> c = digitChar (n mod 10)"
      by (auto simp: natStr.simps [of n])
    then show ?thesis using "1.IH" [OF False] by (auto intro: digitChar_digit)
  qed
qed

lemma natStr_ne [simp]: "natStr n \<noteq> []"
  by (subst natStr.simps) simp

definition decode :: "string \<Rightarrow> nat" where
  "decode s = foldl (\<lambda>a c. a * 10 + (code c - 48)) 0 s"

lemma decode_snoc: "decode (s @ [c]) = decode s * 10 + (code c - 48)"
  by (simp add: decode_def)

lemma decode_natStr [simp]: "decode (natStr n) = n"
proof (induction n rule: natStr.induct)
  case (1 n)
  show ?case
  proof (cases "n < 10")
    case True
    then show ?thesis by (simp add: natStr.simps [of n] decode_def code_digitChar)
  next
    case False
    then show ?thesis
      using "1.IH" [OF False] by (simp add: natStr.simps [of n] decode_snoc code_digitChar)
  qed
qed

lemma natStr_inject [simp]: "natStr m = natStr n \<longleftrightarrow> m = n"
  by (metis decode_natStr)

lemma natStr_no_char: "\<not> is_digit c \<Longrightarrow> c \<notin> set (natStr n)"
  using natStr_digits by blast

lemma intStr_inject [simp]: "intStr i = intStr j \<longleftrightarrow> i = j"
proof -
  have m: "CHR ''-'' \<notin> set (natStr n)" for n
    by (rule natStr_no_char) (simp add: char_between_def code_def)
  have ne: "CHR ''-'' # u \<noteq> natStr n" for u n
    using m [of n] by (metis list.set_intros(1))
  show ?thesis
    using ne ne [symmetric] by (auto simp: intStr_def)
qed

lemma intStr_chars: "c \<in> set (intStr i) \<Longrightarrow> is_digit c \<or> c = CHR ''-''"
  by (auto simp: intStr_def dest: natStr_digits split: if_splits)

section \<open>Injective keys\<close>

text \<open>A separator that the part before it does not contain splits a string in only one way.\<close>

lemma sep_inject:
  "c \<notin> set a \<Longrightarrow> c \<notin> set b \<Longrightarrow> a @ c # x = b @ c # y \<longleftrightarrow> a = b \<and> x = y"
  by (induction a arbitrary: b) (auto simp: Cons_eq_append_conv, (case_tac b; auto)+)

lemma sep_inject_last:
  assumes "c \<notin> set x" and "c \<notin> set y"
  shows "a @ c # x = b @ c # y \<longleftrightarrow> a = b \<and> x = y"
proof -
  have "a @ c # x = b @ c # y \<longleftrightarrow> rev x @ c # rev a = rev y @ c # rev b"
    by (metis append.assoc append_Cons append_Nil rev.simps(2) rev_append rev_rev_ident)
  then show ?thesis using assms by (auto simp: sep_inject)
qed

section \<open>Lists of what was seen\<close>

text \<open>The loop \<open>for (x of xs) \{ if (seen.has(key(x))) continue; seen.add(key(x)); out.push(x) \}\<close>.\<close>

fun dedupBy :: "('a \<Rightarrow> 'k) \<Rightarrow> 'k list \<Rightarrow> 'a list \<Rightarrow> 'a list" where
  "dedupBy key seen [] = []"
| "dedupBy key seen (x # xs) =
     (if key x \<in> set seen then dedupBy key seen xs else x # dedupBy key (key x # seen) xs)"

lemma set_dedupBy: "set (dedupBy key seen xs) \<subseteq> set xs"
  by (induction xs arbitrary: seen) auto

lemma keys_dedupBy: "key ` set (dedupBy key seen xs) = key ` set xs - set seen"
  by (induction xs arbitrary: seen) auto

lemma distinct_dedupBy: "distinct (map key (dedupBy key seen xs))"
proof (induction xs arbitrary: seen)
  case (Cons x xs)
  have "key x \<notin> key ` set (dedupBy key (key x # seen) xs)"
    by (simp add: keys_dedupBy)
  then show ?case using Cons.IH by simp
qed simp

lemma in_dedupBy:
  "x \<in> set (dedupBy key seen xs) \<longleftrightarrow>
     (\<exists>us vs. xs = us @ x # vs \<and> key x \<notin> set seen \<and> key x \<notin> key ` set us)"
proof (induction xs arbitrary: seen)
  case (Cons y ys)
  have split: "(\<exists>us vs. y # ys = us @ x # vs \<and> key x \<notin> S \<and> key x \<notin> key ` set us) \<longleftrightarrow>
      x = y \<and> key x \<notin> S \<or>
      key y \<noteq> key x \<and> (\<exists>us vs. ys = us @ x # vs \<and> key x \<notin> S \<and> key x \<notin> key ` set us)" for S
  proof -
    have "(\<exists>us vs. y # ys = us @ x # vs \<and> Q us) \<longleftrightarrow>
        x = y \<and> Q [] \<or> (\<exists>us vs. ys = us @ x # vs \<and> Q (y # us))" for Q
      by (auto simp: Cons_eq_append_conv)
    then show ?thesis by auto
  qed
  show ?case
    unfolding split by (auto simp: Cons.IH)
qed simp

lemma dedupBy_id: "distinct (map key xs) \<Longrightarrow> set seen \<inter> key ` set xs = {} \<Longrightarrow> dedupBy key seen xs = xs"
  by (induction xs arbitrary: seen) auto

lemma dedupBy_append:
  "dedupBy key seen (xs @ ys) = dedupBy key seen xs @ dedupBy key (rev (map key (dedupBy key seen xs)) @ seen) ys"
  by (induction xs arbitrary: seen) simp_all

lemma dedupBy_idem: "dedupBy key [] (dedupBy key [] xs) = dedupBy key [] xs"
  by (intro dedupBy_id distinct_dedupBy) simp

section \<open>Transition systems and bounded logs\<close>

text \<open>A component whose every operation keeps an invariant keeps it over any run.\<close>

locale preserved =
  fixes step :: "'e \<Rightarrow> 's \<Rightarrow> 's" and ok :: "'e \<Rightarrow> bool" and inv :: "'s \<Rightarrow> bool"
  assumes step_inv: "ok e \<Longrightarrow> inv s \<Longrightarrow> inv (step e s)"
begin

lemma run_inv: "list_all ok es \<Longrightarrow> inv s \<Longrightarrow> inv (fold step es s)"
  by (induction es arbitrary: s) (auto intro: step_inv)

end

text \<open>A log that keeps only the newest \<open>cap\<close> entries, read newest first through \<open>newest\<close>.\<close>

locale bounded_log =
  fixes push :: "'a \<Rightarrow> 'a list \<Rightarrow> 'a list" and newest :: "'a list \<Rightarrow> 'a list" and cap :: nat
  assumes newest_push: "length h \<le> cap \<Longrightarrow> newest (push x h) = take cap (x # newest h)"
    and length_newest: "length (newest h) = length h"
begin

lemma length_push: "length h \<le> cap \<Longrightarrow> length (push x h) \<le> cap"
  using length_newest [of "push x h"] by (simp add: newest_push)

lemma length_run: "length h \<le> cap \<Longrightarrow> length (fold push xs h) \<le> cap"
  by (induction xs arbitrary: h) (auto intro: length_push)

lemma take_append_take: "take n (us @ take n vs) = take n (us @ vs)"
  by (simp add: min_def)

lemma newest_run:
  "length h \<le> cap \<Longrightarrow> newest (fold push xs h) = take cap (rev xs @ newest h)"
proof (induction xs arbitrary: h)
  case Nil
  then show ?case by (simp add: length_newest)
next
  case (Cons x xs)
  then have "newest (fold push xs (push x h)) = take cap (rev xs @ take cap (x # newest h))"
    by (simp add: length_push newest_push)
  then show ?case by (simp only: take_append_take) simp
qed

end

end
