(* ===== verification/Js_Value.thy ===== *)
theory Js_Value
  imports Js_Prelude
begin

text \<open>
  JavaScript values as they come out of \<open>JSON.parse\<close> and \<open>process.env\<close>: the \<open>jsval\<close> datatype
  with truthiness, \<open>String\<close>, \<open>Number\<close> and \<open>parseFloat\<close>; plain objects, \<open>Map\<close>s and rows keyed
  by a string as association lists in insertion order, with the dictionary interface
  \<open>ordered_dict\<close> the stores and caches rely on; the order in which \<open>Object.entries\<close> lists an
  object's own keys; and the results of \<open>fetch\<close>.
\<close>

section \<open>Objects as ordered dictionaries\<close>

type_synonym 'v dict = "(string \<times> 'v) list"

definition dictGet :: "'v dict \<Rightarrow> string \<Rightarrow> 'v option" where
  "dictGet d k = map_of d k"

fun dictPut :: "string \<Rightarrow> 'v \<Rightarrow> 'v dict \<Rightarrow> 'v dict" where
  "dictPut k v [] = [(k, v)]"
| "dictPut k v ((a, b) # d) = (if a = k then (k, v) # d else (a, b) # dictPut k v d)"

definition dictDel :: "string \<Rightarrow> 'v dict \<Rightarrow> 'v dict" where
  "dictDel k d = filter (\<lambda>(a, _). a \<noteq> k) d"

definition dictKeys :: "'v dict \<Rightarrow> string list" where
  "dictKeys d = map fst d"

definition wf_dict :: "'v dict \<Rightarrow> bool" where
  "wf_dict d \<longleftrightarrow> distinct (dictKeys d)"

text \<open>The members every plain object inherits, which \<open>k in obj\<close> also finds.\<close>

definition objectPrototype :: "string list" where
  "objectPrototype =
     [''constructor'', ''__defineGetter__'', ''__defineSetter__'', ''hasOwnProperty'',
      ''__lookupGetter__'', ''__lookupSetter__'', ''isPrototypeOf'', ''propertyIsEnumerable'',
      ''toString'', ''valueOf'', ''__proto__'', ''toLocaleString'']"

definition inObject :: "string \<Rightarrow> 'v dict \<Rightarrow> bool" where
  "inObject k d \<longleftrightarrow> k \<in> set (dictKeys d) \<or> k \<in> set objectPrototype"

text \<open>\<open>Object.entries\<close> and \<open>Object.keys\<close>: keys that are array indices come first, in numeric
  order, then the others in insertion order.\<close>

definition isArrayIndex :: "string \<Rightarrow> bool" where
  "isArrayIndex k \<longleftrightarrow> list_all is_digit k \<and> natStr (decode k) = k \<and> decode k < 2 ^ 32 - 1"

definition objectEntries :: "'v dict \<Rightarrow> (string \<times> 'v) list" where
  "objectEntries d =
     sort_key (\<lambda>(k, _). decode k) (filter (\<lambda>(k, _). isArrayIndex k) d)
       @ filter (\<lambda>(k, _). \<not> isArrayIndex k) d"

lemma mset_objectEntries: "mset (objectEntries d) = mset d"
proof -
  have "mset (objectEntries d) = filter_mset (\<lambda>(k, _). isArrayIndex k) (mset d)
      + filter_mset (\<lambda>x. \<not> (case x of (k, _) \<Rightarrow> isArrayIndex k)) (mset d)"
    by (simp add: objectEntries_def mset_filter case_prod_unfold)
  then show ?thesis by (simp add: multiset_partition [symmetric])
qed

lemma set_objectEntries [simp]: "set (objectEntries d) = set d"
  using mset_objectEntries by (rule mset_eq_setD)

lemma length_objectEntries [simp]: "length (objectEntries d) = length d"
  using mset_objectEntries by (rule mset_eq_length)

lemma objectEntries_noindex:
  "list_all (\<lambda>(k, _). \<not> isArrayIndex k) d \<Longrightarrow> objectEntries d = d"
proof -
  assume h: "list_all (\<lambda>(k, _). \<not> isArrayIndex k) d"
  then have "filter (\<lambda>(k, _). isArrayIndex k) d = []" and "filter (\<lambda>(k, _). \<not> isArrayIndex k) d = d"
    by (induction d) auto
  then show ?thesis by (simp add: objectEntries_def)
qed

text \<open>Dictionary interface: what a reader sees after a write, and how many keys there are.\<close>

locale ordered_dict =
  fixes get :: "'d \<Rightarrow> 'k \<Rightarrow> 'v option"
    and put :: "'k \<Rightarrow> 'v \<Rightarrow> 'd \<Rightarrow> 'd"
    and del :: "'k \<Rightarrow> 'd \<Rightarrow> 'd"
    and keys :: "'d \<Rightarrow> 'k list"
    and wf :: "'d \<Rightarrow> bool"
  assumes get_put: "get (put k v d) = (get d)(k \<mapsto> v)"
    and get_del: "get (del k d) = (get d)(k := None)"
    and keys_get: "k \<in> set (keys d) \<longleftrightarrow> get d k \<noteq> None"
    and wf_put: "wf d \<Longrightarrow> wf (put k v d)"
    and wf_del: "wf d \<Longrightarrow> wf (del k d)"
    and wf_keys: "wf d \<Longrightarrow> distinct (keys d)"
begin

lemma keys_put: "set (keys (put k v d)) = insert k (set (keys d))"
  by (auto simp: keys_get get_put split: if_splits)

lemma keys_del: "set (keys (del k d)) = set (keys d) - {k}"
  by (auto simp: keys_get get_del split: if_splits)

lemma length_keys: "wf d \<Longrightarrow> length (keys d) = card (set (keys d))"
  by (simp add: wf_keys distinct_card)

lemma length_put:
  "wf d \<Longrightarrow> length (keys (put k v d)) = (if get d k = None then Suc (length (keys d)) else length (keys d))"
  using keys_get [of k d] by (simp add: length_keys wf_put keys_put card_insert_if)

lemma length_del:
  "wf d \<Longrightarrow> length (keys (del k d)) = (if get d k = None then length (keys d) else length (keys d) - 1)"
  using keys_get [of k d] by (simp add: length_keys wf_del keys_del)

lemma put_put: "get (put k v (put k w d)) = get (put k v d)"
  by (simp add: get_put)

lemma del_put_other: "k \<noteq> j \<Longrightarrow> get (del k (put j v d)) j = Some v"
  by (simp add: get_put get_del)

end

lemma dictGet_Nil [simp, js_simps]: "dictGet [] k = None"
  by (simp add: dictGet_def)

lemma dictGet_Cons [simp, js_simps]: "dictGet ((a, v) # d) k = (if a = k then Some v else dictGet d k)"
  by (simp add: dictGet_def)

lemma dictGet_put: "dictGet (dictPut k v d) = (dictGet d)(k \<mapsto> v)"
  by (induction k v d rule: dictPut.induct) (auto simp: fun_eq_iff)

lemma dictGet_del: "dictGet (dictDel k d) = (dictGet d)(k := None)"
  by (induction d) (auto simp: dictDel_def fun_eq_iff)

lemma dictKeys_put: "dictKeys (dictPut k v d) = (if k \<in> set (dictKeys d) then dictKeys d else dictKeys d @ [k])"
  by (induction k v d rule: dictPut.induct) (auto simp: dictKeys_def)

lemma dictPut_fresh: "k \<notin> set (dictKeys d) \<Longrightarrow> dictPut k v d = d @ [(k, v)]"
  by (induction k v d rule: dictPut.induct) (auto simp: dictKeys_def)

lemma dictKeys_del: "dictKeys (dictDel k d) = filter (\<lambda>a. a \<noteq> k) (dictKeys d)"
  by (induction d) (auto simp: dictKeys_def dictDel_def)

lemma dictKeys_get: "k \<in> set (dictKeys d) \<longleftrightarrow> dictGet d k \<noteq> None"
  by (induction d) (auto simp: dictKeys_def)

lemma length_dictKeys [simp]: "length (dictKeys d) = length d"
  by (simp add: dictKeys_def)

lemma dictDel_absent: "dictGet d k = None \<Longrightarrow> dictDel k d = d"
  by (induction d) (auto simp: dictDel_def split: if_splits)

interpretation js_dict: ordered_dict dictGet dictPut dictDel dictKeys wf_dict
  by unfold_locales
    (auto simp: dictGet_put dictGet_del dictKeys_get wf_dict_def dictKeys_put dictKeys_del)

lemmas dict_reads [store_simps] = dictGet_put dictGet_del

lemma dictGet_in_set: "wf_dict d \<Longrightarrow> dictGet d k = Some v \<longleftrightarrow> (k, v) \<in> set d"
  by (simp add: wf_dict_def dictKeys_def dictGet_def map_of_eq_Some_iff)

lemma dictGet_mem: "dictGet d k = Some v \<Longrightarrow> (k, v) \<in> set d"
  by (simp add: dictGet_def map_of_SomeD)

section \<open>Values\<close>

datatype jsnum = Fin rat | PInf | NInf | NaN

datatype jsval =
    Undef
  | Null
  | Bool bool
  | Num jsnum
  | Str string
  | Arr "jsval list"
  | Obj "(string \<times> jsval) list"

fun truthy :: "jsval \<Rightarrow> bool" where
  "truthy Undef = False"
| "truthy Null = False"
| "truthy (Bool b) = b"
| "truthy (Num (Fin x)) = (x \<noteq> 0)"
| "truthy (Num NaN) = False"
| "truthy (Num _) = True"
| "truthy (Str s) = (s \<noteq> [])"
| "truthy (Arr _) = True"
| "truthy (Obj _) = True"

text \<open>\<open>a ?? b\<close>.\<close>

fun nullish :: "jsval \<Rightarrow> jsval \<Rightarrow> jsval" where
  "nullish Undef d = d"
| "nullish Null d = d"
| "nullish v d = v"

text \<open>Property reads: \<open>jsField\<close> is \<open>v?.k\<close>, which is undefined on null and undefined;
  \<open>jsFieldE\<close> is \<open>v.k\<close>, which throws there (\<open>None\<close>). Own properties only.\<close>

fun jsField :: "string \<Rightarrow> jsval \<Rightarrow> jsval" where
  "jsField k (Obj d) = (case dictGet d k of None \<Rightarrow> Undef | Some v \<Rightarrow> v)"
| "jsField k v = Undef"

definition jsFieldE :: "string \<Rightarrow> jsval \<Rightarrow> jsval option" where
  "jsFieldE k v = (if v = Undef \<or> v = Null then None else Some (jsField k v))"

fun numStr :: "jsnum \<Rightarrow> string" where
  "numStr (Fin x) = ratStr x"
| "numStr PInf = ''Infinity''"
| "numStr NInf = ''-Infinity''"
| "numStr NaN = ''NaN''"

text \<open>\<open>String(v)\<close> for values that carry no \<open>toString\<close> of their own.\<close>

fun jsString :: "jsval \<Rightarrow> string" where
  "jsString Undef = ''undefined''"
| "jsString Null = ''null''"
| "jsString (Bool b) = (if b then ''true'' else ''false'')"
| "jsString (Num n) = numStr n"
| "jsString (Str s) = s"
| "jsString (Arr vs) =
     joinWith '','' (map (\<lambda>v. if v = Undef \<or> v = Null then [] else jsString v) vs)"
| "jsString (Obj _) = ''[object Object]''"

section \<open>Reading numbers\<close>

text \<open>A decimal literal at the head of a string: sign, integer digits, fraction, exponent. The
  result is the value and the rest; \<open>None\<close> when there is no digit.\<close>

definition digitsVal :: "string \<Rightarrow> rat" where
  "digitsVal ds = of_nat (decode ds)"

definition scanSign :: "string \<Rightarrow> rat \<times> string" where
  "scanSign s =
     (case s of [] \<Rightarrow> (1, s)
      | c # cs \<Rightarrow> if c = CHR ''-'' then (- 1, cs) else if c = CHR ''+'' then (1, cs) else (1, s))"

definition scanFraction :: "string \<Rightarrow> string \<times> string" where
  "scanFraction s =
     (case s of [] \<Rightarrow> ([], s)
      | c # cs \<Rightarrow> if c = CHR ''.'' then (takeWhile is_digit cs, dropWhile is_digit cs) else ([], s))"

definition scanExponent :: "string \<Rightarrow> int \<times> string" where
  "scanExponent s =
     (case s of [] \<Rightarrow> (0, s)
      | c # cs \<Rightarrow>
          if c = CHR ''e'' \<or> c = CHR ''E'' then
            let (sg, r) = scanSign cs; ds = takeWhile is_digit r
            in if ds = [] then (0, s)
               else ((if sg < 0 then - int (decode ds) else int (decode ds)), dropWhile is_digit r)
          else (0, s))"

definition pow10 :: "int \<Rightarrow> rat" where
  "pow10 e = (if e < 0 then 1 / 10 ^ nat (- e) else 10 ^ nat e)"

definition scanDecimal :: "string \<Rightarrow> (jsnum \<times> string) option" where
  "scanDecimal s =
     (let (sg, s1) = scanSign s
      in if startsWith s1 ''Infinity'' then Some (if sg < 0 then NInf else PInf, drop 8 s1)
         else
           let ip = takeWhile is_digit s1;
               (fp, s2) = scanFraction (dropWhile is_digit s1);
               (e, s3) = scanExponent s2
           in if ip = [] \<and> fp = [] then None
              else Some (Fin (sg * (digitsVal ip + digitsVal fp / 10 ^ length fp) * pow10 e), s3))"

definition parseFloat :: "string \<Rightarrow> jsnum" where
  "parseFloat s = (case scanDecimal (dropWhile is_space s) of None \<Rightarrow> NaN | Some (n, _) \<Rightarrow> n)"

definition strNumber :: "string \<Rightarrow> jsnum" where
  "strNumber s =
     (if trim s = [] then Fin 0
      else case scanDecimal (trim s) of Some (n, []) \<Rightarrow> n | _ \<Rightarrow> NaN)"

text \<open>\<open>Number(v)\<close>; the literal forms \<open>0x\<close>, \<open>0o\<close>, \<open>0b\<close> inside a string are not read.\<close>

fun jsNumber :: "jsval \<Rightarrow> jsnum" where
  "jsNumber Undef = NaN"
| "jsNumber Null = Fin 0"
| "jsNumber (Bool b) = Fin (if b then 1 else 0)"
| "jsNumber (Num n) = n"
| "jsNumber (Str s) = strNumber s"
| "jsNumber v = strNumber (jsString v)"

fun numToFixed :: "nat \<Rightarrow> jsnum \<Rightarrow> string" where
  "numToFixed d (Fin x) = toFixed d x"
| "numToFixed d n = numStr n"

fun numFinite :: "jsval \<Rightarrow> rat option" where
  "numFinite (Num (Fin x)) = Some x"
| "numFinite v = None"

lemma truthy_nullish: "truthy v \<Longrightarrow> nullish v d = v"
  by (cases v) auto

section \<open>Results of fetch\<close>

text \<open>What \<open>await fetch(...)\<close> yields: it rejects with a message, or it answers with a status and
  a body, which \<open>res.json()\<close> parses (\<open>None\<close>: the body is not JSON and \<open>json()\<close> rejects). The last
  component is the body's text where the code reads \<open>res.text()\<close>, and the message with which \<open>json()\<close>
  rejects where it reads JSON.\<close>

datatype fetched = Rejected string | Answer nat "jsval option" string

definition okStatus :: "nat \<Rightarrow> bool" where
  "okStatus n \<longleftrightarrow> 200 \<le> n \<and> n < 300"

text \<open>\<open>String(new Error(m))\<close>, and the type error of a property read on null or undefined.\<close>

definition errorString :: "string \<Rightarrow> string" where
  "errorString m = (if m = [] then ''Error'' else ''Error: '' @ m)"

definition nullRead :: "jsval \<Rightarrow> string \<Rightarrow> string" where
  "nullRead v k = ''TypeError: Cannot read properties of '' @ jsString v @ '' (reading '' @ [CHR 0x27] @ k
     @ [CHR 0x27] @ '')''"

text \<open>What a route handler answers.\<close>

record response =
  rs_status :: nat
  rs_body :: jsval

definition respond :: "nat \<Rightarrow> jsval \<Rightarrow> response" where
  "respond st b = \<lparr>rs_status = st, rs_body = b\<rparr>"

definition errorBody :: "string \<Rightarrow> jsval" where
  "errorBody m = Obj [(''error'', Str m)]"

lemma respond_sel [simp]: "rs_status (respond st b) = st" "rs_body (respond st b) = b"
  by (simp_all add: respond_def)

text \<open>The client's way of turning a failed answer into an error message,
  \<open>const body = await res.json().catch(() => (\{\})); throw new Error(body.error ?? `HTTP $\{res.status\}`)\<close>:
  a body that is JSON null makes the read of \<open>error\<close> throw, and the enclosing catch keeps that
  message.\<close>

definition httpError :: "nat \<Rightarrow> jsval option \<Rightarrow> string" where
  "httpError st body =
     (case body of
        None \<Rightarrow> ''HTTP '' @ natStr st
      | Some b \<Rightarrow>
          (case jsFieldE ''error'' b of
             None \<Rightarrow> ''Cannot read properties of '' @ jsString b @ '' (reading '' @ [CHR 0x27] @ ''error''
               @ [CHR 0x27] @ '')''
           | Some v \<Rightarrow> jsString (nullish v (Str (''HTTP '' @ natStr st)))))"

section \<open>Numbers compared and printed\<close>

definition str_null :: "string option \<Rightarrow> jsval" where
  "str_null o' = (case o' of None \<Rightarrow> Null | Some s \<Rightarrow> Str s)"

definition orElse :: "string option \<Rightarrow> string \<Rightarrow> string" where
  "orElse o' d = (case o' of None \<Rightarrow> d | Some s \<Rightarrow> s)"

text \<open>\<open>a || d\<close> on an optional string: the empty string is falsy too.\<close>

definition orStr :: "string option \<Rightarrow> string \<Rightarrow> string" where
  "orStr o' d = (case o' of None \<Rightarrow> d | Some s \<Rightarrow> if s = [] then d else s)"

lemma orElse_simps [simp, js_simps]: "orElse None d = d" "orElse (Some s) d = s"
  by (simp_all add: orElse_def)

lemma orStr_simps [simp, js_simps]: "orStr None d = d" "orStr (Some s) d = (if s = [] then d else s)"
  by (simp_all add: orStr_def)

lemma orStr_ne: "d \<noteq> [] \<Longrightarrow> orStr v d \<noteq> []"
  by (cases v) auto

end
