(* ===== verification/Local_Stores.thy ===== *)
theory Local_Stores
  imports Js_Value
begin

text \<open>
  The small client stores: \<open>lib/stores/load-store.ts\<close> (the load-test run with its ring buffer of
  metrics), \<open>lib/stores/simulate-store.ts\<close> (the last ten simulated runs) and
  \<open>lib/stores/command-palette-store.ts\<close>. An action with an \<open>await\<close> is two steps, the state set before
  the request and the state set when its answer is in, so that other actions can come between.
\<close>

section \<open>lib/stores/load-store.ts\<close>

record metrics_snapshot =
  ms_ts :: string
  ms_events_per_sec :: rat
  ms_consumer_lag :: rat
  ms_detections_per_sec :: rat
  ms_clickhouse_rows_per_sec :: rat
  ms_triage_p95_ms :: rat
  ms_total_events :: rat
  ms_total_detections :: rat
  ms_active_load_gen :: bool
  ms_current_load_gen_rate :: rat

datatype load_scenario = Mixed | Attack | BenignOnly

record load_config =
  lc_rate :: rat
  lc_duration_secs :: rat
  lc_scenario :: load_scenario
  lc_tenants :: rat
  lc_seed_baselines :: bool
  lc_sampled_triage_pct :: rat

text \<open>\<open>Partial<LoadConfig>\<close>: the fields that are present.\<close>

record load_config_patch =
  lp_rate :: "rat option"
  lp_duration_secs :: "rat option"
  lp_scenario :: "load_scenario option"
  lp_tenants :: "rat option"
  lp_seed_baselines :: "bool option"
  lp_sampled_triage_pct :: "rat option"

datatype load_status = LIdle | LStarting | LRunning | LStopping | LCompleted | LError

record load_state =
  ls_status :: load_status
  ls_config :: load_config
  ls_startedAt :: "int option"
  ls_history :: "metrics_snapshot list"
  ls_current :: "metrics_snapshot option"
  ls_errorMsg :: "string option"

definition DEFAULT_CONFIG :: load_config where
  "DEFAULT_CONFIG = \<lparr>lc_rate = 10000, lc_duration_secs = 30, lc_scenario = Mixed, lc_tenants = 3,
     lc_seed_baselines = True, lc_sampled_triage_pct = 0\<rparr>"

definition HISTORY_MAX :: nat where
  "HISTORY_MAX = 300"

definition loadInitial :: load_state where
  "loadInitial = \<lparr>ls_status = LIdle, ls_config = DEFAULT_CONFIG, ls_startedAt = None, ls_history = [],
     ls_current = None, ls_errorMsg = None\<rparr>"

definition patched :: "'a option \<Rightarrow> 'a \<Rightarrow> 'a" where
  "patched p old = (case p of None \<Rightarrow> old | Some v \<Rightarrow> v)"

definition setConfig :: "load_config_patch \<Rightarrow> load_state \<Rightarrow> load_state" where
  "setConfig c s = (let old = ls_config s in
     s\<lparr>ls_config := \<lparr>lc_rate = patched (lp_rate c) (lc_rate old),
        lc_duration_secs = patched (lp_duration_secs c) (lc_duration_secs old),
        lc_scenario = patched (lp_scenario c) (lc_scenario old),
        lc_tenants = patched (lp_tenants c) (lc_tenants old),
        lc_seed_baselines = patched (lp_seed_baselines c) (lc_seed_baselines old),
        lc_sampled_triage_pct = patched (lp_sampled_triage_pct c) (lc_sampled_triage_pct old)\<rparr>\<rparr>)"

definition startRunBegin :: "int \<Rightarrow> load_state \<Rightarrow> load_state" where
  "startRunBegin now s = s\<lparr>ls_status := LStarting, ls_errorMsg := None, ls_startedAt := Some now,
     ls_history := [], ls_current := None\<rparr>"

definition failRun :: "string \<Rightarrow> load_state \<Rightarrow> load_state" where
  "failRun m s = s\<lparr>ls_status := LError, ls_errorMsg := Some m\<rparr>"

fun startRunEnd :: "fetched \<Rightarrow> load_state \<Rightarrow> load_state" where
  "startRunEnd (Rejected m) s = failRun m s"
| "startRunEnd (Answer st body _) s =
     (if \<not> okStatus st then failRun (httpError st body) s else s\<lparr>ls_status := LRunning\<rparr>)"

definition stopRunBegin :: "load_state \<Rightarrow> load_state" where
  "stopRunBegin s = s\<lparr>ls_status := LStopping\<rparr>"

fun stopRunEnd :: "fetched \<Rightarrow> load_state \<Rightarrow> load_state" where
  "stopRunEnd (Rejected m) s = failRun m s"
| "stopRunEnd (Answer st body _) s =
     (if \<not> okStatus st \<and> st \<noteq> 404 then failRun (httpError st body) s
      else s\<lparr>ls_status := LCompleted\<rparr>)"

text \<open>\<open>prev.slice(-(HISTORY_MAX - 1))\<close> keeps the last 299 elements.\<close>

definition pushHistory :: "metrics_snapshot \<Rightarrow> metrics_snapshot list \<Rightarrow> metrics_snapshot list" where
  "pushHistory s prev =
     (if HISTORY_MAX \<le> length prev then drop (length prev - (HISTORY_MAX - 1)) prev @ [s]
      else prev @ [s])"

definition ingestSnapshot :: "metrics_snapshot \<Rightarrow> load_state \<Rightarrow> load_state" where
  "ingestSnapshot m s = s\<lparr>ls_current := Some m, ls_history := pushHistory m (ls_history s),
     ls_status := (if ls_status s = LRunning \<and> \<not> ms_active_load_gen m \<and> length (ls_history s) > 5
       then LCompleted else ls_status s)\<rparr>"

definition resetLoad :: "load_state \<Rightarrow> load_state" where
  "resetLoad s = s\<lparr>ls_status := LIdle, ls_config := DEFAULT_CONFIG, ls_startedAt := None, ls_history := [],
     ls_current := None, ls_errorMsg := None\<rparr>"

datatype load_op =
    SetConfig load_config_patch
  | StartRunBegin int
  | StartRunEnd fetched
  | StopRunBegin
  | StopRunEnd fetched
  | IngestSnapshot metrics_snapshot
  | ResetLoad

fun loadStep :: "load_op \<Rightarrow> load_state \<Rightarrow> load_state" where
  "loadStep (SetConfig c) = setConfig c"
| "loadStep (StartRunBegin now) = startRunBegin now"
| "loadStep (StartRunEnd r) = startRunEnd r"
| "loadStep StopRunBegin = stopRunBegin"
| "loadStep (StopRunEnd r) = stopRunEnd r"
| "loadStep (IngestSnapshot m) = ingestSnapshot m"
| "loadStep ResetLoad = resetLoad"

definition loadOk :: "load_state \<Rightarrow> bool" where
  "loadOk s \<longleftrightarrow>
     length (ls_history s) \<le> HISTORY_MAX \<and>
     ls_current s = (if ls_history s = [] then None else Some (last (ls_history s))) \<and>
     (ls_status s = LError \<longrightarrow> ls_errorMsg s \<noteq> None)"

section \<open>lib/stores/simulate-store.ts\<close>

record sim_run =
  sr_ts :: int
  sr_scenarioId :: string
  sr_verdict :: string
  sr_latencyMs :: rat
  sr_confidence :: "rat option"

definition pushRun :: "sim_run \<Rightarrow> sim_run list \<Rightarrow> sim_run list" where
  "pushRun entry history = slice 0 10 (entry # history)"

definition clearHistory :: "sim_run list \<Rightarrow> sim_run list" where
  "clearHistory history = []"

section \<open>lib/stores/command-palette-store.ts\<close>

definition paletteSetOpen :: "bool \<Rightarrow> bool \<Rightarrow> bool" where
  "paletteSetOpen v open_now = v"

definition paletteToggle :: "bool \<Rightarrow> bool" where
  "paletteToggle open_now = (\<not> open_now)"

section \<open>Facts\<close>

lemma newest_pushHistory:
  assumes "length h \<le> HISTORY_MAX"
  shows "rev (pushHistory x h) = take HISTORY_MAX (x # rev h)"
proof (cases "HISTORY_MAX \<le> length h")
  case True
  with assms have "length h = 300" by (simp add: HISTORY_MAX_def)
  then show ?thesis by (simp add: pushHistory_def HISTORY_MAX_def rev_drop)
next
  case False
  then show ?thesis by (simp add: pushHistory_def)
qed

interpretation load_history: bounded_log pushHistory rev HISTORY_MAX
  by unfold_locales (simp_all add: newest_pushHistory)

interpretation sim_history: bounded_log pushRun id 10
  by unfold_locales (simp_all add: pushRun_def slice_def)

lemma pushHistory_last [simp]: "pushHistory x h \<noteq> []" "last (pushHistory x h) = x"
  by (simp_all add: pushHistory_def)

lemma loadStep_ok: "loadOk s \<Longrightarrow> loadOk (loadStep op s)"
proof (cases op)
  case (StartRunEnd r)
  then show "loadOk s \<Longrightarrow> ?thesis" by (cases r) (auto simp: loadOk_def failRun_def)
next
  case (StopRunEnd r)
  then show "loadOk s \<Longrightarrow> ?thesis" by (cases r) (auto simp: loadOk_def failRun_def)
next
  case (IngestSnapshot m)
  then show "loadOk s \<Longrightarrow> ?thesis"
    using load_history.length_push by (auto simp: loadOk_def ingestSnapshot_def)
qed (auto simp: loadOk_def setConfig_def startRunBegin_def stopRunBegin_def resetLoad_def HISTORY_MAX_def Let_def)

interpretation load_machine: preserved loadStep "\<lambda>_. True" loadOk
  by unfold_locales (rule loadStep_ok)

lemma ingest_completed: "ls_status s = LCompleted \<Longrightarrow> ls_status (fold ingestSnapshot ms s) = LCompleted"
  by (induction ms arbitrary: s) (simp_all add: ingestSnapshot_def)

lemma pushHistory_grows: "length (pushHistory m h) \<ge> min (Suc (length h)) HISTORY_MAX"
  by (simp add: pushHistory_def HISTORY_MAX_def)

lemma ingest_inactive:
  assumes "list_all (\<lambda>m. \<not> ms_active_load_gen m) ms" and "ls_status s = LRunning \<or> ls_status s = LCompleted"
    and "7 \<le> length ms + length (ls_history s)" and "ms \<noteq> []"
  shows "ls_status (fold ingestSnapshot ms s) = LCompleted"
  using assms
proof (induction ms arbitrary: s)
  case (Cons m ms)
  let ?s = "ingestSnapshot m s"
  show ?case
  proof (cases "ls_status s = LRunning \<and> length (ls_history s) \<le> 5")
    case True
    then have "ls_status ?s = LRunning" and "length (ls_history ?s) = Suc (length (ls_history s))"
      by (auto simp: ingestSnapshot_def pushHistory_def HISTORY_MAX_def)
    moreover from this True Cons.prems have "ms \<noteq> []" by auto
    ultimately show ?thesis using Cons by simp
  next
    case False
    then have "ls_status ?s = LCompleted" using Cons.prems by (auto simp: ingestSnapshot_def)
    then show ?thesis by (simp add: ingest_completed)
  qed
qed simp

section \<open>Properties\<close>

text \<open>Whatever the interleaving of actions, answers and snapshots, the load store's history holds at
  most 300 snapshots, the current snapshot is the newest of them, and a run in error has a message.\<close>

theorem load_store_invariant: "loadOk (fold loadStep ops loadInitial)"
  by (rule load_machine.run_inv) (simp_all add: loadOk_def loadInitial_def list_all_iff)

text \<open>The history is exactly the newest 300 snapshots received since the run started, in order of
  arrival, and the simulator's history is exactly the newest ten runs, newest first.\<close>

theorem histories_are_newest:
  "ls_history (fold ingestSnapshot ms (startRunBegin now s)) = drop (length ms - HISTORY_MAX) ms \<and>
   fold pushRun rs (clearHistory h) = take 10 (rev rs)"
proof -
  have hist: "ls_history (fold ingestSnapshot ms s) = fold pushHistory ms (ls_history s)" for s
    by (induction ms arbitrary: s) (simp_all add: ingestSnapshot_def)
  have "rev (fold pushHistory ms []) = take HISTORY_MAX (rev ms)"
    using load_history.newest_run [of "[]" ms] by simp
  then have "fold pushHistory ms [] = drop (length ms - HISTORY_MAX) ms"
    by (metis rev_rev_ident rev_take length_rev)
  then have "ls_history (fold ingestSnapshot ms (startRunBegin now s)) = drop (length ms - HISTORY_MAX) ms"
    by (simp add: hist startRunBegin_def)
  moreover have "fold pushRun rs (clearHistory h) = take 10 (rev rs)"
    using sim_history.newest_run [of "[]" rs] by (simp add: clearHistory_def)
  ultimately show ?thesis ..
qed

text \<open>A started run whose generator has gone inactive completes by itself: seven snapshots without an
  active generator suffice, and no run completes that way within its first six.\<close>

theorem inactive_run_completes:
  assumes inactive: "list_all (\<lambda>m. \<not> ms_active_load_gen m) ms" and ok: "okStatus st"
  shows "(ls_status (fold ingestSnapshot ms (startRunEnd (Answer st body raw) (startRunBegin now s))) = LCompleted)
    = (7 \<le> length ms)"
proof -
  let ?s = "startRunEnd (Answer st body raw) (startRunBegin now s)"
  have run: "ls_status ?s = LRunning" "ls_history ?s = []"
    using ok by (simp_all add: startRunBegin_def)
  have few: "ls_status (fold ingestSnapshot ms s) = LRunning"
    if "length ms + length (ls_history s) \<le> 6" and "ls_status s = LRunning" for s ms
    using that
  proof (induction ms arbitrary: s)
    case (Cons m ms)
    then have "ls_status (ingestSnapshot m s) = LRunning"
      and "length (ls_history (ingestSnapshot m s)) = Suc (length (ls_history s))"
      by (auto simp: ingestSnapshot_def pushHistory_def HISTORY_MAX_def)
    then show ?case using Cons by simp
  qed simp
  show ?thesis
  proof (cases "7 \<le> length ms")
    case True
    then have "ms \<noteq> []" by auto
    then show ?thesis using True inactive run ingest_inactive [of ms ?s] by simp
  next
    case False
    then show ?thesis using few [of ms ?s] run by simp
  qed
qed

definition sampleSnapshot :: metrics_snapshot where
  "sampleSnapshot = \<lparr>ms_ts = ''t'', ms_events_per_sec = 0, ms_consumer_lag = 0, ms_detections_per_sec = 0,
     ms_clickhouse_rows_per_sec = 0, ms_triage_p95_ms = 0, ms_total_events = 0, ms_total_detections = 0,
     ms_active_load_gen = False, ms_current_load_gen_rate = 0\<rparr>"

theorem inactive_run_completes_witness:
  "ls_status (fold ingestSnapshot (replicate 7 sampleSnapshot)
     (startRunEnd (Answer 200 None []) (startRunBegin 0 loadInitial))) = LCompleted"
  using inactive_run_completes [of "replicate 7 sampleSnapshot" 200 None "[]" 0 loadInitial]
  by (simp add: sampleSnapshot_def okStatus_def list_all_iff)

end
