(* ===== verification/Workbench_Types.thy ===== *)
theory Workbench_Types
  imports Js_Value
begin

text \<open>
  The data shared by the workbench's components: alerts and cases (\<open>lib/mock-data.ts\<close>), OCSF
  events (\<open>lib/ocsf-to-alert.ts\<close>), trace steps as they arrive from the ws-gateway
  (\<open>hooks/use-case-trace-ws.ts\<close>), triage verdicts (\<open>lib/stores/case-store.ts\<close>) and the rows of
  the database (\<open>types/db.ts\<close>). A union of string literals is a datatype with its spelling as a
  function; an optional field is an \<open>option\<close>; a record's fields carry a short prefix because the
  same field names recur.
\<close>

section \<open>lib/mock-data.ts\<close>

datatype severity = Critical | High | Medium | Low

datatype alert_state = InFlight | AwaitingReview | AutoClosed

datatype execution_path = Classifier | Llm | Hybrid

datatype alert_verdict = Benign | Suspicious | Malicious | Investigating

datatype agent_name = Triager | Investigator | Hunter

datatype agent_run = AgIdle | AgRunning | AgComplete | AgDegraded

fun severityStr :: "severity \<Rightarrow> string" where
  "severityStr Critical = ''critical''"
| "severityStr High = ''high''"
| "severityStr Medium = ''medium''"
| "severityStr Low = ''low''"

fun alertStateStr :: "alert_state \<Rightarrow> string" where
  "alertStateStr InFlight = ''in-flight''"
| "alertStateStr AwaitingReview = ''awaiting-review''"
| "alertStateStr AutoClosed = ''auto-closed''"

fun pathStr :: "execution_path \<Rightarrow> string" where
  "pathStr Classifier = ''classifier''"
| "pathStr Llm = ''llm''"
| "pathStr Hybrid = ''hybrid''"

fun verdictStr :: "alert_verdict \<Rightarrow> string" where
  "verdictStr Benign = ''benign''"
| "verdictStr Suspicious = ''suspicious''"
| "verdictStr Malicious = ''malicious''"
| "verdictStr Investigating = ''investigating''"

fun agentNameStr :: "agent_name \<Rightarrow> string" where
  "agentNameStr Triager = ''Triager''"
| "agentNameStr Investigator = ''Investigator''"
| "agentNameStr Hunter = ''Hunter''"

fun agentRunStr :: "agent_run \<Rightarrow> string" where
  "agentRunStr AgIdle = ''idle''"
| "agentRunStr AgRunning = ''running''"
| "agentRunStr AgComplete = ''complete''"
| "agentRunStr AgDegraded = ''degraded''"

record agent_status =
  ag_agent :: agent_name
  ag_status :: agent_run
  ag_step :: string
  ag_toolsUsed :: nat

record alert =
  al_id :: string
  al_caseId :: string
  al_title :: string
  al_source :: string
  al_entity :: string
  al_region :: string
  al_severity :: severity
  al_state :: alert_state
  al_verdict :: alert_verdict
  al_confidence :: rat
  al_executionPath :: execution_path
  al_updatedAt :: string
  al_technique :: string
  al_summary :: string
  al_agentStatus :: agent_status

record feature_impact =
  fi_name :: string
  fi_value :: string
  fi_impact :: rat

section \<open>OCSF events and trace steps\<close>

record ocsf_event =
  ev_event_id :: string
  ev_class_uid :: "string option"
  ev_time :: "string option"
  ev_tenant_id :: "string option"
  ev_actor_user_name :: "string option"
  ev_actor_user_uid :: "string option"
  ev_cloud_region :: "string option"
  ev_cloud_account_uid :: "string option"
  ev_severity :: "string option"
  ev_auth_status :: "string option"
  ev_api_operation :: "string option"
  ev_api_service :: "string option"

record kafka_step =
  ks_case_id :: string
  ks_tenant_id :: string
  ks_agent_action_id :: string
  ks_agent_id :: string
  ks_execution_path :: string
  ks_step_kind :: string
  ks_summary :: string
  ks_ts :: int

text \<open>The key \<open>`$\{agent_action_id\}:$\{step_kind\}:$\{ts\}`\<close> that the store and the client's
  persistence effect deduplicate by.\<close>

definition stepKey :: "kafka_step \<Rightarrow> string" where
  "stepKey s = ks_agent_action_id s @ '':'' @ ks_step_kind s @ '':'' @ intStr (ks_ts s)"

section \<open>Triage verdicts\<close>

record classifier_evidence =
  cv_input_features :: "rat dict"
  cv_shap_values :: "rat dict"
  cv_raw_prediction :: rat
  cv_calibrated_confidence :: rat
  cv_novelty_score :: rat

record triage_verdict =
  tv_action_id :: string
  tv_case_id :: string
  tv_verdict :: string
  tv_execution_path :: string
  tv_calibrated_confidence :: rat
  tv_novelty_score :: rat
  tv_escalated :: bool
  tv_escalation_reason :: "string option"
  tv_latency_ms :: rat
  tv_classifier_evidence :: "classifier_evidence option"

section \<open>types/db.ts\<close>

datatype triage_status = TIdle | TRunning | TComplete | TFailed

fun triageStatusStr :: "triage_status \<Rightarrow> string" where
  "triageStatusStr TIdle = ''idle''"
| "triageStatusStr TRunning = ''running''"
| "triageStatusStr TComplete = ''complete''"
| "triageStatusStr TFailed = ''failed''"

record auth_user_row =
  au_id :: string
  au_name :: string
  au_email :: string
  au_email_verified :: bool
  au_image :: "string option"
  au_created_at :: int
  au_updated_at :: int

record case_row =
  cr_case_id :: string
  cr_tenant_id :: string
  cr_event :: jsval
  cr_baseline :: jsval
  cr_detection :: jsval
  cr_triage_status :: triage_status
  cr_triage_started_at :: "int option"
  cr_triage_completed_at :: "int option"
  cr_verdict :: jsval
  cr_error :: "string option"
  cr_created_at :: int
  cr_updated_at :: int

record trace_row =
  tr_id :: string
  tr_case_id :: string
  tr_agent_action_id :: string
  tr_agent_id :: string
  tr_execution_path :: string
  tr_step_kind :: string
  tr_summary :: string
  tr_ts :: int
  tr_created_at :: int

section \<open>Injective keys\<close>

lemma colon_notin_intStr: "CHR '':'' \<notin> set (intStr i)"
  by (auto dest!: intStr_chars simp: char_between_def code_def)

text \<open>Two steps whose action id and kind contain no colon share a key only if they agree on
  action id, kind and time.\<close>

lemma stepKey_inject:
  assumes "CHR '':'' \<notin> set (ks_agent_action_id s)" and "CHR '':'' \<notin> set (ks_agent_action_id t)"
  shows "stepKey s = stepKey t \<longleftrightarrow>
    ks_agent_action_id s = ks_agent_action_id t \<and> ks_step_kind s = ks_step_kind t \<and> ks_ts s = ks_ts t"
proof -
  have "stepKey s = stepKey t \<longleftrightarrow> ks_agent_action_id s = ks_agent_action_id t \<and>
      ks_step_kind s @ CHR '':'' # intStr (ks_ts s) = ks_step_kind t @ CHR '':'' # intStr (ks_ts t)"
    using assms by (simp add: stepKey_def sep_inject)
  then show ?thesis
    by (simp add: sep_inject_last colon_notin_intStr)
qed

end
