(* ===== verification/Alert_Mappers.thy ===== *)
theory Alert_Mappers
  imports Workbench_Types
begin

text \<open>
  \<open>lib/ocsf-to-alert.ts\<close> and \<open>lib/detection-to-alert.ts\<close>: how an OCSF event and a fired detection
  become an alert of the queue. The two \<open>mapSeverity\<close> functions differ (an unknown severity is low
  for an event and medium for a detection) and are kept apart by a suffix.

  The casts \<open>ev as OcsfEvent\<close> and \<open>data as FiredDetection[]\<close> check nothing at run time. The model
  reads a JSON value into the declared shape (a null field counts as absent, as \<open>??\<close> and the
  truthiness tests of the source do); \<open>None\<close> stands for a value outside that shape, on which the
  source throws or builds an alert with fields of another type. \<open>localeTime\<close> is
  \<open>new Date(t).toLocaleTimeString()\<close>.
\<close>

section \<open>lib/ocsf-to-alert.ts\<close>

definition IDLE_AGENT_event :: agent_status where
  "IDLE_AGENT_event = \<lparr>ag_agent = Triager, ag_status = AgIdle, ag_step = ''Awaiting triage (Phase 4)'',
     ag_toolsUsed = 0\<rparr>"

definition mapSeverity_event :: "string option \<Rightarrow> severity" where
  "mapSeverity_event s =
     (case map_option toLowerCase s of
        None \<Rightarrow> Low
      | Some t \<Rightarrow> if t = ''critical'' then Critical
          else if t = ''high'' then High
          else if t = ''medium'' then Medium
          else Low)"

text \<open>\<open>x ? pre + x + post : ""\<close> on an optional string.\<close>

definition whenPresent :: "string \<Rightarrow> string option \<Rightarrow> string \<Rightarrow> string" where
  "whenPresent pre o' post = (case o' of None \<Rightarrow> [] | Some s \<Rightarrow> if s = [] then [] else pre @ s @ post)"

definition titleFromEvent :: "ocsf_event \<Rightarrow> string" where
  "titleFromEvent ev =
     (if ev_class_uid ev = Some ''3002'' \<or> ev_class_uid ev = Some ''Authentication'' then
        (if ev_auth_status ev = Some ''Success'' then ''successful'' else ''failed'')
          @ '' console login'' @ whenPresent '' ('' (ev_cloud_region ev) '')''
      else case ev_api_operation ev of
             Some (c # cs) \<Rightarrow> (c # cs) @ whenPresent '' via '' (ev_api_service ev) []
           | _ \<Rightarrow> ''OCSF event '' @ slice 0 8 (ev_event_id ev))"

definition ocsfEventToAlert :: "(string \<Rightarrow> string) \<Rightarrow> ocsf_event \<Rightarrow> nat \<Rightarrow> alert" where
  "ocsfEventToAlert localeTime ev index =
     \<lparr>al_id = ev_event_id ev,
      al_caseId = ''case-'' @ slice 0 8 (ev_event_id ev),
      al_title = titleFromEvent ev,
      al_source = ''AWS CloudTrail'',
      al_entity = orElse (ev_actor_user_name ev) (orElse (ev_actor_user_uid ev) ''unknown''),
      al_region = orElse (ev_cloud_region ev) em_dash,
      al_severity = mapSeverity_event (ev_severity ev),
      al_state = AwaitingReview,
      al_verdict = Investigating,
      al_confidence = 0,
      al_executionPath = Classifier,
      al_updatedAt = (case ev_time ev of
         Some (c # cs) \<Rightarrow> localeTime (c # cs) | _ \<Rightarrow> ''event '' @ natStr (index + 1)),
      al_technique = (if ev_class_uid ev = Some ''3002'' then ''T1078.004'' else ''T1530''),
      al_summary = ''Live OCSF event from attest-collector. Triage agents available in Phase 4.'',
      al_agentStatus = IDLE_AGENT_event\<rparr>"

text \<open>An optional string field: absent, undefined and null are \<open>Some None\<close>; another type is \<open>None\<close>.\<close>

fun optString :: "jsval \<Rightarrow> string option option" where
  "optString Undef = Some None"
| "optString Null = Some None"
| "optString (Str s) = Some (Some s)"
| "optString _ = None"

fun reqString :: "jsval \<Rightarrow> string option" where
  "reqString (Str s) = Some s"
| "reqString _ = None"

definition asOcsfEvent :: "jsval \<Rightarrow> ocsf_event option" where
  "asOcsfEvent v =
     Option.bind (reqString (jsField ''event_id'' v)) (\<lambda>i.
     Option.bind (optString (jsField ''class_uid'' v)) (\<lambda>cl.
     Option.bind (optString (jsField ''time'' v)) (\<lambda>tm.
     Option.bind (optString (jsField ''tenant_id'' v)) (\<lambda>tn.
     Option.bind (optString (jsField ''actor_user_name'' v)) (\<lambda>nm.
     Option.bind (optString (jsField ''actor_user_uid'' v)) (\<lambda>ui.
     Option.bind (optString (jsField ''cloud_region'' v)) (\<lambda>rg.
     Option.bind (optString (jsField ''cloud_account_uid'' v)) (\<lambda>ac.
     Option.bind (optString (jsField ''severity'' v)) (\<lambda>sv.
     Option.bind (optString (jsField ''auth_status'' v)) (\<lambda>st.
     Option.bind (optString (jsField ''api_operation'' v)) (\<lambda>op.
     Option.bind (optString (jsField ''api_service'' v)) (\<lambda>sr.
       Some \<lparr>ev_event_id = i, ev_class_uid = cl, ev_time = tm, ev_tenant_id = tn,
         ev_actor_user_name = nm, ev_actor_user_uid = ui, ev_cloud_region = rg,
         ev_cloud_account_uid = ac, ev_severity = sv, ev_auth_status = st, ev_api_operation = op,
         ev_api_service = sr\<rparr>))))))))))))"

fun mapIndexed :: "(jsval \<Rightarrow> 'b option) \<Rightarrow> (nat \<Rightarrow> 'b \<Rightarrow> 'c) \<Rightarrow> nat \<Rightarrow> jsval list \<Rightarrow> 'c list option" where
  "mapIndexed cast f i [] = Some []"
| "mapIndexed cast f i (v # vs) =
     (case cast v of None \<Rightarrow> None
      | Some x \<Rightarrow> map_option (Cons (f i x)) (mapIndexed cast f (Suc i) vs))"

definition parseEventsResponse :: "(string \<Rightarrow> string) \<Rightarrow> jsval \<Rightarrow> alert list option" where
  "parseEventsResponse localeTime data =
     (case data of
        Arr vs \<Rightarrow> mapIndexed asOcsfEvent (\<lambda>i ev. ocsfEventToAlert localeTime ev i) 0 vs
      | Obj d \<Rightarrow>
          if inObject ''event_id'' d
          then map_option (\<lambda>ev. [ocsfEventToAlert localeTime ev 0]) (asOcsfEvent (Obj d))
          else Some []
      | _ \<Rightarrow> Some [])"

section \<open>lib/detection-to-alert.ts\<close>

record fired_detection =
  fd_detection_id :: string
  fd_event_id :: string
  fd_actor_user_name :: string
  fd_cloud_region :: string
  fd_severity :: string
  fd_fired_at :: string

definition IDLE_AGENT_detection :: agent_status where
  "IDLE_AGENT_detection = \<lparr>ag_agent = Triager, ag_status = AgIdle, ag_step = ''Awaiting triage'',
     ag_toolsUsed = 0\<rparr>"

definition DETECTION_TITLES :: "string dict" where
  "DETECTION_TITLES =
     [(''aws_console_login_from_anomalous_geolocation'', ''Console Login from Anomalous Region''),
      (''aws_cloudtrail_logging_disabled'', ''CloudTrail Logging Disabled''),
      (''aws_root_account_use'', ''AWS Root Account Used''),
      (''aws_iam_user_excessive_privilege'', ''Excessive IAM Privilege Granted''),
      (''aws_new_iam_user_then_access_keys_sequence'', ''New IAM User Created with Access Keys''),
      (''aws_s3_bucket_policy_made_public'', ''S3 Bucket Made Public''),
      (''okta_brute_force_authentication'', ''Okta Brute-Force Authentication''),
      (''okta_mfa_bypass_attempt'', ''Okta MFA Bypass Attempt''),
      (''m365_mass_external_sharing'', ''M365 Mass External Sharing''),
      (''m365_inbox_rule_auto_forward_external'', ''M365 Inbox Auto-Forward Rule'')]"

definition DETECTION_MITRE :: "string dict" where
  "DETECTION_MITRE =
     [(''aws_console_login_from_anomalous_geolocation'', ''T1078.004''),
      (''aws_cloudtrail_logging_disabled'', ''T1562.001''),
      (''aws_root_account_use'', ''T1078''),
      (''aws_iam_user_excessive_privilege'', ''T1098''),
      (''aws_new_iam_user_then_access_keys_sequence'', ''T1136.003''),
      (''aws_s3_bucket_policy_made_public'', ''T1530''),
      (''okta_brute_force_authentication'', ''T1110''),
      (''okta_mfa_bypass_attempt'', ''T1556''),
      (''m365_mass_external_sharing'', ''T1567''),
      (''m365_inbox_rule_auto_forward_external'', ''T1114.003'')]"

definition toTitleCase :: "string \<Rightarrow> string" where
  "toTitleCase i = capitalizeWords (replaceChar CHR ''_'' '' '' i)"

definition mapSeverity_detection :: "string \<Rightarrow> severity" where
  "mapSeverity_detection raw =
     (let s = toLowerCase raw
      in if s = ''critical'' then Critical
         else if s = ''high'' then High
         else if s = ''medium'' then Medium
         else if s = ''low'' then Low
         else Medium)"

text \<open>Rule ids are compared with the tables' own keys; the members a plain object inherits
  (\<open>constructor\<close> and the like) are not rule ids.\<close>

definition firedDetectionToAlert :: "fired_detection \<Rightarrow> alert" where
  "firedDetectionToAlert d =
     \<lparr>al_id = fd_event_id d,
      al_caseId = fd_event_id d,
      al_title = orElse (dictGet DETECTION_TITLES (fd_detection_id d)) (toTitleCase (fd_detection_id d)),
      al_source = ''HELIQL Detection'',
      al_entity = orStr (Some (fd_actor_user_name d)) ''unknown'',
      al_region = orStr (Some (fd_cloud_region d)) ''unknown'',
      al_severity = mapSeverity_detection (fd_severity d),
      al_state = AwaitingReview,
      al_verdict = Investigating,
      al_confidence = 0,
      al_executionPath = Classifier,
      al_updatedAt = fd_fired_at d,
      al_technique = orElse (dictGet DETECTION_MITRE (fd_detection_id d)) [],
      al_summary = ''Detection rule '' @ [CHR 0x22] @ fd_detection_id d @ [CHR 0x22] @ '' fired ''
        @ em_dash @ '' entity: '' @ fd_actor_user_name d @ '', region: '' @ fd_cloud_region d @ ''.'',
      al_agentStatus = IDLE_AGENT_detection\<rparr>"

definition asFiredDetection :: "jsval \<Rightarrow> fired_detection option" where
  "asFiredDetection v =
     Option.bind (reqString (jsField ''detection_id'' v)) (\<lambda>di.
     Option.bind (reqString (jsField ''event_id'' v)) (\<lambda>ei.
     Option.bind (reqString (jsField ''actor_user_name'' v)) (\<lambda>nm.
     Option.bind (reqString (jsField ''cloud_region'' v)) (\<lambda>rg.
     Option.bind (reqString (jsField ''severity'' v)) (\<lambda>sv.
     Option.bind (reqString (jsField ''fired_at'' v)) (\<lambda>fa.
       Some \<lparr>fd_detection_id = di, fd_event_id = ei, fd_actor_user_name = nm, fd_cloud_region = rg,
         fd_severity = sv, fd_fired_at = fa\<rparr>))))))"

definition parseFiredDetections :: "jsval \<Rightarrow> alert list option" where
  "parseFiredDetections data =
     (case data of
        Arr vs \<Rightarrow> mapIndexed asFiredDetection (\<lambda>i d. firedDetectionToAlert d) 0 vs
      | _ \<Rightarrow> Some [])"

section \<open>Facts\<close>

lemma mapIndexed_Some:
  "mapIndexed cast f i vs = Some ys \<longleftrightarrow>
     (\<exists>xs. map cast vs = map Some xs \<and> ys = map (\<lambda>(j, x). f j x) (enumerate i xs))"
proof (induction vs arbitrary: i ys)
  case (Cons v vs)
  show ?case
  proof (cases "cast v")
    case None
    then show ?thesis by (auto simp: Cons_eq_map_conv)
  next
    case (Some x)
    have "mapIndexed cast f i (v # vs) = Some ys \<longleftrightarrow>
        (\<exists>zs. mapIndexed cast f (Suc i) vs = Some zs \<and> ys = f i x # zs)"
      using Some by auto
    also have "\<dots> \<longleftrightarrow> (\<exists>xs. map cast vs = map Some xs \<and>
        ys = f i x # map (\<lambda>(j, x). f j x) (enumerate (Suc i) xs))"
      by (auto simp: Cons.IH)
    also have "\<dots> \<longleftrightarrow> (\<exists>xs. map cast (v # vs) = map Some xs \<and> ys = map (\<lambda>(j, x). f j x) (enumerate i xs))"
      using Some by (auto simp: Cons_eq_map_conv)
    finally show ?thesis .
  qed
qed auto

lemma mapIndexed_uniform:
  "mapIndexed cast (\<lambda>j. f) i vs = Some ys \<longleftrightarrow> (\<exists>xs. map cast vs = map Some xs \<and> ys = map f xs)"
proof -
  have "map (\<lambda>(j, x). f x) (enumerate i xs) = map f xs" for xs
  proof -
    have "map (\<lambda>(j, x). f x) (enumerate i xs) = map f (map snd (enumerate i xs))"
      unfolding map_map by (rule map_cong) auto
    then show ?thesis by simp
  qed
  then show ?thesis by (simp add: mapIndexed_Some)
qed

lemma mapSeverity_detection_roundtrip [simp]: "mapSeverity_detection (severityStr s) = s"
  by (cases s) (simp_all add: mapSeverity_detection_def toLowerCase_def lower_char_def char_between_def code_def)

lemma lower_char_idem: "lower_char (lower_char c) = lower_char c"
proof -
  have "lower_char c = c" if "\<not> (is_upper_az c \<or> char_between 192 222 c \<and> code c \<noteq> 215)" for c
    using that by (auto simp: lower_char_def)
  moreover have "\<not> (is_upper_az (lower_char c) \<or> char_between 192 222 (lower_char c) \<and> code (lower_char c) \<noteq> 215)"
    by (auto simp: lower_char_def char_between_def code_def)
  ultimately show ?thesis by blast
qed

lemma toLowerCase_idem [simp]: "toLowerCase (toLowerCase s) = toLowerCase s"
  by (simp add: toLowerCase_def lower_char_idem)

lemma lower_upper_char: "lower_char (upper_char c) = lower_char c"
  by (auto simp: lower_char_def upper_char_def char_between_def code_def)

lemma toLowerCase_capitalize: "toLowerCase (capitalizeFrom b s) = toLowerCase s"
  by (induction s arbitrary: b) (auto simp: toLowerCase_def lower_upper_char)

lemma underscore_capitalize: "CHR ''_'' \<in> set (capitalizeFrom b s) \<Longrightarrow> CHR ''_'' \<in> set s"
proof (induction s arbitrary: b)
  case (Cons c cs)
  have "of_char (char_of (of_char c - 32 :: nat)) = (of_char c - 32 :: nat)" if "97 \<le> code c" "code c \<le> 122"
    using that by (simp add: code_def)
  then have "upper_char c \<noteq> CHR ''_''" if "is_lower_az c"
    using that by (auto simp: upper_char_def char_between_def code_def dest!: arg_cong [where f = "of_char :: char \<Rightarrow> nat"])
  then have "upper_char c = CHR ''_'' \<Longrightarrow> c = CHR ''_''"
    by (auto simp: upper_char_def split: if_splits)
  with Cons show ?case by (auto split: if_splits)
qed simp

lemma replaceChar_underscore: "replaceChar CHR ''_'' '' '' s = map (\<lambda>c. if c = CHR ''_'' then CHR '' '' else c) s"
  by (induction s) (auto simp: replaceChar_def)

section \<open>Properties\<close>

text \<open>The rows of \<open>/v1/detections/fired\<close> become alerts one for one and in order: the alert and its
  case carry the event id, the severity a rule declares survives in any letter case, an empty actor
  or region reads as unknown, and the alert waits for review.\<close>

theorem parseFiredDetections_rows:
  assumes "parseFiredDetections (Arr vs) = Some ys"
  shows "\<exists>ds. map asFiredDetection vs = map Some ds \<and> ys = map firedDetectionToAlert ds \<and>
    (\<forall>d s. d \<in> set ds \<longrightarrow> toLowerCase (fd_severity d) = severityStr s \<longrightarrow>
      al_severity (firedDetectionToAlert d) = s) \<and>
    map al_id ys = map fd_event_id ds \<and> map al_caseId ys = map fd_event_id ds \<and>
    (\<forall>a \<in> set ys. al_entity a \<noteq> [] \<and> al_region a \<noteq> [] \<and> al_state a = AwaitingReview)"
proof -
  from assms obtain ds where ds: "map asFiredDetection vs = map Some ds"
    and ys: "ys = map firedDetectionToAlert ds"
    by (auto simp: parseFiredDetections_def mapIndexed_uniform)
  have sev: "al_severity (firedDetectionToAlert d) = s" if "toLowerCase (fd_severity d) = severityStr s" for d s
  proof -
    have "mapSeverity_detection (fd_severity d) = mapSeverity_detection (toLowerCase (fd_severity d))"
      by (simp add: mapSeverity_detection_def)
    then show ?thesis using that by (simp add: firedDetectionToAlert_def)
  qed
  have shape: "al_entity (firedDetectionToAlert d) \<noteq> [] \<and> al_region (firedDetectionToAlert d) \<noteq> []
      \<and> al_state (firedDetectionToAlert d) = AwaitingReview" for d
    by (simp add: firedDetectionToAlert_def)
  have ids: "al_id (firedDetectionToAlert d) = fd_event_id d" "al_caseId (firedDetectionToAlert d) = fd_event_id d" for d
    by (simp_all add: firedDetectionToAlert_def)
  show ?thesis
    using ds ys sev shape ids by (intro exI [of _ ds]) auto
qed

definition sampleRow :: jsval where
  "sampleRow = Obj [(''detection_id'', Str ''aws_root_account_use''), (''event_id'', Str ''e-1''),
     (''actor_user_name'', Str []), (''cloud_region'', Str ''eu-west-1''), (''severity'', Str ''HIGH''),
     (''fired_at'', Str ''2026-01-01T00:00:00Z'')]"

theorem parseFiredDetections_rows_witness:
  "\<exists>ys ds. parseFiredDetections (Arr [sampleRow]) = Some ys \<and> ys = map firedDetectionToAlert ds \<and>
    map al_id ys = map fd_event_id ds"
proof -
  have p: "parseFiredDetections (Arr [sampleRow]) =
      Some [firedDetectionToAlert (the (asFiredDetection sampleRow))]"
    by (simp add: parseFiredDetections_def sampleRow_def asFiredDetection_def dictGet_def)
  from parseFiredDetections_rows [OF this] p show ?thesis by metis
qed

text \<open>The catalogue of detections is closed: the same ten rules have a title and a MITRE technique,
  and a rule outside it is titled with its own id, underscores replaced by spaces and nothing but
  letter case changed, with no technique.\<close>

theorem detection_catalogue:
  "dictKeys DETECTION_TITLES = dictKeys DETECTION_MITRE \<and> wf_dict DETECTION_TITLES \<and>
   (\<forall>d. fd_detection_id d \<notin> set (dictKeys DETECTION_TITLES) \<longrightarrow>
      al_technique (firedDetectionToAlert d) = [] \<and>
      CHR ''_'' \<notin> set (al_title (firedDetectionToAlert d)) \<and>
      toLowerCase (al_title (firedDetectionToAlert d)) =
        toLowerCase (map (\<lambda>c. if c = CHR ''_'' then CHR '' '' else c) (fd_detection_id d)))"
proof -
  have keys: "dictKeys DETECTION_TITLES = dictKeys DETECTION_MITRE"
    by (simp add: dictKeys_def DETECTION_TITLES_def DETECTION_MITRE_def)
  have wf: "wf_dict DETECTION_TITLES"
    by (simp add: wf_dict_def dictKeys_def DETECTION_TITLES_def)
  have other: "al_technique (firedDetectionToAlert d) = [] \<and>
      al_title (firedDetectionToAlert d) = toTitleCase (fd_detection_id d)"
    if "fd_detection_id d \<notin> set (dictKeys DETECTION_TITLES)" for d
  proof -
    have "dictGet DETECTION_TITLES (fd_detection_id d) = None"
      and "dictGet DETECTION_MITRE (fd_detection_id d) = None"
      using that keys dictKeys_get by metis+
    then show ?thesis by (simp add: firedDetectionToAlert_def)
  qed
  have "CHR ''_'' \<notin> set (toTitleCase i)" for i
    by (auto simp: toTitleCase_def capitalizeWords_def replaceChar_underscore dest!: underscore_capitalize
        split: if_splits)
  moreover have "toLowerCase (toTitleCase i) =
      toLowerCase (map (\<lambda>c. if c = CHR ''_'' then CHR '' '' else c) i)" for i
    by (simp add: toTitleCase_def capitalizeWords_def toLowerCase_capitalize replaceChar_underscore)
  ultimately show ?thesis using keys wf other by simp
qed

theorem detection_catalogue_witness:
  "CHR ''_'' \<notin> set (al_title (firedDetectionToAlert \<lparr>fd_detection_id = ''my_rule'', fd_event_id = ''e'',
     fd_actor_user_name = ''a'', fd_cloud_region = ''r'', fd_severity = ''low'', fd_fired_at = ''t''\<rparr>))"
proof -
  let ?d = "\<lparr>fd_detection_id = ''my_rule'', fd_event_id = ''e'', fd_actor_user_name = ''a'',
    fd_cloud_region = ''r'', fd_severity = ''low'', fd_fired_at = ''t''\<rparr>"
  have "fd_detection_id ?d \<notin> set (dictKeys DETECTION_TITLES)"
    by (simp add: dictKeys_def DETECTION_TITLES_def)
  with detection_catalogue show ?thesis by blast
qed

end
