(* ===== verification/Js_Date.thy ===== *)
theory Js_Date
  imports Js_Value
begin

text \<open>
  Dates as the program uses them: a valid \<open>Date\<close> is its time value, an \<open>int\<close> of milliseconds since the
  epoch within the range the language allows; \<open>toISOString\<close> follows the language's own definition
  (year from day number, month from day within the year). The facts say that the year is the right
  one and that two dates with the same ISO string are the same instant.
\<close>

section \<open>Calendar\<close>

definition msPerDay :: int where
  "msPerDay = 86400000"

definition dayFromYear :: "int \<Rightarrow> int" where
  "dayFromYear y = 365 * (y - 1970) + (y - 1969) div 4 - (y - 1901) div 100 + (y - 1601) div 400"

definition leapYear :: "int \<Rightarrow> bool" where
  "leapYear y \<longleftrightarrow> y mod 4 = 0 \<and> (y mod 100 \<noteq> 0 \<or> y mod 400 = 0)"

text \<open>The largest year that starts no later than day \<open>d\<close>: an estimate, moved by at most one.\<close>

definition yearFromDay :: "int \<Rightarrow> int" where
  "yearFromDay d =
     (let y = (d * 400) div 146097 + 1970
      in if d < dayFromYear y then y - 1 else if dayFromYear (y + 1) \<le> d then y + 1 else y)"

text \<open>The day within a year on which each month starts.\<close>

definition monthStarts :: "bool \<Rightarrow> int list" where
  "monthStarts leap = [0, 31] @ map (\<lambda>d. d + (if leap then 1 else 0))
     [59, 90, 120, 151, 181, 212, 243, 273, 304, 334]"

definition monthFromDay :: "int list \<Rightarrow> int \<Rightarrow> nat" where
  "monthFromDay starts d = length (takeWhile (\<lambda>s. s \<le> d) (tl starts))"

definition pad2 :: "nat \<Rightarrow> string" where
  "pad2 n = padStart 2 (natStr n)"

definition isoYear :: "int \<Rightarrow> string" where
  "isoYear y = (if 0 \<le> y \<and> y \<le> 9999 then padStart 4 (natStr (nat y))
     else if y < 0 then CHR ''-'' # padStart 6 (natStr (nat (- y)))
     else CHR ''+'' # padStart 6 (natStr (nat y)))"

definition isoDate :: "int \<Rightarrow> string" where
  "isoDate day =
     (let y = yearFromDay day; starts = monthStarts (leapYear y); dw = day - dayFromYear y;
          m = monthFromDay starts dw
      in isoYear y @ CHR ''-'' # pad2 (m + 1) @ CHR ''-'' # pad2 (nat (dw - starts ! m + 1)))"

definition isoTime :: "nat \<Rightarrow> string" where
  "isoTime ms = pad2 (ms div 3600000) @ CHR '':'' # pad2 (ms div 60000 mod 60) @ CHR '':''
     # pad2 (ms div 1000 mod 60) @ CHR ''.'' # padStart 3 (natStr (ms mod 1000)) @ ''Z''"

definition toISOString :: "int \<Rightarrow> string" where
  "toISOString t = isoDate (t div msPerDay) @ CHR ''T'' # isoTime (nat (t mod msPerDay))"

definition dateValid :: "int \<Rightarrow> bool" where
  "dateValid t \<longleftrightarrow> \<bar>t\<bar> \<le> 8640000000000000"

text \<open>\<open>new Date(x)\<close> of a number: \<open>None\<close> is an invalid date; a fraction of a millisecond is cut off.\<close>

definition truncRat :: "rat \<Rightarrow> int" where
  "truncRat x = (if x < 0 then \<lceil>x\<rceil> else \<lfloor>x\<rfloor>)"

fun dateOfNumber :: "jsnum \<Rightarrow> int option" where
  "dateOfNumber (Fin x) = (if \<bar>x\<bar> \<le> 8640000000000000 then Some (truncRat x) else None)"
| "dateOfNumber _ = None"

section \<open>Facts\<close>

lemma div_bounds:
  assumes "0 < (k :: int)"
  shows "k * (x div k) \<le> x" "x \<le> k * (x div k) + (k - 1)"
proof -
  have "k * (x div k) + x mod k = x" by simp
  moreover have "0 \<le> x mod k" "x mod k < k" using assms by simp_all
  ultimately show "k * (x div k) \<le> x" "x \<le> k * (x div k) + (k - 1)" by linarith+
qed

lemma dayFromYear_bounds:
  "146097 * (y - 1970) \<le> 400 * dayFromYear y + 400 * 2"
  "400 * dayFromYear y \<le> 146097 * (y - 1970) + 400 * 2"
proof -
  define a b c where "a = (y - 1969) div 4" and "b = (y - 1901) div 100" and "c = (y - 1601) div 400"
  have d: "dayFromYear y = 365 * (y - 1970) + a - b + c"
    by (simp add: dayFromYear_def a_def b_def c_def)
  note bounds = div_bounds [of 4 "y - 1969", folded a_def] div_bounds [of 100 "y - 1901", folded b_def]
    div_bounds [of 400 "y - 1601", folded c_def]
  show "146097 * (y - 1970) \<le> 400 * dayFromYear y + 400 * 2"
    unfolding d using bounds by (simp add: algebra_simps)
  show "400 * dayFromYear y \<le> 146097 * (y - 1970) + 400 * 2"
    unfolding d using bounds by (simp add: algebra_simps)
qed

lemma yearFromDay_range:
  "dayFromYear (yearFromDay d) \<le> d \<and> d < dayFromYear (yearFromDay d + 1)"
proof -
  define y where "y = (d * 400) div 146097 + 1970"
  have est: "146097 * (y - 1970) \<le> d * 400" "d * 400 < 146097 * (y - 1970) + 146097"
    unfolding y_def by simp_all
  have "400 * dayFromYear (y - 1) \<le> 400 * d"
    using est(1) dayFromYear_bounds(2) [of "y - 1"] by (simp add: algebra_simps)
  then have "dayFromYear (y - 1) \<le> d" by simp
  moreover have "d < dayFromYear (y + 2)"
  proof -
    have "400 * d < 400 * dayFromYear (y + 2)"
      using est(2) dayFromYear_bounds(1) [of "y + 2"] by (simp add: algebra_simps)
    then show ?thesis by simp
  qed
  ultimately show ?thesis
    unfolding yearFromDay_def y_def [symmetric] by (auto simp: Let_def add.assoc)
qed

lemma decode_zeros [simp]: "decode (replicate n CHR ''0'' @ s) = decode s"
  by (induction n) (simp_all add: decode_def code_def)

lemma decode_padStart [simp]: "decode (padStart n s) = decode s"
  by (simp add: padStart_def)

lemma padStart_inject [simp]: "padStart n (natStr a) = padStart n (natStr b) \<longleftrightarrow> a = b"
  by (metis decode_natStr decode_padStart)

lemma pad2_inject [simp]: "pad2 a = pad2 b \<longleftrightarrow> a = b"
  by (simp add: pad2_def)

lemma padStart_digits: "c \<in> set (padStart n (natStr a)) \<Longrightarrow> is_digit c"
  by (auto simp: padStart_def char_between_def code_def dest: natStr_digits split: if_splits)

lemma notin_padStart: "\<not> is_digit c \<Longrightarrow> c \<notin> set (padStart n (natStr a))"
  using padStart_digits by blast

lemma notin_pad2: "\<not> is_digit c \<Longrightarrow> c \<notin> set (pad2 a)"
  by (simp add: pad2_def notin_padStart)

lemma punct_nondigit [simp]:
  "\<not> is_digit CHR ''-''" "\<not> is_digit CHR '':''" "\<not> is_digit CHR ''.''" "\<not> is_digit CHR ''T''"
  "\<not> is_digit CHR ''Z''" "\<not> is_digit CHR ''+''"
  by (simp_all add: char_between_def code_def)

lemma isoYear_inject: "isoYear y = isoYear z \<longleftrightarrow> y = z"
proof -
  have head: "CHR ''-'' # u \<noteq> padStart n (natStr a)" "CHR ''+'' # u \<noteq> padStart n (natStr a)" for u n a
    using notin_padStart [of "CHR ''-''" n a] notin_padStart [of "CHR ''+''" n a]
    by (metis list.set_intros(1) punct_nondigit(1), metis list.set_intros(1) punct_nondigit(6))
  show ?thesis
    using head head [symmetric] by (auto simp: isoYear_def)
qed

lemma isoYear_split:
  "isoYear y @ CHR ''-'' # u = isoYear z @ CHR ''-'' # v \<longleftrightarrow> y = z \<and> u = v"
proof -
  have sign: "\<exists>sg n a. isoYear w = sg @ padStart n (natStr a) \<and> (sg = [] \<or> sg = ''-'' \<or> sg = ''+'')" for w
    unfolding isoYear_def by (metis append_Cons append_Nil)
  obtain sg n a where y: "isoYear y = sg @ padStart n (natStr a)" and sg: "sg = [] \<or> sg = ''-'' \<or> sg = ''+''"
    using sign by blast
  obtain sh m b where z: "isoYear z = sh @ padStart m (natStr b)" and sh: "sh = [] \<or> sh = ''-'' \<or> sh = ''+''"
    using sign by blast
  let ?p = "padStart n (natStr a)" and ?q = "padStart m (natStr b)"
  have ne: "?p \<noteq> []" "?q \<noteq> []" by (simp_all add: padStart_def)
  have dig: "is_digit (hd ?p)" "is_digit (hd ?q)"
    using ne padStart_digits by (metis hd_in_set)+
  have unsigned: "hd ?p \<noteq> CHR ''-''" "hd ?p \<noteq> CHR ''+''" "hd ?q \<noteq> CHR ''-''" "hd ?q \<noteq> CHR ''+''"
    using dig punct_nondigit by metis+
  have "sg = sh" if "sg @ ?p @ u' = sh @ ?q @ v'" for u' v'
  proof -
    have "hd (sg @ ?p @ u') = hd (sh @ ?q @ v')" using that by simp
    then show ?thesis using sg sh ne unsigned unsigned [symmetric] by auto
  qed
  moreover have "?p @ CHR ''-'' # u = ?q @ CHR ''-'' # v \<longleftrightarrow> ?p = ?q \<and> u = v"
    by (rule sep_inject) (simp_all add: notin_padStart)
  ultimately have "isoYear y @ CHR ''-'' # u = isoYear z @ CHR ''-'' # v \<longleftrightarrow> isoYear y = isoYear z \<and> u = v"
    unfolding y z using append.assoc by (metis same_append_eq)
  then show ?thesis by (simp add: isoYear_inject)
qed

lemma monthStarts_le:
  assumes "0 \<le> d"
  shows "monthStarts leap ! monthFromDay (monthStarts leap) d \<le> d"
proof -
  let ?t = "tl (monthStarts leap)" and ?m = "monthFromDay (monthStarts leap) d"
  show ?thesis
  proof (cases ?m)
    case 0
    then show ?thesis using assms by (simp add: monthStarts_def)
  next
    case (Suc k)
    then have k: "k < length (takeWhile (\<lambda>s. s \<le> d) ?t)" by (simp add: monthFromDay_def)
    then have "?t ! k \<le> d"
      by (metis (no_types, lifting) nth_mem set_takeWhileD takeWhile_nth)
    then show ?thesis using Suc by (simp add: monthStarts_def)
  qed
qed

lemma isoDate_inject: "isoDate d = isoDate e \<longleftrightarrow> d = e"
proof -
  have "d = e" if eq: "isoDate d = isoDate e"
  proof -
    define y where "y = yearFromDay d"
    define ms where "ms = monthStarts (leapYear y)"
    define m where "m = monthFromDay ms (d - dayFromYear y)"
    have D: "isoDate d = isoYear y @ CHR ''-'' # pad2 (m + 1) @ CHR ''-'' # pad2 (nat (d - dayFromYear y - ms ! m + 1))"
      by (simp add: isoDate_def y_def ms_def m_def Let_def)
    define z where "z = yearFromDay e"
    define m' where "m' = monthFromDay (monthStarts (leapYear z)) (e - dayFromYear z)"
    have E: "isoDate e = isoYear z @ CHR ''-'' # pad2 (m' + 1) @ CHR ''-''
        # pad2 (nat (e - dayFromYear z - monthStarts (leapYear z) ! m' + 1))"
      by (simp add: isoDate_def z_def m'_def Let_def)
    from eq have yz: "y = z" and "pad2 (m + 1) @ CHR ''-'' # pad2 (nat (d - dayFromYear y - ms ! m + 1))
        = pad2 (m' + 1) @ CHR ''-'' # pad2 (nat (e - dayFromYear z - monthStarts (leapYear z) ! m' + 1))"
      unfolding D E isoYear_split by auto
    then have mm: "m = m'" by (simp add: sep_inject notin_pad2)
    with yz eq have "nat (d - dayFromYear y - ms ! m + 1) = nat (e - dayFromYear y - ms ! m + 1)"
      unfolding D E isoYear_split ms_def by auto
    moreover have "ms ! m \<le> d - dayFromYear y"
      unfolding m_def ms_def using yearFromDay_range [of d] by (intro monthStarts_le) (simp add: y_def)
    moreover have "ms ! m \<le> e - dayFromYear y"
      unfolding mm m'_def ms_def yz using yearFromDay_range [of e] by (intro monthStarts_le) (simp add: z_def)
    ultimately show ?thesis by linarith
  qed
  then show ?thesis by auto
qed

lemma isoTime_fields:
  "a = ((a div 3600000 * 60 + a div 60000 mod 60) * 60 + a div 1000 mod 60) * 1000 + a mod (1000 :: nat)"
proof -
  have "a div 3600000 = a div 60000 div 60" and "a div 60000 = a div 1000 div 60"
    by (simp_all add: div_mult2_eq [symmetric])
  then show ?thesis by (simp only: div_mult_mod_eq)
qed

lemma isoTime_inject: "isoTime a = isoTime b \<longleftrightarrow> a = b"
proof -
  have "a = b" if "isoTime a = isoTime b"
  proof -
    from that have "a div 3600000 = b div 3600000" "a div 60000 mod 60 = b div 60000 mod 60"
      "a div 1000 mod 60 = b div 1000 mod 60" "a mod 1000 = b mod 1000"
      by (simp_all add: isoTime_def sep_inject notin_pad2 notin_padStart)
    then show ?thesis using isoTime_fields [of a] isoTime_fields [of b] by metis
  qed
  then show ?thesis by auto
qed

lemma no_T_isoDate: "CHR ''T'' \<notin> set (isoDate d)"
  by (auto simp: isoDate_def isoYear_def Let_def notin_pad2 notin_padStart)

lemma toISOString_inject [simp]: "toISOString s = toISOString t \<longleftrightarrow> s = t"
proof -
  have pos: "0 < msPerDay" by (simp add: msPerDay_def)
  have "toISOString s = toISOString t \<longleftrightarrow>
      s div msPerDay = t div msPerDay \<and> nat (s mod msPerDay) = nat (t mod msPerDay)"
    by (simp add: toISOString_def sep_inject no_T_isoDate isoDate_inject isoTime_inject)
  then show ?thesis
    using pos by (metis div_mult_mod_eq nat_eq_iff2 pos_mod_sign)
qed

lemma toISOString_ne [simp]: "toISOString t \<noteq> []"
  by (simp add: toISOString_def)

end
