(* ===== verification/Case_Repository.thy ===== *)
theory Case_Repository
  imports Workbench_Types Js_Date
begin

text \<open>
  \<open>lib/server/case-repository.ts\<close>: the two Postgres tables of the workbench and the statements the
  server runs on them. The tables are part of the state, with the constraints the file itself
  declares (primary keys, NOT NULL, the foreign key of a trace step, UNIQUE); the promise \<open>schemaReady\<close>
  is kept as it is, also after it has been rejected. Each statement takes a fault: \<open>None\<close> when the
  database executes it, \<open>Some m\<close> when it fails with message \<open>m\<close> (no connection, timeout) without effect.
  Reads of the clock are arguments; \<open>parseDate\<close> is \<open>new Date(s)\<close> for a string. How the driver encodes a
  JavaScript value that is not an object as \<open>jsonb\<close> is not modelled. Rows with equal \<open>ts\<close> are listed in
  order of insertion, one of the orders \<open>ORDER BY ts\<close> allows.
\<close>

section \<open>State\<close>

type_synonym fault = "string option"

datatype schema_state = SchemaUnset | SchemaReady | SchemaFailed string

record repo =
  rp_schema :: schema_state
  rp_cases :: "case_row dict"
  rp_traces :: "trace_row dict"

type_synonym 'a db_result = "(string + 'a) \<times> repo"

definition emptyRepo :: repo where
  "emptyRepo = \<lparr>rp_schema = SchemaUnset, rp_cases = [], rp_traces = []\<rparr>"

datatype ts_input = TsNum jsnum | TsStr string | TsDate "int option"

record trace_input =
  ti_agent_action_id :: string
  ti_agent_id :: string
  ti_execution_path :: string
  ti_step_kind :: string
  ti_summary :: string
  ti_ts :: ts_input

section \<open>Statements\<close>

definition ensureCaseSchema :: "fault \<Rightarrow> repo \<Rightarrow> unit db_result" where
  "ensureCaseSchema f r =
     (case rp_schema r of
        SchemaReady \<Rightarrow> (Inr (), r)
      | SchemaFailed m \<Rightarrow> (Inl m, r)
      | SchemaUnset \<Rightarrow>
          (case f of
             None \<Rightarrow> (Inr (), r\<lparr>rp_schema := SchemaReady\<rparr>)
           | Some m \<Rightarrow> (Inl m, r\<lparr>rp_schema := SchemaFailed m\<rparr>)))"

text \<open>\<open>await ensureCaseSchema(); await db...execute()\<close>.\<close>

definition dbStatement :: "fault \<Rightarrow> fault \<Rightarrow> (repo \<Rightarrow> 'a db_result) \<Rightarrow> repo \<Rightarrow> 'a db_result" where
  "dbStatement fs fq body r =
     (case ensureCaseSchema fs r of
        (Inl m, r') \<Rightarrow> (Inl m, r')
      | (Inr _, r') \<Rightarrow> (case fq of Some m \<Rightarrow> (Inl m, r') | None \<Rightarrow> body r'))"

definition notNull :: "jsval \<Rightarrow> bool" where
  "notNull v \<longleftrightarrow> v \<noteq> Undef \<and> v \<noteq> Null"

definition insertedCase :: "string \<Rightarrow> string option \<Rightarrow> jsval \<Rightarrow> jsval \<Rightarrow> jsval \<Rightarrow> int \<Rightarrow> int \<Rightarrow> case_row" where
  "insertedCase caseId tenantId ev base det t1 t2 =
     \<lparr>cr_case_id = caseId,
      cr_tenant_id = orElse tenantId ''default'',
      cr_event = ev,
      cr_baseline = nullish base Null,
      cr_detection = nullish det Null,
      cr_triage_status = TIdle,
      cr_triage_started_at = None,
      cr_triage_completed_at = None,
      cr_verdict = Null,
      cr_error = None,
      cr_created_at = t1,
      cr_updated_at = t2\<rparr>"

definition upsertCaseSnapshot ::
  "string \<Rightarrow> string option \<Rightarrow> jsval \<Rightarrow> jsval \<Rightarrow> jsval \<Rightarrow> int \<Rightarrow> fault \<Rightarrow> fault \<Rightarrow> repo \<Rightarrow> unit db_result" where
  "upsertCaseSnapshot caseId tenantId ev base det now fs fq =
     dbStatement fs fq (\<lambda>r.
       if \<not> notNull ev then (Inl ''null value in column event violates not-null constraint'', r)
       else (Inr (), r\<lparr>rp_cases := dictPut caseId
         (case dictGet (rp_cases r) caseId of
            None \<Rightarrow> insertedCase caseId tenantId ev base det now now
          | Some row \<Rightarrow> row\<lparr>cr_event := ev, cr_baseline := nullish base Null,
              cr_detection := nullish det Null, cr_updated_at := now\<rparr>) (rp_cases r)\<rparr>))"

definition getCase :: "string \<Rightarrow> fault \<Rightarrow> fault \<Rightarrow> repo \<Rightarrow> case_row option db_result" where
  "getCase caseId fs fq = dbStatement fs fq (\<lambda>r. (Inr (dictGet (rp_cases r) caseId), r))"

definition getCases :: "string list \<Rightarrow> fault \<Rightarrow> fault \<Rightarrow> repo \<Rightarrow> case_row dict db_result" where
  "getCases caseIds fs fq r =
     (if caseIds = [] then (Inr [], r)
      else dbStatement fs fq (\<lambda>r. (Inr (fold (\<lambda>(k, row). dictPut (cr_case_id row) row)
        (filter (\<lambda>(k, _). k \<in> set caseIds) (rp_cases r)) []), r)) r)"

definition updateCase :: "string \<Rightarrow> (case_row \<Rightarrow> case_row) \<Rightarrow> fault \<Rightarrow> fault \<Rightarrow> repo \<Rightarrow> unit db_result" where
  "updateCase caseId f fs fq = dbStatement fs fq (\<lambda>r.
     (Inr (), case dictGet (rp_cases r) caseId of
        None \<Rightarrow> r
      | Some row \<Rightarrow> r\<lparr>rp_cases := dictPut caseId (f row) (rp_cases r)\<rparr>))"

definition markTriageRunning :: "string \<Rightarrow> int \<Rightarrow> fault \<Rightarrow> fault \<Rightarrow> repo \<Rightarrow> unit db_result" where
  "markTriageRunning caseId now = updateCase caseId (\<lambda>row. row\<lparr>cr_triage_status := TRunning,
     cr_triage_started_at := Some now, cr_error := None, cr_updated_at := now\<rparr>)"

definition markTriageComplete :: "string \<Rightarrow> jsval \<Rightarrow> int \<Rightarrow> fault \<Rightarrow> fault \<Rightarrow> repo \<Rightarrow> unit db_result" where
  "markTriageComplete caseId verdict now = updateCase caseId (\<lambda>row. row\<lparr>cr_triage_status := TComplete,
     cr_triage_completed_at := Some now, cr_verdict := nullish verdict Null, cr_error := None,
     cr_updated_at := now\<rparr>)"

definition markTriageFailed :: "string \<Rightarrow> string \<Rightarrow> int \<Rightarrow> fault \<Rightarrow> fault \<Rightarrow> repo \<Rightarrow> unit db_result" where
  "markTriageFailed caseId err now = updateCase caseId (\<lambda>row. row\<lparr>cr_triage_status := TFailed,
     cr_error := Some err, cr_updated_at := now\<rparr>)"

fun normalizeTraceTimestamp :: "(string \<Rightarrow> int option) \<Rightarrow> ts_input \<Rightarrow> int option" where
  "normalizeTraceTimestamp parseDate (TsDate d) = d"
| "normalizeTraceTimestamp parseDate (TsNum (Fin x)) =
     dateOfNumber (Fin (if x > 10000000000 then x else x * 1000))"
| "normalizeTraceTimestamp parseDate (TsNum n) = None"
| "normalizeTraceTimestamp parseDate (TsStr s) = parseDate s"

definition traceId :: "string \<Rightarrow> string \<Rightarrow> string \<Rightarrow> int \<Rightarrow> string" where
  "traceId caseId action kind ts = caseId @ CHR '':'' # action @ CHR '':'' # kind @ CHR '':'' # toISOString ts"

definition traceRow :: "(string \<Rightarrow> int option) \<Rightarrow> string \<Rightarrow> int \<Rightarrow> trace_input \<Rightarrow> trace_row option" where
  "traceRow parseDate caseId now step =
     (case normalizeTraceTimestamp parseDate (ti_ts step) of
        None \<Rightarrow> None
      | Some ts \<Rightarrow> Some \<lparr>tr_id = traceId caseId (ti_agent_action_id step) (ti_step_kind step) ts,
          tr_case_id = caseId, tr_agent_action_id = ti_agent_action_id step, tr_agent_id = ti_agent_id step,
          tr_execution_path = ti_execution_path step, tr_step_kind = ti_step_kind step,
          tr_summary = ti_summary step, tr_ts = ts, tr_created_at = now\<rparr>)"

text \<open>\<open>steps.map\<close> with a callback that throws: \<open>None\<close>.\<close>

fun traverse :: "('a \<Rightarrow> 'b option) \<Rightarrow> 'a list \<Rightarrow> 'b list option" where
  "traverse f [] = Some []"
| "traverse f (x # xs) =
     (case f x of None \<Rightarrow> None | Some y \<Rightarrow> map_option (Cons y) (traverse f xs))"

definition sameSlot :: "trace_row \<Rightarrow> trace_row \<Rightarrow> bool" where
  "sameSlot a b \<longleftrightarrow> tr_case_id a = tr_case_id b \<and> tr_agent_action_id a = tr_agent_action_id b
     \<and> tr_step_kind a = tr_step_kind b \<and> tr_ts a = tr_ts b"

text \<open>\<open>INSERT ... ON CONFLICT (id) DO NOTHING\<close>, row after row. A row whose id is free but which
  repeats the four columns of the UNIQUE constraint aborts the statement.\<close>

fun insertTraces :: "trace_row list \<Rightarrow> trace_row dict \<Rightarrow> string + trace_row dict" where
  "insertTraces [] tab = Inr tab"
| "insertTraces (row # rows) tab =
     (if dictGet tab (tr_id row) \<noteq> None then insertTraces rows tab
      else if list_ex (\<lambda>(_, old). sameSlot old row) tab
        then Inl ''duplicate key value violates unique constraint''
      else insertTraces rows (dictPut (tr_id row) row tab))"

definition appendTraceSteps ::
  "(string \<Rightarrow> int option) \<Rightarrow> string \<Rightarrow> trace_input list \<Rightarrow> int \<Rightarrow> fault \<Rightarrow> fault \<Rightarrow> repo \<Rightarrow> unit db_result" where
  "appendTraceSteps parseDate caseId steps now fs fq r =
     (if steps = [] then (Inr (), r)
      else case ensureCaseSchema fs r of
        (Inl m, r') \<Rightarrow> (Inl m, r')
      | (Inr _, r') \<Rightarrow>
          (case traverse (traceRow parseDate caseId now) steps of
             None \<Rightarrow> (Inl ''Invalid time value'', r')
           | Some rows \<Rightarrow>
               (case fq of
                  Some m \<Rightarrow> (Inl m, r')
                | None \<Rightarrow>
                    (case insertTraces rows (rp_traces r') of
                       Inl m \<Rightarrow> (Inl m, r')
                     | Inr tab \<Rightarrow>
                         if list_ex (\<lambda>(k, row). dictGet (rp_traces r') k = None \<and>
                              dictGet (rp_cases r') (tr_case_id row) = None) tab
                         then (Inl ''insert violates foreign key constraint'', r')
                         else (Inr (), r'\<lparr>rp_traces := tab\<rparr>)))))"

definition listTraceSteps :: "string \<Rightarrow> fault \<Rightarrow> fault \<Rightarrow> repo \<Rightarrow> trace_row list db_result" where
  "listTraceSteps caseId fs fq = dbStatement fs fq (\<lambda>r.
     (Inr (sort_key tr_ts (filter (\<lambda>row. tr_case_id row = caseId) (map snd (rp_traces r)))), r))"

section \<open>Runs and the invariant\<close>

datatype repo_op =
    UpsertCase string "string option" jsval jsval jsval int fault fault
  | MarkRunning string int fault fault
  | MarkComplete string jsval int fault fault
  | MarkFailed string string int fault fault
  | AppendTraces string "trace_input list" int fault fault

fun repoStep :: "(string \<Rightarrow> int option) \<Rightarrow> repo_op \<Rightarrow> repo \<Rightarrow> repo" where
  "repoStep p (UpsertCase i tn ev b d t fs fq) r = snd (upsertCaseSnapshot i tn ev b d t fs fq r)"
| "repoStep p (MarkRunning i t fs fq) r = snd (markTriageRunning i t fs fq r)"
| "repoStep p (MarkComplete i v t fs fq) r = snd (markTriageComplete i v t fs fq r)"
| "repoStep p (MarkFailed i e t fs fq) r = snd (markTriageFailed i e t fs fq r)"
| "repoStep p (AppendTraces i ss t fs fq) r = snd (appendTraceSteps p i ss t fs fq r)"

definition caseRowOk :: "string \<Rightarrow> case_row \<Rightarrow> bool" where
  "caseRowOk i row \<longleftrightarrow> cr_case_id row = i \<and> notNull (cr_event row) \<and>
     (cr_triage_status row = TRunning \<longrightarrow> cr_triage_started_at row \<noteq> None) \<and>
     (cr_triage_status row = TComplete \<longrightarrow> cr_triage_completed_at row \<noteq> None) \<and>
     (cr_triage_status row = TFailed \<longleftrightarrow> cr_error row \<noteq> None)"

definition traceRowOk :: "case_row dict \<Rightarrow> string \<Rightarrow> trace_row \<Rightarrow> bool" where
  "traceRowOk cases i row \<longleftrightarrow> tr_id row = i \<and>
     i = traceId (tr_case_id row) (tr_agent_action_id row) (tr_step_kind row) (tr_ts row) \<and>
     dictGet cases (tr_case_id row) \<noteq> None"

definition repoOk :: "repo \<Rightarrow> bool" where
  "repoOk r \<longleftrightarrow> wf_dict (rp_cases r) \<and> wf_dict (rp_traces r) \<and>
     (\<forall>i row. dictGet (rp_cases r) i = Some row \<longrightarrow> caseRowOk i row) \<and>
     (\<forall>i row. dictGet (rp_traces r) i = Some row \<longrightarrow> traceRowOk (rp_cases r) i row)"

section \<open>Facts\<close>

lemma ensureCaseSchema_tables [simp]:
  "rp_cases (snd (ensureCaseSchema f r)) = rp_cases r"
  "rp_traces (snd (ensureCaseSchema f r)) = rp_traces r"
  by (auto simp: ensureCaseSchema_def split: schema_state.splits option.splits)

lemma dbStatement_inv:
  assumes "P r" and "\<And>s. rp_cases s = rp_cases r \<Longrightarrow> rp_traces s = rp_traces r \<Longrightarrow> P s"
    and "\<And>s. rp_cases s = rp_cases r \<Longrightarrow> rp_traces s = rp_traces r \<Longrightarrow> P (snd (body s))"
  shows "P (snd (dbStatement fs fq body r))"
proof -
  obtain o' s where e: "ensureCaseSchema fs r = (o', s)" by fastforce
  then have "rp_cases s = rp_cases r" "rp_traces s = rp_traces r"
    using ensureCaseSchema_tables [of fs r] by simp_all
  then show ?thesis
    using assms e by (auto simp: dbStatement_def split: sum.splits option.splits)
qed

lemma repoOk_schema:
  fixes r s :: repo
  shows "rp_cases s = rp_cases r \<Longrightarrow> rp_traces s = rp_traces r \<Longrightarrow> repoOk r \<Longrightarrow> repoOk s"
  by (simp add: repoOk_def)

lemma repoOk_putCase:
  assumes ok: "repoOk r" and row: "caseRowOk i row"
  shows "repoOk (r\<lparr>rp_cases := dictPut i row (rp_cases r)\<rparr>)"
proof -
  have "traceRowOk (dictPut i row (rp_cases r)) k t" if "dictGet (rp_traces r) k = Some t" for k t
    using ok that by (auto simp: repoOk_def traceRowOk_def dictGet_put)
  then show ?thesis
    using ok row by (auto simp: repoOk_def js_dict.wf_put dictGet_put split: if_splits)
qed

lemma repoOk_upsert:
  assumes ok: "repoOk r"
  shows "repoOk (snd (upsertCaseSnapshot i tn ev b d t fs fq r))"
  unfolding upsertCaseSnapshot_def
proof (rule dbStatement_inv)
  fix s :: repo assume same: "rp_cases s = rp_cases r" "rp_traces s = rp_traces r"
  then show s: "repoOk s" using ok by (rule repoOk_schema)
  have "caseRowOk i row" if "dictGet (rp_cases s) i = Some row" for row
    using s that by (simp add: repoOk_def)
  then show "repoOk (snd (if \<not> notNull ev then (Inl ''null value in column event violates not-null constraint'', s)
       else (Inr (), s\<lparr>rp_cases := dictPut i
         (case dictGet (rp_cases s) i of
            None \<Rightarrow> insertedCase i tn ev b d t t
          | Some row \<Rightarrow> row\<lparr>cr_event := ev, cr_baseline := nullish b Null,
              cr_detection := nullish d Null, cr_updated_at := t\<rparr>) (rp_cases s)\<rparr>)))"
    using s by (auto intro!: repoOk_putCase simp: caseRowOk_def insertedCase_def split: option.splits)
qed (rule ok)

lemma repoOk_updateCase:
  assumes ok: "repoOk r" and f: "\<And>row. caseRowOk i row \<Longrightarrow> caseRowOk i (f row)"
  shows "repoOk (snd (updateCase i f fs fq r))"
  unfolding updateCase_def
proof (rule dbStatement_inv)
  fix s :: repo assume same: "rp_cases s = rp_cases r" "rp_traces s = rp_traces r"
  then show s: "repoOk s" using ok by (rule repoOk_schema)
  show "repoOk (snd (Inr (), case dictGet (rp_cases s) i of None \<Rightarrow> s
      | Some row \<Rightarrow> s\<lparr>rp_cases := dictPut i (f row) (rp_cases s)\<rparr>))"
  proof (cases "dictGet (rp_cases s) i")
    case (Some row)
    then have "caseRowOk i row" using s by (simp add: repoOk_def)
    then show ?thesis using Some s f by (simp add: repoOk_putCase)
  qed (simp add: s)
qed (rule ok)

subsection \<open>Trace rows\<close>

lemma traverse_Some: "traverse f xs = Some ys \<longleftrightarrow> map f xs = map Some ys"
  by (induction xs arbitrary: ys) (auto simp: Cons_eq_map_conv split: option.splits)

lemma traceRow_shape:
  "traceRow p i t st = Some row \<Longrightarrow>
   tr_case_id row = i \<and> tr_id row = traceId i (tr_agent_action_id row) (tr_step_kind row) (tr_ts row)"
  by (auto simp: traceRow_def split: option.splits)

lemma traces_shape:
  "traverse (traceRow p i t) ss = Some rows \<Longrightarrow> row \<in> set rows \<Longrightarrow>
   tr_case_id row = i \<and> tr_id row = traceId i (tr_agent_action_id row) (tr_step_kind row) (tr_ts row)"
  unfolding traverse_Some by (metis (no_types, lifting) imageE image_eqI list.set_map traceRow_shape)

text \<open>Rows whose id is the one their columns spell never trip the UNIQUE constraint.\<close>

definition spelled :: "trace_row \<Rightarrow> bool" where
  "spelled row \<longleftrightarrow>
     tr_id row = traceId (tr_case_id row) (tr_agent_action_id row) (tr_step_kind row) (tr_ts row)"

definition keyed :: "trace_row dict \<Rightarrow> bool" where
  "keyed tab \<longleftrightarrow> wf_dict tab \<and> (\<forall>k row. dictGet tab k = Some row \<longrightarrow> tr_id row = k \<and> spelled row)"

lemma keyed_no_violation:
  assumes tab: "keyed tab" and row: "spelled row" and free: "dictGet tab (tr_id row) = None"
  shows "\<not> list_ex (\<lambda>(_, old). sameSlot old row) tab"
proof
  assume "list_ex (\<lambda>(_, old). sameSlot old row) tab"
  then obtain k old where mem: "(k, old) \<in> set tab" and same: "sameSlot old row"
    by (auto simp: list_ex_iff)
  from tab mem have "dictGet tab k = Some old" by (simp add: keyed_def dictGet_in_set)
  with tab have "tr_id old = k" "spelled old" by (auto simp: keyed_def)
  with same row have "tr_id row = k" by (simp add: spelled_def sameSlot_def)
  with free \<open>dictGet tab k = Some old\<close> show False by simp
qed

lemma keyed_put: "keyed tab \<Longrightarrow> spelled row \<Longrightarrow> keyed (dictPut (tr_id row) row tab)"
  by (auto simp: keyed_def js_dict.wf_put dictGet_put split: if_splits)

lemma insertTraces_keyed:
  assumes "keyed tab" and "list_all spelled rows"
  shows "\<exists>tab'. insertTraces rows tab = Inr tab' \<and> keyed tab' \<and>
    (\<forall>k. dictGet tab' k = (case dictGet tab k of
       Some old \<Rightarrow> Some old | None \<Rightarrow> find (\<lambda>row. tr_id row = k) rows))"
  using assms
proof (induction rows arbitrary: tab)
  case Nil
  then show ?case by (auto split: option.splits)
next
  case (Cons row rows)
  show ?case
  proof (cases "dictGet tab (tr_id row)")
    case (Some old)
    then have "insertTraces (row # rows) tab = insertTraces rows tab" by simp
    then show ?thesis using Cons.IH [of tab] Cons.prems Some by (fastforce split: option.splits)
  next
    case None
    let ?tab = "dictPut (tr_id row) row tab"
    have "insertTraces (row # rows) tab = insertTraces rows ?tab"
      using None keyed_no_violation [of tab row] Cons.prems by simp
    moreover obtain tab' where "insertTraces rows ?tab = Inr tab'" "keyed tab'"
      and g: "\<forall>k. dictGet tab' k = (case dictGet ?tab k of
        Some old \<Rightarrow> Some old | None \<Rightarrow> find (\<lambda>row. tr_id row = k) rows)"
      using Cons.IH [of ?tab] Cons.prems keyed_put by auto
    moreover have "dictGet tab' k = (case dictGet tab k of
        Some old \<Rightarrow> Some old | None \<Rightarrow> find (\<lambda>row. tr_id row = k) (row # rows))" for k
      using g None by (auto simp: dictGet_put split: option.splits)
    ultimately show ?thesis by auto
  qed
qed

lemma keyed_repo: "repoOk r \<Longrightarrow> keyed (rp_traces r)"
  by (auto simp: repoOk_def keyed_def spelled_def traceRowOk_def)

lemma repoOk_setTraces:
  assumes ok: "repoOk r" and tab: "keyed tab"
    and old: "\<And>k row. dictGet (rp_traces r) k = Some row \<Longrightarrow> dictGet tab k = Some row"
    and fk: "\<And>k row. dictGet tab k = Some row \<Longrightarrow> dictGet (rp_traces r) k = None \<Longrightarrow>
      dictGet (rp_cases r) (tr_case_id row) \<noteq> None"
  shows "repoOk (r\<lparr>rp_traces := tab\<rparr>)"
proof -
  have "traceRowOk (rp_cases r) k row" if "dictGet tab k = Some row" for k row
  proof (cases "dictGet (rp_traces r) k")
    case None
    then show ?thesis using tab that fk by (auto simp: keyed_def spelled_def traceRowOk_def)
  next
    case (Some row')
    then show ?thesis using ok old that by (auto simp: repoOk_def)
  qed
  then show ?thesis using ok tab by (auto simp: repoOk_def keyed_def)
qed

text \<open>The statement once the schema is ready, the times are valid and the database answers.\<close>

lemma appendTraceSteps_insert:
  assumes ok: "repoOk r" and ne: "steps \<noteq> []" and sch: "ensureCaseSchema fs r = (Inr (), s)"
    and rows: "traverse (traceRow p i t) steps = Some rows"
  obtains tab where "keyed tab"
    and "\<And>k. dictGet tab k = (case dictGet (rp_traces r) k of
      Some old \<Rightarrow> Some old | None \<Rightarrow> find (\<lambda>row. tr_id row = k) rows)"
    and "appendTraceSteps p i steps t fs None r =
      (if list_ex (\<lambda>(k, row). dictGet (rp_traces s) k = None \<and> dictGet (rp_cases s) (tr_case_id row) = None) tab
       then (Inl ''insert violates foreign key constraint'', s) else (Inr (), s\<lparr>rp_traces := tab\<rparr>))"
proof -
  have same: "rp_traces s = rp_traces r"
    using ensureCaseSchema_tables [of fs r] sch by simp
  have "list_all spelled rows"
    using traces_shape [OF rows] by (simp add: list_all_iff spelled_def)
  then obtain tab where tab: "insertTraces rows (rp_traces s) = Inr tab" "keyed tab"
    and g: "\<forall>k. dictGet tab k = (case dictGet (rp_traces s) k of
      Some old \<Rightarrow> Some old | None \<Rightarrow> find (\<lambda>row. tr_id row = k) rows)"
    using insertTraces_keyed [of "rp_traces s" rows] keyed_repo [OF ok] same by auto
  show thesis
    by (rule that [of tab]) (use tab g same sch rows ne in \<open>simp_all add: appendTraceSteps_def\<close>)
qed

lemma repoOk_append: 
  assumes ok: "repoOk r"
  shows "repoOk (snd (appendTraceSteps p i steps t fs fq r))"
proof -
  obtain o' s where e: "ensureCaseSchema fs r = (o', s)" by fastforce
  have s: "repoOk s" using ok ensureCaseSchema_tables [of fs r] e by (simp add: repoOk_def)
  consider (early) "snd (appendTraceSteps p i steps t fs fq r) \<in> {r, s}"
    | (insert) rows where "steps \<noteq> []" "o' = Inr ()" "traverse (traceRow p i t) steps = Some rows" "fq = None"
    using e by (cases "steps = []"; cases o'; cases "traverse (traceRow p i t) steps"; cases fq)
      (auto simp: appendTraceSteps_def)
  then show ?thesis
  proof cases
    case early
    then show ?thesis using ok s by auto
  next
    case (insert rows)
    from e insert have sch: "ensureCaseSchema fs r = (Inr (), s)" by simp
    have same: "rp_traces s = rp_traces r" using ensureCaseSchema_tables [of fs r] sch by simp
    obtain tab where tab: "keyed tab"
      and g: "\<And>k. dictGet tab k = (case dictGet (rp_traces r) k of
        Some old \<Rightarrow> Some old | None \<Rightarrow> find (\<lambda>row. tr_id row = k) rows)"
      and run: "appendTraceSteps p i steps t fs None r =
        (if list_ex (\<lambda>(k, row). dictGet (rp_traces s) k = None \<and> dictGet (rp_cases s) (tr_case_id row) = None) tab
         then (Inl ''insert violates foreign key constraint'', s) else (Inr (), s\<lparr>rp_traces := tab\<rparr>))"
      by (rule appendTraceSteps_insert [OF ok insert(1) sch insert(3)]) (rule that)
    let ?orphan = "\<lambda>(k, row). dictGet (rp_traces s) k = None \<and> dictGet (rp_cases s) (tr_case_id row) = None"
    have "repoOk (s\<lparr>rp_traces := tab\<rparr>)" if fk: "\<not> list_ex ?orphan tab"
    proof (rule repoOk_setTraces [OF s tab])
      fix k row
      show "dictGet tab k = Some row" if "dictGet (rp_traces s) k = Some row"
        using that g [of k] same by simp
      show "dictGet (rp_cases s) (tr_case_id row) \<noteq> None"
        if "dictGet tab k = Some row" and "dictGet (rp_traces s) k = None"
        using fk dictGet_mem [OF that(1)] that(2) by (force simp: list_ex_iff)
    qed
    then show ?thesis using insert(4) run s by (simp split: if_splits)
  qed
qed

lemma repoStep_ok: "repoOk r \<Longrightarrow> repoOk (repoStep p op r)"
  by (cases op)
    (auto simp: repoOk_upsert repoOk_append markTriageRunning_def markTriageComplete_def
      markTriageFailed_def caseRowOk_def intro!: repoOk_updateCase)

interpretation repo_machine: preserved "repoStep p" "\<lambda>_. True" repoOk
  by unfold_locales (rule repoStep_ok)

lemma repoOk_empty: "repoOk emptyRepo"
  by (simp add: repoOk_def emptyRepo_def wf_dict_def dictKeys_def dictGet_def)

section \<open>What the routes rely on\<close>

text \<open>The contract of the case table towards the triage route: what a look-up finds after each
  statement that succeeded, and that a failed statement changes no row.\<close>

locale case_table =
  fixes look :: "'r \<Rightarrow> string \<Rightarrow> case_row option"
    and snap :: "string \<Rightarrow> jsval \<Rightarrow> jsval \<Rightarrow> jsval \<Rightarrow> int \<Rightarrow> 'f \<Rightarrow> 'r \<Rightarrow> (string + unit) \<times> 'r"
    and running :: "string \<Rightarrow> int \<Rightarrow> 'f \<Rightarrow> 'r \<Rightarrow> (string + unit) \<times> 'r"
    and complete :: "string \<Rightarrow> jsval \<Rightarrow> int \<Rightarrow> 'f \<Rightarrow> 'r \<Rightarrow> (string + unit) \<times> 'r"
    and failed :: "string \<Rightarrow> string \<Rightarrow> int \<Rightarrow> 'f \<Rightarrow> 'r \<Rightarrow> (string + unit) \<times> 'r"
  assumes snap_found: "snap i ev b d t f r = (Inr (), r') \<Longrightarrow>
      \<exists>row. look r' = (look r)(i \<mapsto> row) \<and> cr_event row = ev \<and> cr_baseline row = nullish b Null \<and>
        cr_detection row = nullish d Null"
    and running_found: "running i t f r = (Inr (), r') \<Longrightarrow> look r' = (look r)(i := map_option
      (\<lambda>row. row\<lparr>cr_triage_status := TRunning, cr_triage_started_at := Some t, cr_error := None,
         cr_updated_at := t\<rparr>) (look r i))"
    and complete_found: "complete i v t f r = (Inr (), r') \<Longrightarrow> look r' = (look r)(i := map_option
      (\<lambda>row. row\<lparr>cr_triage_status := TComplete, cr_triage_completed_at := Some t,
         cr_verdict := nullish v Null, cr_error := None, cr_updated_at := t\<rparr>) (look r i))"
    and failed_found: "failed i e t f r = (Inr (), r') \<Longrightarrow> look r' = (look r)(i := map_option
      (\<lambda>row. row\<lparr>cr_triage_status := TFailed, cr_error := Some e, cr_updated_at := t\<rparr>) (look r i))"
begin

text \<open>The three statements of a triage that goes through leave a complete row with the verdict and the
  snapshot, and touch no other case.\<close>

lemma completed_row:
  assumes "snap i ev b d t f r = (Inr (), r1)" and "running i t' f' r1 = (Inr (), r2)"
    and "complete i v t'' f'' r2 = (Inr (), r3)"
  shows "\<exists>row. look r3 = (look r)(i \<mapsto> row) \<and> cr_triage_status row = TComplete \<and>
    cr_verdict row = nullish v Null \<and> cr_error row = None \<and> cr_event row = ev \<and>
    cr_baseline row = nullish b Null \<and> cr_detection row = nullish d Null"
proof -
  from snap_found [OF assms(1)] obtain row where row: "look r1 = (look r)(i \<mapsto> row)" "cr_event row = ev"
    "cr_baseline row = nullish b Null" "cr_detection row = nullish d Null" by blast
  show ?thesis
    using complete_found [OF assms(3)] running_found [OF assms(2)] row
    by (intro exI [of _ "the (look r3 i)"]) simp
qed

lemma failed_row:
  assumes "snap i ev b d t f r = (Inr (), r1)" and "running i t' f' r1 = (Inr (), r2)"
    and "failed i e t'' f'' r2 = (Inr (), r3)"
  shows "\<exists>row. look r3 = (look r)(i \<mapsto> row) \<and> cr_triage_status row = TFailed \<and> cr_error row = Some e"
proof -
  from snap_found [OF assms(1)] obtain row where "look r1 = (look r)(i \<mapsto> row)" by blast
  then show ?thesis
    using failed_found [OF assms(3)] running_found [OF assms(2)]
    by (intro exI [of _ "the (look r3 i)"]) simp
qed

end

lemma dbStatement_Inr:
  "dbStatement fs fq body r = (Inr x, r') \<longleftrightarrow>
     (\<exists>s. ensureCaseSchema fs r = (Inr (), s) \<and> fq = None \<and> body s = (Inr x, r'))"
  by (auto simp: dbStatement_def split: prod.splits sum.splits option.splits)

lemma schema_cases: "ensureCaseSchema fs r = (x, s) \<Longrightarrow> rp_cases s = rp_cases r \<and> rp_traces s = rp_traces r"
  using ensureCaseSchema_tables [of fs r] by simp

lemma updateCase_found:
  assumes "updateCase i f fs fq r = (Inr (), r')"
  shows "dictGet (rp_cases r') = (dictGet (rp_cases r))(i := map_option f (dictGet (rp_cases r) i))"
proof -
  from assms obtain s where s: "ensureCaseSchema fs r = (Inr (), s)"
    and r': "r' = (case dictGet (rp_cases s) i of None \<Rightarrow> s
      | Some row \<Rightarrow> s\<lparr>rp_cases := dictPut i (f row) (rp_cases s)\<rparr>)"
    by (auto simp: updateCase_def dbStatement_Inr)
  show ?thesis
    unfolding r' using schema_cases [OF s] by (auto simp: dictGet_put fun_eq_iff split: option.splits)
qed

lemma upsertCaseSnapshot_found:
  assumes "upsertCaseSnapshot i tn ev b d t fs fq r = (Inr (), r')"
  shows "dictGet (rp_cases r') = (dictGet (rp_cases r))(i \<mapsto>
    (case dictGet (rp_cases r) i of
       None \<Rightarrow> insertedCase i tn ev b d t t
     | Some row \<Rightarrow> row\<lparr>cr_event := ev, cr_baseline := nullish b Null,
         cr_detection := nullish d Null, cr_updated_at := t\<rparr>))"
proof -
  from assms obtain s where s: "ensureCaseSchema fs r = (Inr (), s)"
    and r': "r' = s\<lparr>rp_cases := dictPut i (case dictGet (rp_cases s) i of
       None \<Rightarrow> insertedCase i tn ev b d t t
     | Some row \<Rightarrow> row\<lparr>cr_event := ev, cr_baseline := nullish b Null,
         cr_detection := nullish d Null, cr_updated_at := t\<rparr>) (rp_cases s)\<rparr>"
    by (auto simp: upsertCaseSnapshot_def dbStatement_Inr split: if_splits)
  show ?thesis
    unfolding r' using schema_cases [OF s] by (auto simp: dictGet_put fun_eq_iff)
qed

interpretation case_db: case_table "\<lambda>r. dictGet (rp_cases r)"
  "\<lambda>i ev b d t (fs, fq). upsertCaseSnapshot i None ev b d t fs fq"
  "\<lambda>i t (fs, fq). markTriageRunning i t fs fq"
  "\<lambda>i v t (fs, fq). markTriageComplete i v t fs fq"
  "\<lambda>i e t (fs, fq). markTriageFailed i e t fs fq"
proof unfold_locales
  fix i ev b d t and f :: "fault \<times> fault" and r r' :: repo
  obtain fs fq where f: "f = (fs, fq)" by fastforce
  assume "(case f of (fs, fq) \<Rightarrow> upsertCaseSnapshot i None ev b d t fs fq) r = (Inr (), r')"
  then show "\<exists>row. dictGet (rp_cases r') = (dictGet (rp_cases r))(i \<mapsto> row) \<and> cr_event row = ev \<and>
      cr_baseline row = nullish b Null \<and> cr_detection row = nullish d Null"
    unfolding f by (auto dest!: upsertCaseSnapshot_found simp: insertedCase_def split: option.splits)
qed (auto simp: markTriageRunning_def markTriageComplete_def markTriageFailed_def split: prod.splits
    dest!: updateCase_found)

section \<open>Properties\<close>

lemma insertTraces_present:
  "list_all (\<lambda>row. dictGet tab (tr_id row) \<noteq> None) rows \<Longrightarrow> insertTraces rows tab = Inr tab"
  by (induction rows) auto

lemma traceRow_clock:
  "traverse (traceRow p i t) steps = Some rows \<Longrightarrow>
   traverse (traceRow p i t') steps = Some (map (\<lambda>row. row\<lparr>tr_created_at := t'\<rparr>) rows)"
proof (induction steps arbitrary: rows)
  case (Cons st steps)
  have "traceRow p i t st = Some row \<Longrightarrow> traceRow p i t' st = Some (row\<lparr>tr_created_at := t'\<rparr>)" for row
    by (auto simp: traceRow_def split: option.splits)
  then show ?case using Cons by (auto split: option.splits)
qed simp

lemma find_key: "find (\<lambda>row. f row = k) rows = None \<longleftrightarrow> k \<notin> f ` set rows"
  by (auto simp: find_None_iff)

lemma append_retry:
  assumes ok: "repoOk r" and ready: "rp_schema r = SchemaReady" and stored: "dictGet (rp_cases r) i \<noteq> None"
    and rows: "traverse (traceRow p i t) steps = Some rows"
  shows "\<exists>r'. appendTraceSteps p i steps t fs None r = (Inr (), r') \<and>
    dictKeys (rp_cases r') = dictKeys (rp_cases r) \<and>
    (\<forall>k. dictGet (rp_traces r') k = (case dictGet (rp_traces r) k of
       Some old \<Rightarrow> Some old | None \<Rightarrow> find (\<lambda>row. tr_id row = k) rows)) \<and>
    appendTraceSteps p i steps t' fs' None r' = (Inr (), r')"
proof (cases "steps = []")
  case True
  then show ?thesis using rows by (auto simp: appendTraceSteps_def split: option.splits)
next
  case False
  have sch: "ensureCaseSchema fs r = (Inr (), r)" using ready by (simp add: ensureCaseSchema_def)
  obtain tab where tab: "keyed tab"
    and g: "\<And>k. dictGet tab k = (case dictGet (rp_traces r) k of
      Some old \<Rightarrow> Some old | None \<Rightarrow> find (\<lambda>row. tr_id row = k) rows)"
    and run: "appendTraceSteps p i steps t fs None r =
      (if list_ex (\<lambda>(k, row). dictGet (rp_traces r) k = None \<and> dictGet (rp_cases r) (tr_case_id row) = None) tab
       then (Inl ''insert violates foreign key constraint'', r) else (Inr (), r\<lparr>rp_traces := tab\<rparr>))"
    by (rule appendTraceSteps_insert [OF ok False sch rows]) (rule that)
  have "tr_case_id row = i" if "(k, row) \<in> set tab" "dictGet (rp_traces r) k = None" for k row
  proof -
    have "find (\<lambda>row. tr_id row = k) rows = Some row"
      using that tab g [of k] by (simp add: keyed_def dictGet_in_set [symmetric])
    then have "row \<in> set rows" by (auto simp: find_Some_iff)
    then show ?thesis using traces_shape [OF rows] by blast
  qed
  then have first: "appendTraceSteps p i steps t fs None r = (Inr (), r\<lparr>rp_traces := tab\<rparr>)"
    using run stored by (auto simp: list_ex_iff)
  let ?again = "map (\<lambda>row. row\<lparr>tr_created_at := t'\<rparr>) rows"
  have present: "list_all (\<lambda>row. dictGet tab (tr_id row) \<noteq> None) ?again"
    using g by (auto simp: list_all_iff find_key simp del: not_None_eq split: option.splits)
  have "\<not> list_ex (\<lambda>(k, row). dictGet tab k = None \<and> Q row) tab" for Q
    using tab by (auto simp: list_ex_iff keyed_def dictGet_in_set [symmetric])
  then have "appendTraceSteps p i steps t' fs' None (r\<lparr>rp_traces := tab\<rparr>) = (Inr (), r\<lparr>rp_traces := tab\<rparr>)"
    using False ready traceRow_clock [OF rows, of t'] insertTraces_present [OF present]
    by (simp add: appendTraceSteps_def ensureCaseSchema_def case_prod_unfold)
  then show ?thesis using first g by simp
qed

text \<open>C9: the tables stay consistent over any sequence of statements, whichever of them fail: primary keys
  are unique, every trace step belongs to a stored case and is filed under the id its columns spell,
  and the triage status agrees with the start time, completion time and error stored beside it.\<close>

theorem repository_invariant: "repoOk (fold (repoStep parseDate) ops emptyRepo)"
  by (rule repo_machine.run_inv) (simp_all add: repoOk_empty list_all_iff)


definition sampleRepo :: repo where
  "sampleRepo = \<lparr>rp_schema = SchemaReady, rp_cases = [(''c'', insertedCase ''c'' None (Obj []) Null Null 0 0)],
     rp_traces = []\<rparr>"

definition sampleInput :: trace_input where
  "sampleInput = \<lparr>ti_agent_action_id = ''a1'', ti_agent_id = ''triager'', ti_execution_path = ''llm'',
     ti_step_kind = ''tool_call'', ti_summary = ''s'', ti_ts = TsNum (Fin 1700000000)\<rparr>"

lemma sampleRepo_ok: "repoOk sampleRepo"
  by (auto simp: repoOk_def sampleRepo_def wf_dict_def dictKeys_def dictGet_def caseRowOk_def insertedCase_def
      notNull_def split: if_splits)


text \<open>Two trace steps of a case are filed under the same id only if they have the same action, kind and
  time, provided action ids and kinds contain no colon: no step is dropped as a duplicate of another.\<close>

theorem traceId_separates:
  assumes "CHR '':'' \<notin> set a" "CHR '':'' \<notin> set a'" "CHR '':'' \<notin> set k" "CHR '':'' \<notin> set k'"
  shows "traceId c a k t = traceId c a' k' t' \<longleftrightarrow> a = a' \<and> k = k' \<and> t = t'"
  using assms by (simp add: traceId_def sep_inject)

theorem traceId_separates_witness:
  "traceId ''c'' ''act-1'' ''tool_call'' 1000 \<noteq> traceId ''c'' ''act-1'' ''tool_call'' 1001"
  using traceId_separates [of "''act-1''" "''act-1''" "''tool_call''" "''tool_call''" "''c''" 1000 1001] by simp

text \<open>A first statement that finds the database down disables the repository for the life of the
  process: the rejected schema promise is kept, so every later look-up fails with the same error although
  the database answers again, and nothing is ever stored.\<close>

theorem schema_failure_sticks:
  "fst (getCase i None None (fold (repoStep p) ops (snd (getCase j (Some m) fq emptyRepo)))) = Inl m \<and>
   rp_cases (fold (repoStep p) ops (snd (getCase j (Some m) fq emptyRepo))) = []"
proof -
  let ?r = "snd (getCase j (Some m) fq emptyRepo)"
  have r: "rp_schema ?r = SchemaFailed m" "rp_cases ?r = []"
    by (simp_all add: getCase_def dbStatement_def ensureCaseSchema_def emptyRepo_def)
  have "repoStep p op r = r" if "rp_schema r = SchemaFailed m" for op r
    using that by (cases op) (simp_all add: upsertCaseSnapshot_def markTriageRunning_def markTriageComplete_def
        markTriageFailed_def updateCase_def appendTraceSteps_def dbStatement_def ensureCaseSchema_def)
  with r(1) have "fold (repoStep p) ops ?r = ?r" by (induction ops) simp_all
  then show ?thesis
    using r by (simp add: getCase_def [of i] dbStatement_def ensureCaseSchema_def)
qed

end
