(* ===== verification/Enrich_Alert.thy ===== *)
theory Enrich_Alert
  imports Case_Repository Alert_Mappers
begin

text \<open>
  \<open>lib/server/enrich-alert.ts\<close>: the queue page lays the persisted case over each bare alert, with one
  batched look-up. The persisted object is the row of \<open>workbench_cases\<close>; its \<open>event\<close> and \<open>verdict\<close> are
  JSON values read field by field.
\<close>

section \<open>Model\<close>

definition numberField :: "jsval \<Rightarrow> rat \<Rightarrow> rat" where
  "numberField v fallback = (case numFinite v of Some x \<Rightarrow> x | None \<Rightarrow> fallback)"

definition normalizeExecutionPath :: "jsval \<Rightarrow> execution_path \<Rightarrow> execution_path" where
  "normalizeExecutionPath v fallback =
     (if v = Str ''classifier'' then Classifier
      else if v = Str ''llm'' then Llm
      else if v = Str ''hybrid'' then Hybrid
      else fallback)"

definition normalizeVerdict :: "string \<Rightarrow> alert_verdict" where
  "normalizeVerdict v =
     (if v = ''false_positive'' \<or> v = ''benign'' then Benign
      else if v = ''true_positive'' \<or> v = ''malicious'' then Malicious
      else if v = ''needs_investigation'' \<or> v = ''suspicious'' then Suspicious
      else Investigating)"

definition formatQueueTitle :: "string \<Rightarrow> jsval \<Rightarrow> string" where
  "formatQueueTitle fallback event =
     (if \<not> truthy (jsField ''api_operation'' event) then fallback
      else spaceCamel (jsString (jsField ''api_operation'' event)))"

definition buildQueueSummary :: "alert \<Rightarrow> jsval \<Rightarrow> jsval \<Rightarrow> string" where
  "buildQueueSummary alert event verdict =
     (let sv = jsField ''api_service'' event; rg = jsField ''cloud_region'' event;
          nov = jsField ''novelty_score'' verdict; lat = jsField ''latency_ms'' verdict;
          parts = (if truthy sv then [''service '' @ jsString sv] else [])
            @ (if truthy rg then [''region '' @ jsString rg] else [])
            @ (if nov \<noteq> Undef then [''novelty '' @ numToFixed 3 (jsNumber nov)] else [])
            @ (if lat \<noteq> Undef then [jsString lat @ ''ms triage''] else [])
      in if parts \<noteq> [] then joinWith ('' '' @ middle_dot @ '' '') parts else al_summary alert)"

definition preferField :: "string \<Rightarrow> jsval \<Rightarrow> string \<Rightarrow> string" where
  "preferField k event fallback =
     (if truthy (jsField k event) then jsString (jsField k event) else fallback)"

definition citationCount :: "jsval \<Rightarrow> nat" where
  "citationCount verdict =
     (case jsField ''evidence_citations'' (jsField ''investigation'' verdict) of
        Arr vs \<Rightarrow> length vs | _ \<Rightarrow> 0)"

definition mergePersistedCase :: "alert \<Rightarrow> case_row \<Rightarrow> alert" where
  "mergePersistedCase alert persisted =
     (let verdict = nullish (cr_verdict persisted) Null;
          event = nullish (cr_event persisted) Null;
          status = cr_triage_status persisted;
          rawVerdict = jsString (nullish (jsField ''verdict'' verdict) (Str (verdictStr (al_verdict alert))));
          confidence = numberField (jsField ''calibrated_confidence'' verdict) (al_confidence alert);
          executionPath = normalizeExecutionPath (jsField ''execution_path'' verdict) (al_executionPath alert)
      in alert\<lparr>al_title := formatQueueTitle (al_title alert) event,
           al_source := preferField ''api_service'' event (al_source alert),
           al_entity := preferField ''actor_user_name'' event (al_entity alert),
           al_region := preferField ''cloud_region'' event (al_region alert),
           al_verdict := normalizeVerdict rawVerdict,
           al_confidence := confidence,
           al_executionPath := executionPath,
           al_state := (if status = TRunning then InFlight else al_state alert),
           al_summary := buildQueueSummary alert event verdict,
           al_agentStatus := \<lparr>ag_agent = (if executionPath = Llm then Investigator else Triager),
             ag_status = (if status = TComplete then AgComplete
               else if status = TRunning then AgRunning else AgIdle),
             ag_step = (if status = TComplete then replaceChar CHR ''_'' '' '' rawVerdict @ '' verdict''
               else if status = TRunning then ''Running triage'' else ''Awaiting triage''),
             ag_toolsUsed = citationCount verdict\<rparr>\<rparr>)"

definition overlay :: "alert \<Rightarrow> case_row option \<Rightarrow> alert" where
  "overlay alert persisted =
     (case persisted of
        Some row \<Rightarrow> if truthy (cr_event row) then mergePersistedCase alert row else alert
      | None \<Rightarrow> alert)"

definition enrichAlertsWithPersisted :: "alert list \<Rightarrow> fault \<Rightarrow> fault \<Rightarrow> repo \<Rightarrow> alert list \<times> repo" where
  "enrichAlertsWithPersisted alerts fs fq r =
     (if alerts = [] then (alerts, r)
      else case getCases (map al_caseId alerts) fs fq r of
        (res, r') \<Rightarrow>
          let persistedMap = (case res of Inl _ \<Rightarrow> [] | Inr m \<Rightarrow> m)
          in (map (\<lambda>alert. overlay alert (dictGet persistedMap (al_caseId alert))) alerts, r'))"

section \<open>Facts\<close>

lemma fold_dictPut_rows:
  assumes "distinct (map fst xs)" and "\<forall>(k, row) \<in> set xs. cr_case_id row = k"
  shows "dictGet (fold (\<lambda>(k, row). dictPut (cr_case_id row) row) xs m) j =
    (case map_of xs j of Some row \<Rightarrow> Some row | None \<Rightarrow> dictGet m j)"
  using assms
proof (induction xs arbitrary: m)
  case (Cons x xs)
  obtain k row where x: "x = (k, row)" by fastforce
  have "map_of xs k = None" using Cons.prems x by (simp add: map_of_eq_None_iff)
  then show ?case using Cons x by (auto simp: dictGet_put split: option.splits)
qed simp

lemma map_of_filter_key: "map_of (filter (\<lambda>(k, _). k \<in> S) xs) k = (if k \<in> S then map_of xs k else None)"
  by (induction xs) auto

lemma getCases_lookup:
  assumes ok: "repoOk r" and ne: "ids \<noteq> []" and res: "getCases ids fs fq r = (Inr m, r')"
  shows "dictGet m k = (if k \<in> set ids then dictGet (rp_cases r) k else None)"
proof -
  from res ne obtain s where s: "ensureCaseSchema fs r = (Inr (), s)"
    and m: "m = fold (\<lambda>(k, row). dictPut (cr_case_id row) row)
      (filter (\<lambda>(k, _). k \<in> set ids) (rp_cases r)) []"
    using schema_cases by (fastforce simp: getCases_def dbStatement_Inr)
  let ?xs = "filter (\<lambda>(k, _). k \<in> set ids) (rp_cases r)"
  have d: "distinct (map fst ?xs)"
    using ok by (auto simp: repoOk_def wf_dict_def dictKeys_def distinct_map inj_on_def)
  have "cr_case_id row = k" if "(k, row) \<in> set (rp_cases r)" for k row
    using ok that by (auto simp: repoOk_def dictGet_in_set [symmetric] caseRowOk_def)
  then have "dictGet m k = map_of ?xs k"
    unfolding m using fold_dictPut_rows [OF d, of "[]" k] by (auto simp: dictGet_def split: option.splits)
  also have "\<dots> = (if k \<in> set ids then dictGet (rp_cases r) k else None)"
    by (simp add: dictGet_def map_of_filter_key)
  finally show ?thesis .
qed

lemma mergePersistedCase_keeps:
  "al_id (mergePersistedCase a row) = al_id a" "al_caseId (mergePersistedCase a row) = al_caseId a"
  "al_severity (mergePersistedCase a row) = al_severity a"
  "al_technique (mergePersistedCase a row) = al_technique a"
  "al_updatedAt (mergePersistedCase a row) = al_updatedAt a"
  by (simp_all add: mergePersistedCase_def Let_def)

lemma overlay_keeps: "al_id (overlay a p) = al_id a" "al_caseId (overlay a p) = al_caseId a"
  "al_severity (overlay a p) = al_severity a"
  by (auto simp: overlay_def mergePersistedCase_keeps split: option.splits)

lemma enrich_rows:
  assumes ok: "repoOk r" and ready: "rp_schema r = SchemaReady"
  shows "enrichAlertsWithPersisted alerts fs None r = (map (\<lambda>a. overlay a (dictGet (rp_cases r) (al_caseId a))) alerts, r)"
proof (cases "alerts = []")
  case True
  then show ?thesis by (simp add: enrichAlertsWithPersisted_def)
next
  case False
  let ?ids = "map al_caseId alerts"
  obtain m where m: "getCases ?ids fs None r = (Inr m, r)"
    using False ready by (simp add: getCases_def dbStatement_def ensureCaseSchema_def)
  have "dictGet m (al_caseId a) = dictGet (rp_cases r) (al_caseId a)" if "a \<in> set alerts" for a
    using getCases_lookup [OF ok _ m] False that by simp
  then show ?thesis using False m by (simp add: enrichAlertsWithPersisted_def)
qed

section \<open>Properties\<close>

text \<open>C20: the batched enrichment equals looking every alert's case up on its own: with a database that
  answers, alert \<open>a\<close> is overlaid with exactly the row stored for its case.\<close>

theorem enrich_batched:
  assumes ok: "repoOk r" and ready: "rp_schema r = SchemaReady"
  shows "enrichAlertsWithPersisted alerts fs None r =
    (map (\<lambda>a. overlay a (case fst (getCase (al_caseId a) fs None r) of Inl _ \<Rightarrow> None | Inr row \<Rightarrow> row)) alerts, r)"
  using ready by (simp add: enrich_rows [OF ok ready] getCase_def dbStatement_def ensureCaseSchema_def)

definition sampleAlert :: alert where
  "sampleAlert = firedDetectionToAlert \<lparr>fd_detection_id = ''aws_root_account_use'', fd_event_id = ''c'',
     fd_actor_user_name = ''root'', fd_cloud_region = ''eu'', fd_severity = ''high'', fd_fired_at = ''t''\<rparr>"

theorem enrich_batched_witness:
  "fst (enrichAlertsWithPersisted [sampleAlert] None None sampleRepo) =
     [mergePersistedCase sampleAlert (insertedCase ''c'' None (Obj []) Null Null 0 0)]"
proof -
  have "rp_schema sampleRepo = SchemaReady" by (simp add: sampleRepo_def)
  from enrich_batched [OF sampleRepo_ok this, of "[sampleAlert]" None] show ?thesis
    by (simp add: sampleRepo_def sampleAlert_def firedDetectionToAlert_def getCase_def dbStatement_def
        ensureCaseSchema_def dictGet_def overlay_def insertedCase_def)
qed

text \<open>Enrichment never loses or reorders alerts and never changes what identifies and ranks them, and
  when the database is down the queue shows the bare alerts.\<close>

theorem enrich_preserves_queue:
  "map al_id (fst (enrichAlertsWithPersisted alerts fs fq r)) = map al_id alerts \<and>
   map al_caseId (fst (enrichAlertsWithPersisted alerts fs fq r)) = map al_caseId alerts \<and>
   map al_severity (fst (enrichAlertsWithPersisted alerts fs fq r)) = map al_severity alerts \<and>
   fst (enrichAlertsWithPersisted alerts fs (Some m) r) = alerts"
proof -
  have "\<exists>g. fst (enrichAlertsWithPersisted alerts fs fq r) = map (\<lambda>a. overlay a (g a)) alerts"
    by (auto simp: enrichAlertsWithPersisted_def Let_def split: prod.splits)
  then have keep: "map al_id (fst (enrichAlertsWithPersisted alerts fs fq r)) = map al_id alerts"
    "map al_caseId (fst (enrichAlertsWithPersisted alerts fs fq r)) = map al_caseId alerts"
    "map al_severity (fst (enrichAlertsWithPersisted alerts fs fq r)) = map al_severity alerts"
    by (auto simp: overlay_keeps)
  have down: "\<exists>m' r'. getCases ids fs (Some m) r = (Inl m', r')" if "ids \<noteq> []" for ids
    using that by (auto simp: getCases_def dbStatement_def split: prod.splits sum.splits)
  have "fst (enrichAlertsWithPersisted alerts fs (Some m) r) = map (\<lambda>a. overlay a None) alerts"
  proof (cases "alerts = []")
    case False
    then obtain m' r' where "getCases (map al_caseId alerts) fs (Some m) r = (Inl m', r')"
      using down [of "map al_caseId alerts"] by auto
    then show ?thesis using False by (simp add: enrichAlertsWithPersisted_def dictGet_def)
  qed (simp add: enrichAlertsWithPersisted_def)
  then have "fst (enrichAlertsWithPersisted alerts fs (Some m) r) = alerts"
    by (simp add: overlay_def)
  with keep show ?thesis by simp
qed

end
