(* ===== verification/Trace_Route.thy ===== *)
theory Trace_Route
  imports Case_Repository
begin

text \<open>
  \<open>app/api/cases/[caseId]/trace/route.ts\<close>: reading and writing the persisted trace of a case. A handler
  yields a response, or \<open>None\<close> when it throws outside its own \<open>try\<close> (the framework then answers 500).
  The steps of a request body are declared to be strings but not checked: a value that is not a string is
  taken as \<open>String(v)\<close> when it is stored in a text column.
\<close>

section \<open>Model\<close>

record trace_view =
  vw_kind :: string
  vw_agent_action_id :: string
  vw_agent_id :: string
  vw_execution_path :: string
  vw_verdict :: string
  vw_tool_call_count :: nat
  vw_belief_count :: nat

definition rowView :: "trace_row \<Rightarrow> trace_view" where
  "rowView row =
     \<lparr>vw_kind = tr_step_kind row, vw_agent_action_id = tr_agent_action_id row, vw_agent_id = tr_agent_id row,
      vw_execution_path = tr_execution_path row, vw_verdict = tr_summary row,
      vw_tool_call_count = (if tr_step_kind row = ''tool_call'' then 1 else 0),
      vw_belief_count = (if tr_step_kind row = ''intermediate_belief'' then 1 else 0)\<rparr>"

definition verdictView :: "jsval \<Rightarrow> trace_view" where
  "verdictView verdict =
     (let unknown = Str ''unknown'' in
     \<lparr>vw_kind = ''triage_complete'',
      vw_agent_action_id = jsString (nullish (jsField ''action_id'' verdict) unknown),
      vw_agent_id = ''triager-hybrid-v1'',
      vw_execution_path = jsString (nullish (jsField ''execution_path'' verdict) unknown),
      vw_verdict = jsString (nullish (jsField ''verdict'' verdict) unknown)
        @ '' '' @ middle_dot @ '' novelty ''
        @ numToFixed 3 (jsNumber (nullish (jsField ''novelty_score'' verdict) (Num (Fin 0))))
        @ '' '' @ middle_dot @ '' latency ''
        @ jsString (nullish (jsField ''latency_ms'' verdict) unknown) @ ''ms'',
      vw_tool_call_count = 0,
      vw_belief_count = 0\<rparr>)"

datatype trace_get = TraceSteps "trace_view list" | TraceError string

text \<open>The body of a GET: the steps with status 200, or the message with status 500. The faults are those
  of the two statements.\<close>

definition traceGET :: "string \<Rightarrow> fault \<Rightarrow> fault \<Rightarrow> fault \<Rightarrow> repo \<Rightarrow> trace_get \<times> repo" where
  "traceGET caseId fs fq fq' r =
     (case listTraceSteps caseId fs fq r of
        (Inl m, r') \<Rightarrow> (TraceError m, r')
      | (Inr rows, r') \<Rightarrow>
          if rows \<noteq> [] then (TraceSteps (map rowView rows), r')
          else (case getCase caseId fs fq' r' of
             (Inl m, r'') \<Rightarrow> (TraceError m, r'')
           | (Inr None, r'') \<Rightarrow> (TraceSteps [], r'')
           | (Inr (Some row), r'') \<Rightarrow>
               if truthy (cr_verdict row) then (TraceSteps [verdictView (cr_verdict row)], r'')
               else (TraceSteps [], r'')))"

fun tsOf :: "jsval \<Rightarrow> ts_input" where
  "tsOf (Num n) = TsNum n"
| "tsOf (Str s) = TsStr s"
| "tsOf (Bool b) = TsDate (Some (if b then 1 else 0))"
| "tsOf v = TsStr (jsString v)"

definition stepPosted :: "jsval \<Rightarrow> bool" where
  "stepPosted s \<longleftrightarrow> truthy (jsField ''agent_action_id'' s) \<and> truthy (jsField ''step_kind'' s)
     \<and> truthy (jsField ''ts'' s)"

definition stepInput :: "jsval \<Rightarrow> trace_input" where
  "stepInput s =
     \<lparr>ti_agent_action_id = jsString (jsField ''agent_action_id'' s),
      ti_agent_id = jsString (nullish (jsField ''agent_id'' s) (Str ''unknown'')),
      ti_execution_path = jsString (nullish (jsField ''execution_path'' s) (Str ''unknown'')),
      ti_step_kind = jsString (jsField ''step_kind'' s),
      ti_summary = jsString (nullish (jsField ''summary'' s) (Str [])),
      ti_ts = tsOf (jsField ''ts'' s)\<rparr>"

text \<open>\<open>body.steps ?? []\<close>: a body that is not JSON reads as the empty object; null has no fields to read;
  a \<open>steps\<close> that is not an array has no \<open>filter\<close>; a null element has no fields.\<close>

definition postedSteps :: "jsval option \<Rightarrow> trace_input list option" where
  "postedSteps body =
     (case jsFieldE ''steps'' (case body of None \<Rightarrow> Obj [] | Some v \<Rightarrow> v) of
        None \<Rightarrow> None
      | Some st \<Rightarrow>
          (case nullish st (Arr []) of
             Arr vs \<Rightarrow> if list_ex (\<lambda>v. v = Null \<or> v = Undef) vs then None
               else Some (map stepInput (filter stepPosted vs))
           | _ \<Rightarrow> None))"

definition tracePOST ::
  "(string \<Rightarrow> int option) \<Rightarrow> string \<Rightarrow> jsval option \<Rightarrow> int \<Rightarrow> fault \<Rightarrow> fault \<Rightarrow> repo \<Rightarrow> nat option \<times> repo" where
  "tracePOST parseDate caseId body now fs fq r =
     (case postedSteps body of
        None \<Rightarrow> (None, r)
      | Some steps \<Rightarrow>
          (case appendTraceSteps parseDate caseId steps now fs fq r of
             (Inl _, r') \<Rightarrow> (None, r')
           | (Inr _, r') \<Rightarrow> (Some (length steps), r')))"

section \<open>Facts\<close>

lemma listTraceSteps_ready:
  "rp_schema r = SchemaReady \<Longrightarrow> listTraceSteps c fs None r =
   (Inr (sort_key tr_ts (filter (\<lambda>row. tr_case_id row = c) (map snd (rp_traces r)))), r)"
  by (simp add: listTraceSteps_def dbStatement_def ensureCaseSchema_def)

lemma traceGET_nonempty:
  assumes "rp_schema r = SchemaReady" and "\<exists>row \<in> snd ` set (rp_traces r). tr_case_id row = c"
  shows "traceGET c fs None fq' r = (TraceSteps (map rowView
    (sort_key tr_ts (filter (\<lambda>row. tr_case_id row = c) (map snd (rp_traces r))))), r)"
proof -
  have "filter (\<lambda>row. tr_case_id row = c) (map snd (rp_traces r)) \<noteq> []"
    using assms(2) by (auto simp: filter_empty_conv)
  then have "sort_key tr_ts (filter (\<lambda>row. tr_case_id row = c) (map snd (rp_traces r))) \<noteq> []"
    by (metis length_0_conv length_sort)
  then show ?thesis by (simp add: traceGET_def listTraceSteps_ready [OF assms(1)])
qed

section \<open>Properties\<close>

text \<open>What is posted is read back: after a POST of valid steps to a stored case has answered with their
  number, a GET lists for every one of them a step of the same kind and action, and lists the steps of
  that case only, oldest first.\<close>

theorem trace_post_get:
  assumes ok: "repoOk r" and ready: "rp_schema r = SchemaReady" and stored: "dictGet (rp_cases r) c \<noteq> None"
    and posted: "postedSteps body = Some steps"
    and rows: "traverse (traceRow p c t) steps = Some rows" and ne: "steps \<noteq> []"
    and ids: "CHR '':'' \<notin> set c" "\<forall>i \<in> set (dictKeys (rp_cases r)). CHR '':'' \<notin> set i"
  shows "\<exists>r' listed. tracePOST p c body t fs None r = (Some (length steps), r') \<and>
    traceGET c fs' None fq' r' = (TraceSteps (map rowView listed), r') \<and>
    sorted (map tr_ts listed) \<and> list_all (\<lambda>row. tr_case_id row = c) listed \<and>
    (\<forall>row \<in> set rows. \<exists>row' \<in> set listed. tr_id row' = tr_id row)"
proof -
  obtain r' where app: "appendTraceSteps p c steps t fs None r = (Inr (), r')"
    and g: "\<forall>k. dictGet (rp_traces r') k = (case dictGet (rp_traces r) k of
      Some old \<Rightarrow> Some old | None \<Rightarrow> find (\<lambda>row. tr_id row = k) rows)"
    using append_retry [OF ok ready stored rows, of fs t fs] by blast
  have ok': "repoOk r'" using repoOk_append [OF ok, of p c steps t fs None] app by simp
  have ready': "rp_schema r' = SchemaReady"
    using app ne ready by (auto simp: appendTraceSteps_def ensureCaseSchema_def split: option.splits sum.splits if_splits)
  let ?listed = "sort_key tr_ts (filter (\<lambda>row. tr_case_id row = c) (map snd (rp_traces r')))"
  have there: "\<exists>row' \<in> set ?listed. tr_id row' = tr_id row" if "row \<in> set rows" for row
  proof -
    have "find (\<lambda>x. tr_id x = tr_id row) rows \<noteq> None" using that by (auto simp: find_None_iff)
    then obtain row' where row': "dictGet (rp_traces r') (tr_id row) = Some row'"
      using g by (cases "dictGet (rp_traces r) (tr_id row)") auto
    then have "traceRowOk (rp_cases r') (tr_id row) row'" using ok' by (simp add: repoOk_def)
    then have "tr_id row' = tr_id row" and "tr_case_id row' = c \<longrightarrow> row' \<in> set ?listed"
      using dictGet_mem [OF row'] by (force simp: traceRowOk_def)+
    moreover have "tr_case_id row' = c"
    proof (cases "dictGet (rp_traces r) (tr_id row)")
      case None
      then have "row' \<in> set rows" using g row' by (auto simp: find_Some_iff)
      then show ?thesis using traces_shape [OF rows] by blast
    next
      case (Some old)
      then have "traceRowOk (rp_cases r) (tr_id row) row'" using g row' ok by (simp add: repoOk_def)
      then have "tr_id row = traceId (tr_case_id row') (tr_agent_action_id row') (tr_step_kind row') (tr_ts row')"
        and "CHR '':'' \<notin> set (tr_case_id row')"
        using ids(2) by (auto simp: traceRowOk_def dictKeys_get)
      then show ?thesis
        using traces_shape [OF rows that] ids(1) by (simp add: traceId_def sep_inject)
    qed
    ultimately show ?thesis by blast
  qed
  have "rows \<noteq> []" using rows ne by (cases steps) (auto split: option.splits)
  then obtain row where "row \<in> set rows" by (cases rows) auto
  with there have "\<exists>row \<in> snd ` set (rp_traces r'). tr_case_id row = c" by fastforce
  from traceGET_nonempty [OF ready' this]
  have get: "traceGET c fs' None fq' r' = (TraceSteps (map rowView ?listed), r')" .
  have post: "tracePOST p c body t fs None r = (Some (length steps), r')"
    using posted app by (simp add: tracePOST_def)
  show ?thesis
    by (rule exI [of _ r'], rule exI [of _ ?listed]) (use there get post in \<open>auto simp: list_all_iff\<close>)
qed

definition samplePost :: jsval where
  "samplePost = Obj [(''steps'', Arr [Obj [(''agent_action_id'', Str ''a1''), (''step_kind'', Str ''tool_call''),
     (''ts'', Num (Fin 1700000000))], Obj []])]"

theorem trace_post_get_witness:
  "\<exists>r' listed. tracePOST (\<lambda>_. None) ''c'' (Some samplePost) 5 None None sampleRepo = (Some 1, r') \<and>
    traceGET ''c'' None None None r' = (TraceSteps (map rowView listed), r')"
proof -
  let ?st = "\<lparr>ti_agent_action_id = ''a1'', ti_agent_id = ''unknown'', ti_execution_path = ''unknown'',
    ti_step_kind = ''tool_call'', ti_summary = [], ti_ts = TsNum (Fin 1700000000)\<rparr>"
  have posted: "postedSteps (Some samplePost) = Some [?st]"
    by (simp add: postedSteps_def samplePost_def jsFieldE_def dictGet_def stepInput_def stepPosted_def)
  obtain row where "traceRow (\<lambda>_. None) ''c'' 5 ?st = Some row" by (simp add: traceRow_def)
  then have rows: "traverse (traceRow (\<lambda>_. None) ''c'' 5) [?st] = Some [row]" by simp
  show ?thesis
    using trace_post_get [OF sampleRepo_ok _ _ posted rows, of None None None]
    by (auto simp: sampleRepo_def dictGet_def dictKeys_def)
qed

end
