(* ===== verification/Triage_Features.thy ===== *)
theory Triage_Features
  imports Js_Value
begin

text \<open>
  The feature enrichment of \<open>app/api/cases/[caseId]/triage/route.ts\<close>: before an alert is sent to the
  orchestrator its flat OCSF object is given the numeric features the classifier reads. The alert is an
  object of JSON values; the answer of the control plane to the baseline request is an argument.
\<close>

section \<open>Model\<close>

definition severityScore :: "string \<Rightarrow> rat" where
  "severityScore s =
     (let l = toLowerCase s
      in if l = ''informational'' then 1 / 10
         else if l = ''low'' then 3 / 10
         else if l = ''medium'' then 5 / 10
         else if l = ''high'' then 8 / 10
         else if l = ''critical'' \<or> l = ''fatal'' then 1
         else 5 / 10)"

text \<open>A property read on an object.\<close>

definition fieldOf :: "jsval dict \<Rightarrow> string \<Rightarrow> jsval" where
  "fieldOf a k = jsField k (Obj a)"

definition hasNumericFeature :: "jsval dict \<Rightarrow> string \<Rightarrow> bool" where
  "hasNumericFeature alert key \<longleftrightarrow> numFinite (fieldOf alert key) \<noteq> None"

definition setFeatureDefault :: "string \<Rightarrow> rat \<Rightarrow> jsval dict \<Rightarrow> jsval dict" where
  "setFeatureDefault key v alert =
     (if hasNumericFeature alert key then alert else dictPut key (Num (Fin v)) alert)"

definition lowerField :: "jsval \<Rightarrow> string" where
  "lowerField v = toLowerCase (jsString v)"

definition operationDefaults :: "jsval dict \<Rightarrow> (string \<times> rat) list" where
  "operationDefaults alert =
     (let operation = lowerField (nullish (nullish (fieldOf alert ''api_operation'') (fieldOf alert ''eventName'')) (Str []));
          service = lowerField (nullish (nullish (fieldOf alert ''api_service'') (fieldOf alert ''eventSource'')) (Str []));
          actor = lowerField (nullish (fieldOf alert ''actor_user_name'') (Str []))
      in if str_includes operation ''putbucketacl'' \<or> str_includes operation ''putbucketpolicy'' then
           [(''severity_score'', 85 / 100), (''baseline_deviation'', 7 / 10), (''threat_intel_hit_count'', 1),
            (''asset_criticality'', 9 / 10), (''prior_disposition_ratio'', 8 / 10)]
         else if str_includes operation ''createaccesskey'' \<or> actor = ''root'' then
           [(''severity_score'', 1), (''baseline_deviation'', 9 / 10), (''asset_criticality'', 1),
            (''prior_disposition_ratio'', 9 / 10)]
         else if str_includes operation ''consolelogin'' then
           [(''asset_criticality'', 5 / 10), (''prior_disposition_ratio'', 35 / 100)]
         else if str_includes service ''okta'' \<or> str_includes operation ''session.start'' then
           [(''severity_score'', 75 / 100), (''entity_reputation_score'', 6 / 10), (''baseline_deviation'', 6 / 10),
            (''threat_intel_hit_count'', 1), (''asset_criticality'', 5 / 10), (''prior_disposition_ratio'', 7 / 10)]
         else [])"

definition applyOperationFeatureDefaults :: "jsval dict \<Rightarrow> jsval dict" where
  "applyOperationFeatureDefaults alert =
     fold (\<lambda>(key, v). setFeatureDefault key v) (operationDefaults alert) alert"

text \<open>\<open>seen.length === 0\<close> and \<open>seen.includes(region)\<close> on whatever JSON value stands in the answer; a call
  that throws is caught and scores 0.\<close>

fun seenScore :: "jsval \<Rightarrow> string \<Rightarrow> rat" where
  "seenScore (Arr vs) region = (if vs = [] then 1 / 2 else if Str region \<in> set vs then 0 else 1)"
| "seenScore (Str s) region = (if s = [] then 1 / 2 else if str_includes s region then 0 else 1)"
| "seenScore (Obj d) region = (if fieldOf d ''length'' = Num (Fin 0) then 1 / 2 else 0)"
| "seenScore v region = 0"

fun baselineDeviation :: "fetched \<Rightarrow> string \<Rightarrow> rat" where
  "baselineDeviation (Rejected m) region = 0"
| "baselineDeviation (Answer st body raw) region =
     (if \<not> okStatus st then 0
      else case body of
        None \<Rightarrow> 0
      | Some baseline \<Rightarrow>
          (case jsFieldE ''regions_seen_30d'' baseline of
             None \<Rightarrow> 0
           | Some seen \<Rightarrow> seenScore (nullish seen (Arr [])) region))"

definition baselineUrl :: "string \<Rightarrow> string \<Rightarrow> string" where
  "baselineUrl cpUrl username = cpUrl @ ''/v1/baselines/user/'' @ encodeURIComponent username"

definition withSeverity :: "jsval dict \<Rightarrow> jsval dict" where
  "withSeverity a =
     (case fieldOf a ''severity'' of
        Str s \<Rightarrow> dictPut ''severity_score'' (Num (Fin (max
          (case numFinite (fieldOf a ''severity_score'') of Some x \<Rightarrow> x | None \<Rightarrow> 0) (severityScore s)))) a
      | _ \<Rightarrow> a)"

text \<open>\<open>parseFloat(s) || d\<close>: zero and NaN are falsy.\<close>

definition parseFloatOr :: "string \<Rightarrow> rat \<Rightarrow> jsnum" where
  "parseFloatOr s d = (let n = parseFloat s in if truthy (Num n) then n else Fin d)"

definition withSourceClass :: "jsval dict \<Rightarrow> jsval dict" where
  "withSourceClass a =
     (if hasNumericFeature a ''source_class_id'' then a
      else case fieldOf a ''class_uid'' of
        Str s \<Rightarrow> dictPut ''source_class_id'' (Num (parseFloatOr s 6003)) a
      | _ \<Rightarrow> a)"

definition withHour :: "jsval dict \<Rightarrow> jsval dict" where
  "withHour a =
     (if hasNumericFeature a ''hour_of_day'' then a
      else case fieldOf a ''time'' of
        Str s \<Rightarrow> dictPut ''hour_of_day'' (Num (parseFloatOr (slice 11 13 s) 12)) a
      | _ \<Rightarrow> a)"

text \<open>The features that need no request, and the user and region the baseline is asked for.\<close>

definition localFeatures :: "jsval dict \<Rightarrow> jsval dict" where
  "localFeatures alert = withHour (withSourceClass (withSeverity (applyOperationFeatureDefaults alert)))"

definition baselineQuery :: "jsval dict \<Rightarrow> (string \<times> string) option" where
  "baselineQuery a =
     (if truthy (fieldOf a ''baseline_deviation'') then None
      else case (fieldOf a ''actor_user_name'', fieldOf a ''cloud_region'') of
        (Str user, Str region) \<Rightarrow> if region \<noteq> ''unknown'' then Some (user, region) else None
      | _ \<Rightarrow> None)"

definition withBaseline :: "fetched \<Rightarrow> jsval dict \<Rightarrow> jsval dict" where
  "withBaseline f a =
     (case baselineQuery a of
        None \<Rightarrow> a
      | Some (_, region) \<Rightarrow> dictPut ''baseline_deviation'' (Num (Fin (baselineDeviation f region))) a)"

definition enrichAlert :: "fetched \<Rightarrow> jsval dict \<Rightarrow> jsval dict" where
  "enrichAlert f alert = withBaseline f (localFeatures alert)"

text \<open>\<open>\{ ...alert \}\<close> on a truthy JSON value.\<close>

definition indexed :: "jsval list \<Rightarrow> jsval dict" where
  "indexed vs = map (\<lambda>(i, v). (natStr i, v)) (enumerate 0 vs)"

fun spreadObject :: "jsval \<Rightarrow> jsval dict" where
  "spreadObject (Obj d) = d"
| "spreadObject (Arr vs) = indexed vs"
| "spreadObject (Str s) = indexed (map (\<lambda>c. Str [c]) s)"
| "spreadObject v = []"

section \<open>Facts\<close>

text \<open>The features the code may write; every other field of the alert is passed on as it came.\<close>

definition featureKeys :: "string list" where
  "featureKeys = [''severity_score'', ''entity_reputation_score'', ''baseline_deviation'',
     ''threat_intel_hit_count'', ''asset_criticality'', ''prior_disposition_ratio'', ''source_class_id'',
     ''hour_of_day'']"

lemma fieldOf_put: "fieldOf (dictPut k v a) j = (if j = k then v else fieldOf a j)"
  by (simp add: fieldOf_def dictGet_put)

lemma fieldOf_setDefault:
  "fieldOf (setFeatureDefault k v a) j =
     (if j = k \<and> numFinite (fieldOf a k) = None then Num (Fin v) else fieldOf a j)"
  by (auto simp: setFeatureDefault_def hasNumericFeature_def fieldOf_put)

lemma fold_default_fields:
  assumes "distinct (map fst ds)"
  shows "fieldOf (fold (\<lambda>(key, v). setFeatureDefault key v) ds a) j =
    (case map_of ds j of
       Some v \<Rightarrow> if numFinite (fieldOf a j) = None then Num (Fin v) else fieldOf a j
     | None \<Rightarrow> fieldOf a j)"
  using assms
proof (induction ds arbitrary: a)
  case (Cons d ds)
  obtain k v where d: "d = (k, v)" by fastforce
  have "map_of ds k = None" using Cons.prems d by (simp add: map_of_eq_None_iff)
  then show ?case
    using Cons d by (auto simp: fieldOf_setDefault split: option.splits)
qed simp

lemma operationDefaults_distinct: "distinct (map fst (operationDefaults a))"
  by (simp add: operationDefaults_def Let_def)

lemma operationDefaults_keys: "map_of (operationDefaults a) k = Some v \<Longrightarrow> k \<in> set (take 6 featureKeys) \<and> 0 \<le> v \<and> v \<le> 1"
  by (auto simp: operationDefaults_def Let_def featureKeys_def split: if_splits)

lemma fieldOf_defaults:
  "fieldOf (applyOperationFeatureDefaults a) j =
    (case map_of (operationDefaults a) j of
       Some v \<Rightarrow> if numFinite (fieldOf a j) = None then Num (Fin v) else fieldOf a j
     | None \<Rightarrow> fieldOf a j)"
  unfolding applyOperationFeatureDefaults_def by (rule fold_default_fields [OF operationDefaults_distinct])

lemma fieldOf_defaults_other: "j \<notin> set (take 6 featureKeys) \<Longrightarrow> fieldOf (applyOperationFeatureDefaults a) j = fieldOf a j"
  by (auto simp: fieldOf_defaults dest: operationDefaults_keys split: option.splits)

lemma fieldOf_withSeverity:
  "fieldOf (withSeverity a) j =
    (case fieldOf a ''severity'' of
       Str s \<Rightarrow> if j = ''severity_score'' then Num (Fin (max
         (case numFinite (fieldOf a ''severity_score'') of Some x \<Rightarrow> x | None \<Rightarrow> 0) (severityScore s))) else fieldOf a j
     | _ \<Rightarrow> fieldOf a j)"
  by (simp add: withSeverity_def fieldOf_put split: jsval.splits)

lemma fieldOf_withSourceClass:
  "fieldOf (withSourceClass a) j =
    (if j = ''source_class_id'' \<and> numFinite (fieldOf a j) = None then
       (case fieldOf a ''class_uid'' of Str s \<Rightarrow> Num (parseFloatOr s 6003) | _ \<Rightarrow> fieldOf a j)
     else fieldOf a j)"
  by (auto simp: withSourceClass_def hasNumericFeature_def fieldOf_put split: jsval.splits)

lemma fieldOf_withHour:
  "fieldOf (withHour a) j =
    (if j = ''hour_of_day'' \<and> numFinite (fieldOf a j) = None then
       (case fieldOf a ''time'' of Str s \<Rightarrow> Num (parseFloatOr (slice 11 13 s) 12) | _ \<Rightarrow> fieldOf a j)
     else fieldOf a j)"
  by (auto simp: withHour_def hasNumericFeature_def fieldOf_put split: jsval.splits)

lemma fieldOf_withBaseline:
  "fieldOf (withBaseline f a) j =
    (case baselineQuery a of
       Some (_, region) \<Rightarrow> if j = ''baseline_deviation'' then Num (Fin (baselineDeviation f region)) else fieldOf a j
     | None \<Rightarrow> fieldOf a j)"
  by (auto simp: withBaseline_def fieldOf_put split: option.splits)

lemma fields_other:
  "j \<noteq> ''severity_score'' \<Longrightarrow> fieldOf (withSeverity a) j = fieldOf a j"
  "j \<noteq> ''source_class_id'' \<Longrightarrow> fieldOf (withSourceClass a) j = fieldOf a j"
  "j \<noteq> ''hour_of_day'' \<Longrightarrow> fieldOf (withHour a) j = fieldOf a j"
  "j \<noteq> ''baseline_deviation'' \<Longrightarrow> fieldOf (withBaseline f a) j = fieldOf a j"
  by (simp_all add: fieldOf_withBaseline fieldOf_withHour fieldOf_withSourceClass fieldOf_withSeverity
      split: jsval.splits option.splits)

lemmas feature_fields = fieldOf_withBaseline fieldOf_withHour fieldOf_withSourceClass fieldOf_withSeverity

lemma enrich_other: "k \<notin> set featureKeys \<Longrightarrow> fieldOf (enrichAlert f a) k = fieldOf a k"
  by (simp add: enrichAlert_def localFeatures_def fields_other fieldOf_defaults_other featureKeys_def)

lemma operationDefaults_cong:
  assumes "\<And>k. k \<notin> set featureKeys \<Longrightarrow> fieldOf a k = fieldOf b k"
  shows "operationDefaults a = operationDefaults b"
proof -
  have "fieldOf a ''api_operation'' = fieldOf b ''api_operation''" "fieldOf a ''eventName'' = fieldOf b ''eventName''"
    "fieldOf a ''api_service'' = fieldOf b ''api_service''" "fieldOf a ''eventSource'' = fieldOf b ''eventSource''"
    "fieldOf a ''actor_user_name'' = fieldOf b ''actor_user_name''"
    by (intro assms; simp add: featureKeys_def)+
  then show ?thesis by (simp only: operationDefaults_def)
qed

lemma fields_cong:
  assumes "fieldOf a = fieldOf b"
  shows "fieldOf (applyOperationFeatureDefaults a) = fieldOf (applyOperationFeatureDefaults b)"
    "fieldOf (withSeverity a) = fieldOf (withSeverity b)" "fieldOf (withSourceClass a) = fieldOf (withSourceClass b)"
    "fieldOf (withHour a) = fieldOf (withHour b)" "fieldOf (withBaseline f a) = fieldOf (withBaseline f b)"
proof -
  have "operationDefaults a = operationDefaults b"
    using assms by (simp add: operationDefaults_def)
  then show "fieldOf (applyOperationFeatureDefaults a) = fieldOf (applyOperationFeatureDefaults b)"
    using assms by (intro ext) (auto simp: fieldOf_defaults split: option.split)
  have "baselineQuery a = baselineQuery b"
    using assms by (simp add: baselineQuery_def)
  then show "fieldOf (withBaseline f a) = fieldOf (withBaseline f b)"
    using assms by (intro ext) (simp add: fieldOf_withBaseline split: option.split)
qed (use assms in \<open>intro ext, auto simp: feature_fields split: jsval.split\<close>)+

lemma numeric_kept:
  assumes "numFinite (fieldOf a k) \<noteq> None"
  shows "numFinite (fieldOf (applyOperationFeatureDefaults a) k) \<noteq> None" "numFinite (fieldOf (withSeverity a) k) \<noteq> None"
    "numFinite (fieldOf (withSourceClass a) k) \<noteq> None" "numFinite (fieldOf (withHour a) k) \<noteq> None"
    "numFinite (fieldOf (withBaseline f a) k) \<noteq> None"
  using assms by (auto simp: feature_fields fieldOf_defaults simp del: not_None_eq split: option.splits jsval.splits)

lemma defaults_fixed: "fieldOf (applyOperationFeatureDefaults (enrichAlert f a)) = fieldOf (enrichAlert f a)"
proof -
  have same: "operationDefaults (enrichAlert f a) = operationDefaults a"
    by (rule operationDefaults_cong) (rule enrich_other)
  have "numFinite (fieldOf (enrichAlert f a) k) \<noteq> None" if "map_of (operationDefaults a) k = Some v" for k v
  proof -
    have "numFinite (fieldOf (applyOperationFeatureDefaults a) k) \<noteq> None"
      using that by (auto simp: fieldOf_defaults)
    then show ?thesis
      unfolding enrichAlert_def localFeatures_def
      by (rule numeric_kept(5) [OF numeric_kept(4) [OF numeric_kept(3) [OF numeric_kept(2)]]])
  qed
  then show ?thesis by (intro ext) (simp add: fieldOf_defaults same del: not_None_eq split: option.split)
qed

lemma severity_fixed: "fieldOf (withSeverity (enrichAlert f a)) = fieldOf (enrichAlert f a)"
proof -
  have "fieldOf (enrichAlert f a) ''severity'' = fieldOf a ''severity''"
    by (rule enrich_other) (simp add: featureKeys_def)
  moreover have "\<exists>x. fieldOf (enrichAlert f a) ''severity_score'' = Num (Fin x) \<and> severityScore s \<le> x \<and> 0 \<le> x"
    if "fieldOf a ''severity'' = Str s" for s
  proof -
    have "fieldOf (applyOperationFeatureDefaults a) ''severity'' = Str s"
      using that by (simp add: fieldOf_defaults_other featureKeys_def)
    moreover have "0 \<le> severityScore s" by (simp add: severityScore_def Let_def)
    ultimately show ?thesis
      by (simp add: enrichAlert_def localFeatures_def fields_other fieldOf_withSeverity le_max_iff_disj)
  qed
  ultimately show ?thesis
    by (auto simp: fun_eq_iff fieldOf_withSeverity max_def split: jsval.splits)
qed

lemma class_hour_fixed:
  "fieldOf (withSourceClass (enrichAlert f a)) = fieldOf (enrichAlert f a)"
  "fieldOf (withHour (enrichAlert f a)) = fieldOf (enrichAlert f a)"
proof -
  have src: "fieldOf (enrichAlert f a) ''class_uid'' = fieldOf a ''class_uid''"
      "fieldOf (enrichAlert f a) ''time'' = fieldOf a ''time''"
    by (rule enrich_other; simp add: featureKeys_def)+
  have "fieldOf (enrichAlert f a) ''source_class_id'' = (if numFinite (fieldOf a ''source_class_id'') = None then
      (case fieldOf a ''class_uid'' of Str s \<Rightarrow> Num (parseFloatOr s 6003) | _ \<Rightarrow> fieldOf a ''source_class_id'')
      else fieldOf a ''source_class_id'')"
    by (simp add: enrichAlert_def localFeatures_def fields_other fieldOf_withSourceClass fieldOf_defaults_other
        featureKeys_def split: jsval.split)
  then show "fieldOf (withSourceClass (enrichAlert f a)) = fieldOf (enrichAlert f a)"
    using src(1) by (auto simp: fun_eq_iff fieldOf_withSourceClass split: jsval.splits)
  have "fieldOf (enrichAlert f a) ''hour_of_day'' = (if numFinite (fieldOf a ''hour_of_day'') = None then
      (case fieldOf a ''time'' of Str s \<Rightarrow> Num (parseFloatOr (slice 11 13 s) 12) | _ \<Rightarrow> fieldOf a ''hour_of_day'')
      else fieldOf a ''hour_of_day'')"
    by (simp add: enrichAlert_def localFeatures_def fields_other fieldOf_withHour fieldOf_defaults_other
        featureKeys_def split: jsval.split)
  then show "fieldOf (withHour (enrichAlert f a)) = fieldOf (enrichAlert f a)"
    using src(2) by (auto simp: fun_eq_iff fieldOf_withHour split: jsval.splits)
qed

lemma baseline_fixed: "fieldOf (withBaseline f (withBaseline f a)) = fieldOf (withBaseline f a)"
proof (cases "baselineQuery a")
  case None
  then show ?thesis by (simp add: withBaseline_def)
next
  case (Some q)
  obtain u r where q: "q = (u, r)" by fastforce
  let ?b = "withBaseline f a"
  have "fieldOf ?b ''actor_user_name'' = fieldOf a ''actor_user_name''" "fieldOf ?b ''cloud_region'' = fieldOf a ''cloud_region''"
    and dev: "fieldOf ?b ''baseline_deviation'' = Num (Fin (baselineDeviation f r))"
    using Some q by (simp_all add: fieldOf_withBaseline)
  then have "baselineQuery ?b = None \<or> baselineQuery ?b = Some (u, r)"
    using Some q by (auto simp: baselineQuery_def split: if_splits jsval.splits)
  then show ?thesis
    using dev by (auto simp: fun_eq_iff fieldOf_withBaseline [of f ?b])
qed

text \<open>An alert that carries every feature, and no severity word to raise the score, is passed on as it is.\<close>

lemma enrich_complete:
  assumes num: "\<And>k. k \<in> set featureKeys \<Longrightarrow> numFinite (fieldOf a k) \<noteq> None"
    and sev: "fieldOf a ''severity'' = Undef" and dev: "truthy (fieldOf a ''baseline_deviation'')"
  shows "fieldOf (enrichAlert f a) = fieldOf a"
proof -
  have known: "numFinite (fieldOf a ''source_class_id'') \<noteq> None" "numFinite (fieldOf a ''hour_of_day'') \<noteq> None"
    by (rule num; simp add: featureKeys_def)+
  have "numFinite (fieldOf a k) \<noteq> None" if "map_of (operationDefaults a) k = Some v" for k v
    using operationDefaults_keys [OF that] set_take_subset [of 6 featureKeys] by (intro num) blast
  then have d: "fieldOf (applyOperationFeatureDefaults a) = fieldOf a"
    by (intro ext) (simp add: fieldOf_defaults del: not_None_eq split: option.split)
  then have s: "fieldOf (withSeverity (applyOperationFeatureDefaults a)) = fieldOf a"
    by (intro ext) (simp add: fieldOf_withSeverity sev)
  then have c: "fieldOf (withSourceClass (withSeverity (applyOperationFeatureDefaults a))) = fieldOf a"
    using known(1) by (intro ext) (auto simp: fieldOf_withSourceClass)
  then have l: "fieldOf (localFeatures a) = fieldOf a"
    unfolding localFeatures_def using known(2) by (intro ext) (auto simp: fieldOf_withHour)
  then show ?thesis
    using dev by (intro ext) (simp add: enrichAlert_def fieldOf_withBaseline baselineQuery_def)
qed

section \<open>Properties\<close>

text \<open>C19: enrichment only adds: a field that is not a feature is passed on unchanged, a finite number the
  caller gave for a feature is kept, except that a severity score may be raised and a baseline deviation
  of zero is looked up again.\<close>

theorem enrich_only_adds:
  "(k \<notin> set featureKeys \<longrightarrow> fieldOf (enrichAlert f a) k = fieldOf a k) \<and>
   (fieldOf a k = Num (Fin x) \<longrightarrow>
     (k \<noteq> ''severity_score'' \<longrightarrow> k \<noteq> ''baseline_deviation'' \<or> x \<noteq> 0 \<longrightarrow>
        fieldOf (enrichAlert f a) k = Num (Fin x)) \<and>
     (k = ''severity_score'' \<longrightarrow> (\<exists>y \<ge> x. fieldOf (enrichAlert f a) k = Num (Fin y))))"
proof (intro conjI impI)
  show "fieldOf (enrichAlert f a) k = fieldOf a k" if "k \<notin> set featureKeys"
    using that by (rule enrich_other)
  assume num: "fieldOf a k = Num (Fin x)"
  then have d: "fieldOf (applyOperationFeatureDefaults a) k = Num (Fin x)"
    by (auto simp: fieldOf_defaults split: option.splits)
  show "fieldOf (enrichAlert f a) k = Num (Fin x)"
    if "k \<noteq> ''severity_score''" and "k \<noteq> ''baseline_deviation'' \<or> x \<noteq> 0"
  proof -
    have l: "fieldOf (localFeatures a) k = Num (Fin x)"
      using that(1) d by (auto simp: localFeatures_def feature_fields split: jsval.splits)
    moreover have "baselineQuery (localFeatures a) = None" if "k = ''baseline_deviation''" "x \<noteq> 0"
      using l that by (simp add: baselineQuery_def)
    ultimately show ?thesis using that(2) by (auto simp: enrichAlert_def fieldOf_withBaseline split: option.splits)
  qed
  show "\<exists>y \<ge> x. fieldOf (enrichAlert f a) k = Num (Fin y)" if "k = ''severity_score''"
    using that d by (auto simp: enrichAlert_def localFeatures_def feature_fields split: option.splits jsval.splits)
qed

theorem enrich_only_adds_witness:
  "fieldOf (enrichAlert (Rejected []) [(''hour_of_day'', Num (Fin 3)), (''time'', Str ''2026-01-01T07:00:00Z'')])
     ''hour_of_day'' = Num (Fin 3)"
  using enrich_only_adds [of "''hour_of_day''" "Rejected []"
      "[(''hour_of_day'', Num (Fin 3)), (''time'', Str ''2026-01-01T07:00:00Z'')]" 3]
  by (simp add: fieldOf_def dictGet_def)


text \<open>An alert stamped in the hour after midnight gets the same hour of day as one stamped at noon: the
  parsed hour 0 is falsy and replaced by the default 12.\<close>

theorem midnight_reads_as_noon:
  assumes "fieldOf a ''time'' = Str (date @ ''00'' @ rest)" and "length date = 11"
    and "\<not> hasNumericFeature a ''hour_of_day''"
  shows "fieldOf (enrichAlert f a) ''hour_of_day'' = Num (Fin 12)"
proof -
  have "parseFloatOr ''00'' 12 = Fin 12"
    by (simp add: parseFloatOr_def parseFloat_def scanDecimal_def scanSign_def scanFraction_def scanExponent_def
        is_space_def char_between_def code_def digitsVal_def decode_def startsWith_def pow10_def)
  moreover have "slice 11 13 (date @ ''00'' @ rest) = ''00''"
    using assms(2) by (simp add: slice_def)
  ultimately show ?thesis
    using assms by (simp add: enrichAlert_def localFeatures_def fields_other fieldOf_withHour fieldOf_defaults_other
        featureKeys_def hasNumericFeature_def)
qed

theorem midnight_reads_as_noon_witness:
  "fieldOf (enrichAlert (Rejected []) [(''time'', Str ''2026-01-01T00:15:00Z'')]) ''hour_of_day'' = Num (Fin 12)"
  using midnight_reads_as_noon [of "[(''time'', Str ''2026-01-01T00:15:00Z'')]" "''2026-01-01T''" "'':15:00Z''"]
  by (simp add: fieldOf_def dictGet_def hasNumericFeature_def)

end
