(* ===== verification/Triage_Route.thy ===== *)
theory Triage_Route
  imports Case_Repository Triage_Features
begin

text \<open>
  The handlers of \<open>app/api/cases/[caseId]/triage/route.ts\<close>. A POST runs in turns: between two \<open>await\<close>s it
  is not interrupted, and at every \<open>await\<close> other requests of the same process may run. The server's state
  holds the repository, the two module-level maps \<open>TRIAGE_RESULT_CACHE\<close> and \<open>TRIAGE_IN_FLIGHT\<close> (which maps
  a case to the request that owns the promise), the settled result of each request's promise \<open>run\<close>, and
  the place where each request waits. \<open>advance\<close> is one turn: the awaited answer comes in and the request
  runs to its next \<open>await\<close>. A database statement takes effect in the turn that consumes its answer.
\<close>

section \<open>State\<close>

datatype pc =
    AwaitCase jsval
  | AwaitBaseline "jsval dict"
  | AwaitSnapshot "jsval dict"
  | AwaitRunning "jsval dict"
  | AwaitOrchestrator "jsval dict"
  | AwaitComplete jsval
  | AwaitFailed string
  | AwaitRun nat
  | Done response
  | Crashed

datatype run_result = RunPending | RunData jsval | RunError string

record request =
  rq_case :: string
  rq_pc :: pc

record triage_server =
  tq_repo :: repo
  tq_cache :: "jsval dict"
  tq_inflight :: "nat dict"
  tq_runs :: "nat \<Rightarrow> run_result"
  tq_reqs :: "request list"

definition triageInit :: "repo \<Rightarrow> triage_server" where
  "triageInit r = \<lparr>tq_repo = r, tq_cache = [], tq_inflight = [], tq_runs = (\<lambda>_. RunPending), tq_reqs = []\<rparr>"

section \<open>GET\<close>

definition timeVal :: "int option \<Rightarrow> jsval" where
  "timeVal t = (case t of None \<Rightarrow> Null | Some x \<Rightarrow> Str (toISOString x))"

definition triageGET :: "string \<Rightarrow> fault \<Rightarrow> fault \<Rightarrow> repo \<Rightarrow> response option \<times> repo" where
  "triageGET caseId fs fq r =
     (case getCase caseId fs fq r of
        (Inl _, r') \<Rightarrow> (None, r')
      | (Inr None, r') \<Rightarrow> (Some (respond 200 (Obj [(''status'', Str ''missing''), (''verdict'', Null)])), r')
      | (Inr (Some row), r') \<Rightarrow> (Some (respond 200 (Obj
          [(''status'', Str (triageStatusStr (cr_triage_status row))),
           (''verdict'', cr_verdict row),
           (''error'', str_null (cr_error row)),
           (''triage_started_at'', timeVal (cr_triage_started_at row)),
           (''triage_completed_at'', timeVal (cr_triage_completed_at row))])), r'))"

section \<open>POST\<close>

text \<open>Up to the first \<open>await\<close> on the repository: the body is parsed and checked.\<close>

definition firstTurn :: "jsval option \<Rightarrow> pc" where
  "firstTurn body =
     (case body of
        None \<Rightarrow> Done (respond 400 (errorBody ''Invalid JSON body''))
      | Some b \<Rightarrow>
          (case jsFieldE ''alert'' b of
             None \<Rightarrow> Crashed
           | Some a \<Rightarrow> if \<not> truthy a then Done (respond 400 (errorBody ''Missing alert field''))
               else AwaitCase a))"

definition arrive :: "string \<Rightarrow> jsval option \<Rightarrow> triage_server \<Rightarrow> triage_server" where
  "arrive caseId body s = s\<lparr>tq_reqs := tq_reqs s @ [\<lparr>rq_case = caseId, rq_pc = firstTurn body\<rparr>]\<rparr>"

text \<open>The persisted verdict, the cached one, a run in flight, or a triage of its own.\<close>

definition persistedVerdict :: "case_row option \<Rightarrow> jsval option" where
  "persistedVerdict persisted =
     (case persisted of
        Some row \<Rightarrow>
          if cr_triage_status row = TComplete \<and> truthy (cr_verdict row) then Some (cr_verdict row) else None
      | None \<Rightarrow> None)"

definition cachedVerdict :: "jsval dict \<Rightarrow> string \<Rightarrow> jsval option" where
  "cachedVerdict cache caseId =
     (case dictGet cache caseId of Some v \<Rightarrow> if truthy v then Some v else None | None \<Rightarrow> None)"

definition startTurn :: "string \<Rightarrow> jsval \<Rightarrow> case_row option \<Rightarrow> triage_server \<Rightarrow> pc" where
  "startTurn caseId alert persisted s =
     (case persistedVerdict persisted of
        Some v \<Rightarrow> Done (respond 200 v)
      | None \<Rightarrow>
          (case cachedVerdict (tq_cache s) caseId of
             Some v \<Rightarrow> Done (respond 200 v)
           | None \<Rightarrow>
               (case dictGet (tq_inflight s) caseId of
                  Some m \<Rightarrow> AwaitRun m
                | None \<Rightarrow>
                    let enriched = localFeatures (spreadObject alert)
                    in case baselineQuery enriched of
                         Some _ \<Rightarrow> AwaitBaseline enriched
                       | None \<Rightarrow> AwaitSnapshot enriched)))"

text \<open>How the orchestrator's answer settles the promise \<open>run\<close>.\<close>

fun runResult :: "fetched \<Rightarrow> run_result" where
  "runResult (Rejected m) = RunError m"
| "runResult (Answer st body text) =
     (if \<not> okStatus st then RunError (''Orchestrator returned '' @ natStr st)
      else case body of None \<Rightarrow> RunError text | Some d \<Rightarrow> RunData d)"

datatype input = DbCase fault fault | Fetched fetched | DbWrite int fault fault | RunSettled

definition setPc :: "nat \<Rightarrow> pc \<Rightarrow> triage_server \<Rightarrow> triage_server" where
  "setPc n p s = s\<lparr>tq_reqs := (tq_reqs s)[n := (tq_reqs s ! n)\<lparr>rq_pc := p\<rparr>]\<rparr>"

definition setRepo :: "repo \<Rightarrow> triage_server \<Rightarrow> triage_server" where
  "setRepo r s = s\<lparr>tq_repo := r\<rparr>"

definition settleRun :: "nat \<Rightarrow> run_result \<Rightarrow> triage_server \<Rightarrow> triage_server" where
  "settleRun n res s = s\<lparr>tq_runs := (tq_runs s)(n := res)\<rparr>"

definition registerRun :: "string \<Rightarrow> nat \<Rightarrow> triage_server \<Rightarrow> triage_server" where
  "registerRun c n s = s\<lparr>tq_inflight := dictPut c n (tq_inflight s)\<rparr>"

text \<open>The \<open>finally\<close> block.\<close>

definition dropRun :: "string \<Rightarrow> triage_server \<Rightarrow> triage_server" where
  "dropRun c s = s\<lparr>tq_inflight := dictDel c (tq_inflight s)\<rparr>"

definition cacheResult :: "string \<Rightarrow> jsval \<Rightarrow> triage_server \<Rightarrow> triage_server" where
  "cacheResult c d s = s\<lparr>tq_cache := dictPut c d (tq_cache s)\<rparr>"

fun turn :: "nat \<Rightarrow> string \<Rightarrow> pc \<Rightarrow> input \<Rightarrow> triage_server \<Rightarrow> triage_server option" where
  "turn n c (AwaitCase alert) (DbCase fs fq) s =
     (case getCase c fs fq (tq_repo s) of
        (Inl _, r) \<Rightarrow> Some (setPc n Crashed (setRepo r s))
      | (Inr row, r) \<Rightarrow> Some (setPc n (startTurn c alert row s) (setRepo r s)))"
| "turn n c (AwaitBaseline a) (Fetched f) s = Some (setPc n (AwaitSnapshot (withBaseline f a)) s)"
| "turn n c (AwaitSnapshot a) (DbWrite t fs fq) s =
     (case upsertCaseSnapshot c None (Obj a) Null Undef t fs fq (tq_repo s) of
        (Inl _, r) \<Rightarrow> Some (setPc n Crashed (setRepo r s))
      | (Inr _, r) \<Rightarrow> Some (registerRun c n (setPc n (AwaitRunning a) (setRepo r s))))"
| "turn n c (AwaitRunning a) (DbWrite t fs fq) s =
     (case markTriageRunning c t fs fq (tq_repo s) of
        (Inl m, r) \<Rightarrow> Some (settleRun n (RunError m) (setPc n (AwaitFailed m) (setRepo r s)))
      | (Inr _, r) \<Rightarrow> Some (setPc n (AwaitOrchestrator a) (setRepo r s)))"
| "turn n c (AwaitOrchestrator a) (Fetched f) s =
     (case runResult f of
        RunData d \<Rightarrow> Some (settleRun n (RunData d) (setPc n (AwaitComplete d) s))
      | RunError m \<Rightarrow> Some (settleRun n (RunError m) (setPc n (AwaitFailed m) s))
      | RunPending \<Rightarrow> None)"
| "turn n c (AwaitComplete d) (DbWrite t fs fq) s =
     (case markTriageComplete c d t fs fq (tq_repo s) of
        (Inl m, r) \<Rightarrow> Some (setPc n (AwaitFailed m) (setRepo r s))
      | (Inr _, r) \<Rightarrow>
          Some (dropRun c (cacheResult c d (setPc n (Done (respond 200 d)) (setRepo r s)))))"
| "turn n c (AwaitFailed m) (DbWrite t fs fq) s =
     (case markTriageFailed c m t fs fq (tq_repo s) of
        (Inl _, r) \<Rightarrow> Some (dropRun c (setPc n Crashed (setRepo r s)))
      | (Inr _, r) \<Rightarrow>
          Some (dropRun c (setPc n (Done (respond 502 (errorBody m))) (setRepo r s))))"
| "turn n c (AwaitRun m) RunSettled s =
     (case tq_runs s m of
        RunPending \<Rightarrow> None
      | RunData d \<Rightarrow> Some (setPc n (Done (respond 200 d)) s)
      | RunError e \<Rightarrow> Some (setPc n (Done (respond 502 (errorBody e))) s))"
| "turn n c _ _ s = None"

definition advance :: "nat \<Rightarrow> input \<Rightarrow> triage_server \<Rightarrow> triage_server option" where
  "advance n inp s =
     (if n < length (tq_reqs s) then turn n (rq_case (tq_reqs s ! n)) (rq_pc (tq_reqs s ! n)) inp s else None)"

inductive tstep :: "triage_server \<Rightarrow> triage_server \<Rightarrow> bool" where
  arrival: "tstep s (arrive c body s)"
| progress: "advance n inp s = Some s' \<Longrightarrow> tstep s s'"

inductive_cases tstepE: "tstep s s'"

text \<open>A run of the server as a list of events, for evaluation.\<close>

datatype event = Arrival string "jsval option" | Turn nat input

fun serve :: "event \<Rightarrow> triage_server \<Rightarrow> triage_server" where
  "serve (Arrival c body) s = arrive c body s"
| "serve (Turn n inp) s = (case advance n inp s of None \<Rightarrow> s | Some s' \<Rightarrow> s')"

lemma serve_reach: "tstep\<^sup>*\<^sup>* s (fold serve es s)"
proof (induction es arbitrary: s)
  case (Cons e es)
  have "tstep\<^sup>*\<^sup>* s (serve e s)"
    by (cases e) (auto intro: tstep.intros split: option.splits)
  then show ?case using Cons.IH [of "serve e s"] by (metis fold_simps(2) rtranclp_trans)
qed simp

section \<open>Facts\<close>

fun rank :: "pc \<Rightarrow> nat" where
  "rank (AwaitCase _) = 7"
| "rank (AwaitBaseline _) = 6"
| "rank (AwaitSnapshot _) = 5"
| "rank (AwaitRunning _) = 4"
| "rank (AwaitOrchestrator _) = 3"
| "rank (AwaitComplete _) = 2"
| "rank (AwaitFailed _) = 1"
| "rank (AwaitRun _) = 1"
| "rank (Done _) = 0"
| "rank Crashed = 0"

definition inRun :: "pc \<Rightarrow> bool" where
  "inRun p \<longleftrightarrow> (\<exists>a. p = AwaitRunning a) \<or> (\<exists>a. p = AwaitOrchestrator a) \<or> (\<exists>d. p = AwaitComplete d)
     \<or> (\<exists>m. p = AwaitFailed m)"

definition unsettled :: "pc \<Rightarrow> bool" where
  "unsettled p \<longleftrightarrow> (\<exists>a. p = AwaitRunning a) \<or> (\<exists>a. p = AwaitOrchestrator a)"

lemma reqs_simps [simp]:
  "tq_reqs (setPc n p s) = (tq_reqs s)[n := (tq_reqs s ! n)\<lparr>rq_pc := p\<rparr>]" "tq_reqs (setRepo r s) = tq_reqs s"
  "tq_reqs (settleRun n res s) = tq_reqs s" "tq_reqs (registerRun c n s) = tq_reqs s"
  "tq_reqs (dropRun c s) = tq_reqs s" "tq_reqs (cacheResult c d s) = tq_reqs s"
  by (simp_all add: setPc_def setRepo_def settleRun_def registerRun_def dropRun_def cacheResult_def)

lemma parts_simps [simp]:
  "tq_repo (setPc n p s) = tq_repo s" "tq_repo (setRepo r s) = r" "tq_repo (settleRun n res s) = tq_repo s"
  "tq_repo (registerRun c n s) = tq_repo s" "tq_repo (dropRun c s) = tq_repo s" "tq_repo (cacheResult c d s) = tq_repo s"
  "tq_inflight (setPc n p s) = tq_inflight s" "tq_inflight (setRepo r s) = tq_inflight s"
  "tq_inflight (settleRun n res s) = tq_inflight s" "tq_inflight (registerRun c n s) = dictPut c n (tq_inflight s)"
  "tq_inflight (dropRun c s) = dictDel c (tq_inflight s)" "tq_inflight (cacheResult c d s) = tq_inflight s"
  "tq_cache (setPc n p s) = tq_cache s" "tq_cache (setRepo r s) = tq_cache s"
  "tq_cache (settleRun n res s) = tq_cache s" "tq_cache (registerRun c n s) = tq_cache s"
  "tq_cache (dropRun c s) = tq_cache s" "tq_cache (cacheResult c d s) = dictPut c d (tq_cache s)"
  "tq_runs (setPc n p s) = tq_runs s" "tq_runs (setRepo r s) = tq_runs s"
  "tq_runs (settleRun n res s) = (tq_runs s)(n := res)" "tq_runs (registerRun c n s) = tq_runs s"
  "tq_runs (dropRun c s) = tq_runs s" "tq_runs (cacheResult c d s) = tq_runs s"
  by (simp_all add: setPc_def setRepo_def settleRun_def registerRun_def dropRun_def cacheResult_def)

lemma rank_startTurn: "rank (startTurn c a row s) < 7"
  by (simp add: startTurn_def Let_def split: option.splits)

text \<open>A turn moves one request, to a place of smaller rank.\<close>

lemma turn_moves:
  assumes "turn n c p inp s = Some s'"
  shows "\<exists>q. tq_reqs s' = (tq_reqs s)[n := (tq_reqs s ! n)\<lparr>rq_pc := q\<rparr>] \<and> rank q < rank p"
  using assms
  by (cases "(n, c, p, inp, s)" rule: turn.cases)
    (auto simp: rank_startTurn split: prod.splits sum.splits run_result.splits)

lemma inRun_simps [simp]:
  "inRun (AwaitRunning a)" "inRun (AwaitOrchestrator a)" "inRun (AwaitComplete d)" "inRun (AwaitFailed m)"
  "\<not> inRun (AwaitCase al)" "\<not> inRun (AwaitBaseline a)" "\<not> inRun (AwaitSnapshot a)" "\<not> inRun (AwaitRun k)"
  "\<not> inRun (Done res)" "\<not> inRun Crashed"
  by (simp_all add: inRun_def)

lemma unsettled_simps [simp]:
  "unsettled (AwaitRunning a)" "unsettled (AwaitOrchestrator a)" "\<not> unsettled (AwaitComplete d)"
  "\<not> unsettled (AwaitFailed m)" "\<not> unsettled (AwaitCase al)" "\<not> unsettled (AwaitBaseline a)"
  "\<not> unsettled (AwaitSnapshot a)" "\<not> unsettled (AwaitRun k)" "\<not> unsettled (Done res)" "\<not> unsettled Crashed"
  by (simp_all add: unsettled_def)

lemma startTurn_cases:
  "startTurn c a row s = q \<Longrightarrow> \<not> inRun q \<and> \<not> unsettled q \<and> (\<forall>m. q = AwaitRun m \<longrightarrow> dictGet (tq_inflight s) c = Some m)"
  by (auto simp: startTurn_def Let_def split: option.splits)

lemma repoOk_getCase: "repoOk r \<Longrightarrow> repoOk (snd (getCase c fs fq r))"
  unfolding getCase_def by (rule dbStatement_inv) (simp_all add: repoOk_def)

lemma repoOk_marks:
  "repoOk r \<Longrightarrow> repoOk (snd (markTriageRunning c t fs fq r))"
  "repoOk r \<Longrightarrow> repoOk (snd (markTriageComplete c d t fs fq r))"
  "repoOk r \<Longrightarrow> repoOk (snd (markTriageFailed c m t fs fq r))"
  using repoStep_ok [of r "\<lambda>_. None" "MarkRunning c t fs fq"] repoStep_ok [of r "\<lambda>_. None" "MarkComplete c d t fs fq"]
    repoStep_ok [of r "\<lambda>_. None" "MarkFailed c m t fs fq"] by simp_all

lemma runResult_settled: "runResult f \<noteq> RunPending"
  by (cases f) (auto split: option.splits)

text \<open>What one turn of request \<open>n\<close> on case \<open>c\<close> does to the maps and to its place.\<close>

definition turnEffect :: "nat \<Rightarrow> string \<Rightarrow> pc \<Rightarrow> pc \<Rightarrow> triage_server \<Rightarrow> triage_server \<Rightarrow> bool" where
  "turnEffect n c p q s s' \<longleftrightarrow>
     tq_reqs s' = (tq_reqs s)[n := (tq_reqs s ! n)\<lparr>rq_pc := q\<rparr>] \<and>
     (repoOk (tq_repo s) \<longrightarrow> repoOk (tq_repo s')) \<and>
     (\<forall>j. j \<noteq> n \<longrightarrow> tq_runs s' j = tq_runs s j) \<and>
     (tq_runs s n \<noteq> RunPending \<longrightarrow> tq_runs s' n \<noteq> RunPending) \<and>
     (unsettled p \<longrightarrow> unsettled q \<or> tq_runs s' n \<noteq> RunPending) \<and>
     (inRun q \<longrightarrow> inRun p \<or> unsettled q) \<and>
     (\<forall>m. q = AwaitRun m \<longrightarrow> dictGet (tq_inflight s) c = Some m) \<and>
     (tq_inflight s' = tq_inflight s \<and> (inRun p \<longrightarrow> inRun q) \<or>
      tq_inflight s' = dictPut c n (tq_inflight s) \<and> inRun q \<or>
      tq_inflight s' = dictDel c (tq_inflight s))"

lemma turn_effect:
  assumes "turn n c p inp s = Some s'"
  shows "\<exists>q. turnEffect n c p q s s'"
  using assms
proof (cases "(n, c, p, inp, s)" rule: turn.cases)
  case (1 n c alert fs fq s)
  then show ?thesis
    using assms repoOk_getCase [of "tq_repo s" c fs fq] startTurn_cases [OF refl, of c alert _ s]
    by (auto simp: turnEffect_def split: prod.splits sum.splits)
next
  case (3 n c a t fs fq s)
  then show ?thesis
    using assms repoOk_upsert [of "tq_repo s" c None "Obj a" Null Undef t fs fq]
    by (auto simp: turnEffect_def split: prod.splits sum.splits)
next
  case (4 n c a t fs fq s)
  then show ?thesis
    using assms repoOk_marks(1) [of "tq_repo s" c t fs fq]
    by (auto simp: turnEffect_def split: prod.splits sum.splits)
next
  case (5 n c a f s)
  then show ?thesis
    using assms runResult_settled [of f] by (auto simp: turnEffect_def split: run_result.splits)
next
  case (6 n c d t fs fq s)
  then show ?thesis
    using assms repoOk_marks(2) [of "tq_repo s" c d t fs fq]
    by (auto simp: turnEffect_def split: prod.splits sum.splits)
next
  case (7 n c m t fs fq s)
  then show ?thesis
    using assms repoOk_marks(3) [of "tq_repo s" c m t fs fq]
    by (auto simp: turnEffect_def split: prod.splits sum.splits)
next
  case (8 n c m s)
  then show ?thesis using assms by (auto simp: turnEffect_def split: run_result.splits)
qed (use assms in \<open>auto simp: turnEffect_def\<close>)

definition serverOk :: "triage_server \<Rightarrow> bool" where
  "serverOk s \<longleftrightarrow>
     repoOk (tq_repo s) \<and>
     (\<forall>c n. dictGet (tq_inflight s) c = Some n \<longrightarrow>
        n < length (tq_reqs s) \<and> rq_case (tq_reqs s ! n) = c \<and> inRun (rq_pc (tq_reqs s ! n))) \<and>
     (\<forall>n < length (tq_reqs s). inRun (rq_pc (tq_reqs s ! n)) \<longrightarrow> tq_runs s n = RunPending \<longrightarrow>
        unsettled (rq_pc (tq_reqs s ! n))) \<and>
     (\<forall>n < length (tq_reqs s). \<forall>m. rq_pc (tq_reqs s ! n) = AwaitRun m \<longrightarrow>
        m < length (tq_reqs s) \<and> rq_case (tq_reqs s ! m) = rq_case (tq_reqs s ! n) \<and>
        (tq_runs s m = RunPending \<longrightarrow> unsettled (rq_pc (tq_reqs s ! m))))"

lemma serverOk_turn:
  assumes ok: "serverOk s" and n: "n < length (tq_reqs s)"
    and eff: "turnEffect n (rq_case (tq_reqs s ! n)) (rq_pc (tq_reqs s ! n)) q s s'"
  shows "serverOk s'"
proof -
  let ?c = "rq_case (tq_reqs s ! n)" and ?p = "rq_pc (tq_reqs s ! n)"
  have reqs: "tq_reqs s' = (tq_reqs s)[n := (tq_reqs s ! n)\<lparr>rq_pc := q\<rparr>]" using eff by (simp add: turnEffect_def)
  have len: "length (tq_reqs s') = length (tq_reqs s)" using reqs by simp
  have case': "rq_case (tq_reqs s' ! j) = rq_case (tq_reqs s ! j)" if "j < length (tq_reqs s)" for j
    using reqs n that by (simp add: nth_list_update)
  have pc': "rq_pc (tq_reqs s' ! j) = (if j = n then q else rq_pc (tq_reqs s ! j))" if "j < length (tq_reqs s)" for j
    using reqs n that by (simp add: nth_list_update)
  have own: "tq_runs s' n = RunPending \<longrightarrow> unsettled ?p \<longrightarrow> unsettled q"
    and runs: "\<And>j. j \<noteq> n \<Longrightarrow> tq_runs s' j = tq_runs s j"
    and keep: "tq_runs s' n = RunPending \<longrightarrow> tq_runs s n = RunPending"
    and into: "inRun q \<longrightarrow> inRun ?p \<or> unsettled q"
    and joins: "\<And>m. q = AwaitRun m \<Longrightarrow> dictGet (tq_inflight s) ?c = Some m"
    using eff by (auto simp: turnEffect_def)
  have fly: "dictGet (tq_inflight s) c = Some j \<Longrightarrow>
      j < length (tq_reqs s) \<and> rq_case (tq_reqs s ! j) = c \<and> inRun (rq_pc (tq_reqs s ! j))" for c j
    using ok by (simp add: serverOk_def)
  have pend: "j < length (tq_reqs s) \<Longrightarrow> inRun (rq_pc (tq_reqs s ! j)) \<Longrightarrow> tq_runs s j = RunPending \<Longrightarrow>
      unsettled (rq_pc (tq_reqs s ! j))" for j
    using ok by (simp add: serverOk_def)
  have wait: "j < length (tq_reqs s) \<Longrightarrow> rq_pc (tq_reqs s ! j) = AwaitRun m \<Longrightarrow>
      m < length (tq_reqs s) \<and> rq_case (tq_reqs s ! m) = rq_case (tq_reqs s ! j) \<and>
      (tq_runs s m = RunPending \<longrightarrow> unsettled (rq_pc (tq_reqs s ! m)))" for j m
    using ok by (simp add: serverOk_def)
  have A: "repoOk (tq_repo s')" using ok eff by (simp add: serverOk_def turnEffect_def)
  have B: "j < length (tq_reqs s') \<and> rq_case (tq_reqs s' ! j) = c \<and> inRun (rq_pc (tq_reqs s' ! j))"
    if "dictGet (tq_inflight s') c = Some j" for c j
  proof -
    have "dictGet (tq_inflight s) c = Some j \<and> (j = n \<longrightarrow> inRun q) \<or> c = ?c \<and> j = n \<and> inRun q"
      using eff that fly [of c j] by (auto simp: turnEffect_def dictGet_put dictGet_del split: if_splits)
    then show ?thesis using fly [of c j] len case' pc' n by auto
  qed
  have C: "unsettled (rq_pc (tq_reqs s' ! j))"
    if "j < length (tq_reqs s')" "inRun (rq_pc (tq_reqs s' ! j))" "tq_runs s' j = RunPending" for j
    using that len pc' pend [of j] pend [of n] n own keep into runs [of j] by (auto split: if_splits)
  have settled: "unsettled (rq_pc (tq_reqs s' ! m))"
    if "m < length (tq_reqs s)" "tq_runs s m = RunPending \<longrightarrow> unsettled (rq_pc (tq_reqs s ! m))" "tq_runs s' m = RunPending" for m
    using that pc' [of m] own keep runs [of m] by (auto split: if_splits)
  have D: "m < length (tq_reqs s') \<and> rq_case (tq_reqs s' ! m) = rq_case (tq_reqs s' ! j) \<and>
      (tq_runs s' m = RunPending \<longrightarrow> unsettled (rq_pc (tq_reqs s' ! m)))"
    if j: "j < length (tq_reqs s')" and "rq_pc (tq_reqs s' ! j) = AwaitRun m" for j m
  proof (cases "j = n")
    case True
    then have "q = AwaitRun m" using that pc' n by simp
    from fly [OF joins [OF this]] show ?thesis
      using True settled [of m] pend [of m] len case' n by auto
  next
    case False
    then show ?thesis using wait [of j m] settled [of m] that len case' pc' by auto
  qed
  show ?thesis
    unfolding serverOk_def using A B C D by blast
qed

lemma serverOk_arrive: "serverOk s \<Longrightarrow> serverOk (arrive c body s)"
proof -
  assume ok: "serverOk s"
  have pc: "\<not> inRun (firstTurn body)" "\<forall>m. firstTurn body \<noteq> AwaitRun m"
    by (auto simp: firstTurn_def split: option.splits)
  show ?thesis
    using ok pc unfolding serverOk_def arrive_def by (auto simp: nth_append less_Suc_eq)
qed

lemma tstep_ok: "tstep s s' \<Longrightarrow> serverOk s \<Longrightarrow> serverOk s'"
proof (erule tstepE)
  fix n inp assume ok: "serverOk s" and adv: "advance n inp s = Some s'"
  then have n: "n < length (tq_reqs s)"
    and t: "turn n (rq_case (tq_reqs s ! n)) (rq_pc (tq_reqs s ! n)) inp s = Some s'"
    by (auto simp: advance_def split: if_splits)
  from turn_effect [OF t] show "serverOk s'" using serverOk_turn [OF ok n] by blast
qed (simp add: serverOk_arrive)

lemma reach_ok: "tstep\<^sup>*\<^sup>* s s' \<Longrightarrow> serverOk s \<Longrightarrow> serverOk s'"
  by (induction rule: rtranclp_induct) (auto intro: tstep_ok)

lemma serverOk_init: "repoOk r \<Longrightarrow> serverOk (triageInit r)"
  by (simp add: serverOk_def triageInit_def dictGet_def)

lemma reachable_ok: "repoOk r \<Longrightarrow> tstep\<^sup>*\<^sup>* (triageInit r) s \<Longrightarrow> serverOk s"
  by (blast intro: reach_ok serverOk_init)

subsection \<open>One request left alone\<close>

text \<open>The last request to arrive, its case, its place and the state of the rest.\<close>

definition atLast :: "request list \<Rightarrow> string \<Rightarrow> pc \<Rightarrow> triage_server \<Rightarrow> bool" where
  "atLast xs c p s \<longleftrightarrow> tq_reqs s = xs @ [\<lparr>rq_case = c, rq_pc = p\<rparr>]"

lemma advance_last: "atLast xs c p s \<Longrightarrow> advance (length xs) inp s = turn (length xs) c p inp s"
  by (simp add: advance_def atLast_def)

lemma atLast_setPc: "atLast xs c p s \<Longrightarrow> atLast xs c q (setPc (length xs) q s)"
  by (simp add: atLast_def)

lemma atLast_other [simp]:
  "atLast xs c p (setRepo r s) = atLast xs c p s" "atLast xs c p (settleRun n res s) = atLast xs c p s"
  "atLast xs c p (registerRun c' n s) = atLast xs c p s" "atLast xs c p (dropRun c' s) = atLast xs c p s"
  "atLast xs c p (cacheResult c' d s) = atLast xs c p s"
  by (simp_all add: atLast_def)

lemma schema_ready: "rp_schema r = SchemaReady \<Longrightarrow> ensureCaseSchema fs r = (Inr (), r)"
  by (simp add: ensureCaseSchema_def)

lemma ready_statements:
  assumes "rp_schema r = SchemaReady"
  shows "getCase c fs None r = (Inr (dictGet (rp_cases r) c), r)"
    and "\<exists>r'. upsertCaseSnapshot c None (Obj a) b d t fs None r = (Inr (), r') \<and> rp_schema r' = SchemaReady"
    and "\<exists>r'. markTriageRunning c t fs None r = (Inr (), r') \<and> rp_schema r' = SchemaReady"
    and "\<exists>r'. markTriageComplete c v t fs None r = (Inr (), r') \<and> rp_schema r' = SchemaReady"
    and "\<exists>r'. markTriageFailed c m t fs None r = (Inr (), r') \<and> rp_schema r' = SchemaReady"
  using assms
  by (auto simp: getCase_def upsertCaseSnapshot_def markTriageRunning_def markTriageComplete_def markTriageFailed_def
      updateCase_def dbStatement_def schema_ready notNull_def split: option.splits)

text \<open>The events of a POST up to the registration of its run: arrival, look-up, the baseline's answer (which
  no turn consumes when the baseline is not asked for) and the snapshot.\<close>

definition startEvents :: "nat \<Rightarrow> string \<Rightarrow> jsval option \<Rightarrow> fetched \<Rightarrow> int \<Rightarrow> int \<Rightarrow> event list" where
  "startEvents n c body fb t1 t2 =
     [Arrival c body, Turn n (DbCase None None), Turn n (Fetched fb), Turn n (DbWrite t1 None None),
      Turn n (DbWrite t2 None None)]"

lemma start_reaches_orchestrator:
  assumes ready: "rp_schema (tq_repo s) = SchemaReady"
    and body: "jsFieldE ''alert'' body = Some al" "truthy al"
    and fresh: "persistedVerdict (dictGet (rp_cases (tq_repo s)) c) = None" "cachedVerdict (tq_cache s) c = None"
      "dictGet (tq_inflight s) c = None"
    and s': "s' = fold serve (startEvents (length (tq_reqs s)) c (Some body) fb t1 t2) s"
  shows "atLast (tq_reqs s) c (AwaitOrchestrator (enrichAlert fb (spreadObject al))) s' \<and>
    rp_schema (tq_repo s') = SchemaReady \<and> tq_cache s' = tq_cache s \<and>
    (\<exists>r1. upsertCaseSnapshot c None (Obj (enrichAlert fb (spreadObject al))) Null Undef t1 None None (tq_repo s) = (Inr (), r1) \<and>
       markTriageRunning c t2 None None r1 = (Inr (), tq_repo s'))"
proof -
  let ?xs = "tq_reqs s" and ?n = "length (tq_reqs s)"
  let ?l = "localFeatures (spreadObject al)" and ?e = "enrichAlert fb (spreadObject al)"
  let ?s1 = "arrive c (Some body) s"
  have l1: "atLast ?xs c (AwaitCase al) ?s1"
    using body by (simp add: atLast_def arrive_def firstTurn_def)
  have p1: "tq_repo ?s1 = tq_repo s" "tq_cache ?s1 = tq_cache s" "tq_inflight ?s1 = tq_inflight s"
    by (simp_all add: arrive_def)
  let ?q = "if baselineQuery ?l = None then AwaitSnapshot ?l else AwaitBaseline ?l"
  let ?s2 = "setPc ?n ?q (setRepo (tq_repo s) ?s1)"
  have s2: "serve (Turn ?n (DbCase None None)) ?s1 = ?s2"
    using advance_last [OF l1] ready_statements(1) [OF ready] fresh p1
    by (auto simp: startTurn_def Let_def split: option.splits)
  have l2: "atLast ?xs c ?q ?s2" using atLast_setPc [of ?xs c "AwaitCase al"] l1 by simp
  define s3 where "s3 = serve (Turn ?n (Fetched fb)) ?s2"
  have l3: "atLast ?xs c (AwaitSnapshot ?e) s3" and p3: "tq_repo s3 = tq_repo s" "tq_cache s3 = tq_cache s"
    using advance_last [OF l2] l2 atLast_setPc [OF l2] p1
    by (auto simp: s3_def enrichAlert_def withBaseline_def split: option.splits)
  obtain r1 where r1: "upsertCaseSnapshot c None (Obj ?e) Null Undef t1 None None (tq_repo s) = (Inr (), r1)"
    and ready1: "rp_schema r1 = SchemaReady"
    using ready_statements(2) [OF ready] by blast
  let ?s4 = "registerRun c ?n (setPc ?n (AwaitRunning ?e) (setRepo r1 s3))"
  have s4: "serve (Turn ?n (DbWrite t1 None None)) s3 = ?s4"
    using advance_last [OF l3] r1 p3 by simp
  have l4: "atLast ?xs c (AwaitRunning ?e) ?s4" using atLast_setPc [of ?xs c "AwaitSnapshot ?e"] l3 by simp
  obtain r2 where r2: "markTriageRunning c t2 None None r1 = (Inr (), r2)" and ready2: "rp_schema r2 = SchemaReady"
    using ready_statements(3) [OF ready1] by blast
  let ?s5 = "setPc ?n (AwaitOrchestrator ?e) (setRepo r2 ?s4)"
  have s5: "serve (Turn ?n (DbWrite t2 None None)) ?s4 = ?s5"
    using advance_last [OF l4] r2 by simp
  have l5: "atLast ?xs c (AwaitOrchestrator ?e) ?s5" using atLast_setPc [of ?xs c "AwaitRunning ?e"] l4 by simp
  have "s' = ?s5"
    unfolding s' startEvents_def using s2 s4 s5 by (simp add: s3_def)
  then show ?thesis using l5 r1 r2 ready2 p3 by auto
qed

text \<open>A POST left alone runs its three statements and settles.\<close>

lemma post_settles:
  assumes ready: "rp_schema (tq_repo s) = SchemaReady"
    and body: "jsFieldE ''alert'' body = Some al" "truthy al"
    and fresh: "persistedVerdict (dictGet (rp_cases (tq_repo s)) c) = None" "cachedVerdict (tq_cache s) c = None"
      "dictGet (tq_inflight s) c = None"
    and upstream: "okStatus st" "truthy d"
    and s': "s' = fold serve (startEvents (length (tq_reqs s)) c (Some body) fb t1 t2 @
      [Turn (length (tq_reqs s)) (Fetched (Answer st (Some d) txt)), Turn (length (tq_reqs s)) (DbWrite t3 None None)]) s"
  shows "rq_pc (tq_reqs s' ! length (tq_reqs s)) = Done (respond 200 d) \<and> dictGet (tq_inflight s') c = None \<and>
    rp_schema (tq_repo s') = SchemaReady \<and>
    (\<exists>r1 r2. upsertCaseSnapshot c None (Obj (enrichAlert fb (spreadObject al))) Null Undef t1 None None (tq_repo s) = (Inr (), r1) \<and>
       markTriageRunning c t2 None None r1 = (Inr (), r2) \<and> markTriageComplete c d t3 None None r2 = (Inr (), tq_repo s'))"
proof -
  let ?xs = "tq_reqs s" and ?n = "length (tq_reqs s)" and ?e = "enrichAlert fb (spreadObject al)"
  define s5 where "s5 = fold serve (startEvents ?n c (Some body) fb t1 t2) s"
  from start_reaches_orchestrator [OF ready body fresh s5_def]
  obtain r1 where l5: "atLast ?xs c (AwaitOrchestrator ?e) s5" and ready5: "rp_schema (tq_repo s5) = SchemaReady"
    and r1: "upsertCaseSnapshot c None (Obj ?e) Null Undef t1 None None (tq_repo s) = (Inr (), r1)"
    and r2: "markTriageRunning c t2 None None r1 = (Inr (), tq_repo s5)" by blast
  let ?s6 = "settleRun ?n (RunData d) (setPc ?n (AwaitComplete d) s5)"
  have s6: "serve (Turn ?n (Fetched (Answer st (Some d) txt))) s5 = ?s6"
    using advance_last [OF l5] upstream by simp
  have l6: "atLast ?xs c (AwaitComplete d) ?s6" using atLast_setPc [OF l5] by simp
  obtain r3 where r3: "markTriageComplete c d t3 None None (tq_repo s5) = (Inr (), r3)" and ready3: "rp_schema r3 = SchemaReady"
    using ready_statements(4) [OF ready5] by blast
  let ?s7 = "dropRun c (cacheResult c d (setPc ?n (Done (respond 200 d)) (setRepo r3 ?s6)))"
  have s7: "serve (Turn ?n (DbWrite t3 None None)) ?s6 = ?s7"
    using advance_last [OF l6] r3 by simp
  have s's7: "s' = ?s7" unfolding s' using s6 s7 by (simp add: s5_def)
  have "atLast ?xs c (Done (respond 200 d)) s'"
    unfolding s's7 using atLast_setPc [of ?xs c "AwaitComplete d"] l6 by simp
  then have "rq_pc (tq_reqs s' ! ?n) = Done (respond 200 d)" by (simp add: atLast_def)
  moreover have "tq_repo s' = r3" "dictGet (tq_inflight s') c = None" unfolding s's7 by (simp_all add: dictGet_del)
  ultimately show ?thesis using r1 r2 r3 ready3 by blast
qed

section \<open>Properties\<close>

text \<open>C1: a POST left alone triages the case to the end: the orchestrator's verdict is the answer, the row is
  complete and holds the verdict and the enriched alert, no run stays in flight, other cases are as before,
  and a later POST for the case is answered with the same verdict by its first look-up.\<close>

theorem triage_post_completes:
  assumes ready: "rp_schema (tq_repo s) = SchemaReady"
    and body: "jsFieldE ''alert'' body = Some al" "truthy al"
    and fresh: "persistedVerdict (dictGet (rp_cases (tq_repo s)) c) = None" "cachedVerdict (tq_cache s) c = None"
      "dictGet (tq_inflight s) c = None"
    and upstream: "okStatus st" "truthy d"
    and s': "s' = fold serve (startEvents (length (tq_reqs s)) c (Some body) fb t1 t2 @
      [Turn (length (tq_reqs s)) (Fetched (Answer st (Some d) txt)), Turn (length (tq_reqs s)) (DbWrite t3 None None)]) s"
  shows "rq_pc (tq_reqs s' ! length (tq_reqs s)) = Done (respond 200 d) \<and> dictGet (tq_inflight s') c = None \<and>
    (\<exists>row. dictGet (rp_cases (tq_repo s')) = (dictGet (rp_cases (tq_repo s)))(c \<mapsto> row) \<and>
       cr_triage_status row = TComplete \<and> cr_verdict row = d \<and>
       cr_event row = Obj (enrichAlert fb (spreadObject al))) \<and>
    (\<forall>al'. startTurn c al' (dictGet (rp_cases (tq_repo s')) c) s' = Done (respond 200 d))"
proof -
  let ?e = "enrichAlert fb (spreadObject al)"
  from post_settles [OF ready body fresh upstream s'] obtain r1 r2
    where fin: "rq_pc (tq_reqs s' ! length (tq_reqs s)) = Done (respond 200 d)" "dictGet (tq_inflight s') c = None"
      and r: "upsertCaseSnapshot c None (Obj ?e) Null Undef t1 None None (tq_repo s) = (Inr (), r1)"
        "markTriageRunning c t2 None None r1 = (Inr (), r2)" "markTriageComplete c d t3 None None r2 = (Inr (), tq_repo s')"
    by blast
  obtain row where row: "dictGet (rp_cases (tq_repo s')) = (dictGet (rp_cases (tq_repo s)))(c \<mapsto> row)"
    "cr_triage_status row = TComplete" "cr_verdict row = d" "cr_event row = Obj ?e"
    using case_db.completed_row [of c "Obj ?e" Null Undef t1 "(None, None)" "tq_repo s" r1 t2 "(None, None)" r2
        d t3 "(None, None)" "tq_repo s'"] r truthy_nullish [OF upstream(2)] by auto
  then have "startTurn c al' (dictGet (rp_cases (tq_repo s')) c) s' = Done (respond 200 d)" for al'
    using upstream(2) by (simp add: startTurn_def persistedVerdict_def)
  with fin row show ?thesis by auto
qed

definition sampleBody :: jsval where
  "sampleBody = Obj [(''alert'', Obj [(''severity'', Str ''High'')])]"

definition sampleVerdict :: jsval where
  "sampleVerdict = Obj [(''verdict'', Str ''benign'')]"

theorem triage_post_completes_witness:
  "rq_pc (tq_reqs (fold serve (startEvents 0 ''c'' (Some sampleBody) (Rejected []) 1 2 @
     [Turn 0 (Fetched (Answer 200 (Some sampleVerdict) [])), Turn 0 (DbWrite 3 None None)])
       (triageInit sampleRepo)) ! 0) = Done (respond 200 sampleVerdict)"
proof -
  have h: "rp_schema (tq_repo (triageInit sampleRepo)) = SchemaReady"
      "jsFieldE ''alert'' sampleBody = Some (Obj [(''severity'', Str ''High'')])"
      "persistedVerdict (dictGet (rp_cases (tq_repo (triageInit sampleRepo))) ''c'') = None"
      "cachedVerdict (tq_cache (triageInit sampleRepo)) ''c'' = None"
      "dictGet (tq_inflight (triageInit sampleRepo)) ''c'' = None"
    by (simp_all add: triageInit_def sampleRepo_def sampleBody_def jsFieldE_def dictGet_def insertedCase_def
        persistedVerdict_def cachedVerdict_def)
  show ?thesis
    using triage_post_completes [OF h(1) h(2) _ h(3) h(4) h(5), of 200 sampleVerdict _ "Rejected []" 1 2 "[]" 3] by (simp add: okStatus_def sampleVerdict_def triageInit_def)
qed

text \<open>C5: a POST whose orchestrator call fails (is refused, has an error status, or a body that is not JSON) is
  answered with 502 and the reason, leaves the row failed with
  that reason, and leaves neither a cached result nor a run in flight, so the next POST may try again.\<close>

theorem triage_post_fails:
  assumes ready: "rp_schema (tq_repo s) = SchemaReady"
    and body: "jsFieldE ''alert'' body = Some al" "truthy al"
    and fresh: "persistedVerdict (dictGet (rp_cases (tq_repo s)) c) = None" "cachedVerdict (tq_cache s) c = None"
      "dictGet (tq_inflight s) c = None"
    and failing: "f = Rejected m \<or> (\<exists>st d txt. f = Answer st d txt \<and> \<not> okStatus st \<and> m = ''Orchestrator returned '' @ natStr st) \<or>
      (\<exists>st. f = Answer st None m \<and> okStatus st)"
    and s': "s' = fold serve (startEvents (length (tq_reqs s)) c (Some body) fb t1 t2 @
      [Turn (length (tq_reqs s)) (Fetched f), Turn (length (tq_reqs s)) (DbWrite t3 None None)]) s"
  shows "rq_pc (tq_reqs s' ! length (tq_reqs s)) = Done (respond 502 (errorBody m)) \<and>
    dictGet (tq_inflight s') c = None \<and> cachedVerdict (tq_cache s') c = None \<and>
    (\<exists>row. dictGet (rp_cases (tq_repo s')) = (dictGet (rp_cases (tq_repo s)))(c \<mapsto> row) \<and>
       cr_triage_status row = TFailed \<and> cr_error row = Some m) \<and>
    persistedVerdict (dictGet (rp_cases (tq_repo s')) c) = None"
proof -
  let ?xs = "tq_reqs s" and ?n = "length (tq_reqs s)" and ?e = "enrichAlert fb (spreadObject al)"
  have upstream: "runResult f = RunError m" using failing by auto
  define s5 where "s5 = fold serve (startEvents ?n c (Some body) fb t1 t2) s"
  from start_reaches_orchestrator [OF ready body fresh s5_def]
  obtain r1 where l5: "atLast ?xs c (AwaitOrchestrator ?e) s5" and ready5: "rp_schema (tq_repo s5) = SchemaReady"
    and cache5: "tq_cache s5 = tq_cache s"
    and r1: "upsertCaseSnapshot c None (Obj ?e) Null Undef t1 None None (tq_repo s) = (Inr (), r1)"
    and r2: "markTriageRunning c t2 None None r1 = (Inr (), tq_repo s5)" by blast
  let ?s6 = "settleRun ?n (RunError m) (setPc ?n (AwaitFailed m) s5)"
  have s6: "serve (Turn ?n (Fetched f)) s5 = ?s6"
    using advance_last [OF l5] upstream by simp
  have l6: "atLast ?xs c (AwaitFailed m) ?s6" using atLast_setPc [OF l5] by simp
  obtain r3 where r3: "markTriageFailed c m t3 None None (tq_repo s5) = (Inr (), r3)"
    using ready_statements(5) [OF ready5] by blast
  let ?s7 = "dropRun c (setPc ?n (Done (respond 502 (errorBody m))) (setRepo r3 ?s6))"
  have s7: "serve (Turn ?n (DbWrite t3 None None)) ?s6 = ?s7"
    using advance_last [OF l6] r3 by simp
  have s's7: "s' = ?s7" unfolding s' using s6 s7 by (simp add: s5_def)
  have "atLast ?xs c (Done (respond 502 (errorBody m))) s'"
    unfolding s's7 using atLast_setPc [of ?xs c "AwaitFailed m"] l6 by simp
  then have pc: "rq_pc (tq_reqs s' ! ?n) = Done (respond 502 (errorBody m))" by (simp add: atLast_def)
  obtain row where row: "dictGet (rp_cases r3) = (dictGet (rp_cases (tq_repo s)))(c \<mapsto> row)"
    "cr_triage_status row = TFailed" "cr_error row = Some m"
    using case_db.failed_row [of c "Obj ?e" Null Undef t1 "(None, None)" "tq_repo s" r1 t2 "(None, None)" "tq_repo s5"
        m t3 "(None, None)" r3] r1 r2 r3 by auto
  have "tq_repo s' = r3" "tq_cache s' = tq_cache s" unfolding s's7 by (simp_all add: cache5)
  then show ?thesis
    using pc row fresh(2) by (auto simp: s's7 dictGet_del persistedVerdict_def)
qed

theorem triage_post_fails_witness:
  "rq_pc (tq_reqs (fold serve (startEvents 0 ''c'' (Some sampleBody) (Rejected []) 1 2 @
     [Turn 0 (Fetched (Rejected ''down'')), Turn 0 (DbWrite 3 None None)])
       (triageInit sampleRepo)) ! 0) = Done (respond 502 (errorBody ''down''))"
proof -
  have h: "rp_schema (tq_repo (triageInit sampleRepo)) = SchemaReady"
      "jsFieldE ''alert'' sampleBody = Some (Obj [(''severity'', Str ''High'')])"
      "persistedVerdict (dictGet (rp_cases (tq_repo (triageInit sampleRepo))) ''c'') = None"
      "cachedVerdict (tq_cache (triageInit sampleRepo)) ''c'' = None"
      "dictGet (tq_inflight (triageInit sampleRepo)) ''c'' = None"
    by (simp_all add: triageInit_def sampleRepo_def sampleBody_def jsFieldE_def dictGet_def insertedCase_def
        persistedVerdict_def cachedVerdict_def)
  show ?thesis
    using triage_post_fails [OF h(1) h(2) _ h(3) h(4) h(5), of "Rejected ''down''" "''down''" _ "Rejected []" 1 2 3] by (simp add: triageInit_def)
qed

lemma advance_enabled:
  assumes "n < length (tq_reqs s)" and "rank (rq_pc (tq_reqs s ! n)) > 0" and "\<forall>m. rq_pc (tq_reqs s ! n) \<noteq> AwaitRun m"
  shows "\<exists>inp s'. advance n inp s = Some s'"
proof -
  have some: "\<exists>s'. (case x of (Inl a, r) \<Rightarrow> Some (f a r) | (Inr b, r) \<Rightarrow> Some (g b r)) = Some s'" for x f g
    by (cases x; cases "fst x") auto
  have settle: "\<exists>s'. (case runResult f of RunPending \<Rightarrow> None | RunData d \<Rightarrow> Some (g d) | RunError m \<Rightarrow> Some (h m)) = Some s'" for f g h
    using runResult_settled [of f] by (cases "runResult f") auto
  show ?thesis
  proof (cases "rq_pc (tq_reqs s ! n)")
    case (AwaitCase al)
    then show ?thesis using assms(1) some by (intro exI [of _ "DbCase None None"]) (simp add: advance_def)
  next
    case (AwaitBaseline a)
    then show ?thesis using assms(1) by (intro exI [of _ "Fetched (Rejected [])"]) (simp add: advance_def)
  next
    case (AwaitOrchestrator a)
    then show ?thesis using assms(1) settle by (intro exI [of _ "Fetched (Rejected [])"]) (simp add: advance_def)
  qed (use assms in \<open>auto simp: advance_def intro!: exI [of _ "DbWrite 0 None None"] split: prod.splits sum.splits\<close>)
qed

text \<open>C3: no request is ever stuck: in every reachable state a request that has not been answered can take a
  turn itself, or it waits for the run of another request on the same case and that request can.\<close>

theorem triage_never_stuck:
  assumes "repoOk r" and "tstep\<^sup>*\<^sup>* (triageInit r) s" and n: "n < length (tq_reqs s)"
    and open_n: "rank (rq_pc (tq_reqs s ! n)) > 0"
  shows "(\<exists>inp s'. advance n inp s = Some s') \<or>
    (\<exists>m inp s'. rq_pc (tq_reqs s ! n) = AwaitRun m \<and> m < length (tq_reqs s) \<and>
       rq_case (tq_reqs s ! m) = rq_case (tq_reqs s ! n) \<and> advance m inp s = Some s')"
proof (cases "\<exists>m. rq_pc (tq_reqs s ! n) = AwaitRun m")
  case False
  then show ?thesis using advance_enabled [OF n open_n] by blast
next
  case True
  then obtain m where m: "rq_pc (tq_reqs s ! n) = AwaitRun m" by blast
  have "serverOk s" using assms(1,2) by (rule reachable_ok)
  then have here: "m < length (tq_reqs s)" "rq_case (tq_reqs s ! m) = rq_case (tq_reqs s ! n)"
    and pend: "tq_runs s m = RunPending \<longrightarrow> unsettled (rq_pc (tq_reqs s ! m))"
    using n m by (auto simp: serverOk_def)
  show ?thesis
  proof (cases "tq_runs s m = RunPending")
    case True
    with pend have "unsettled (rq_pc (tq_reqs s ! m))" by simp
    then have "rank (rq_pc (tq_reqs s ! m)) > 0" "\<forall>k. rq_pc (tq_reqs s ! m) \<noteq> AwaitRun k"
      by (auto simp: unsettled_def)
    from advance_enabled [OF here(1) this] show ?thesis using m here by blast
  next
    case False
    then have "\<exists>s'. advance n RunSettled s = Some s'"
      using n m by (cases "tq_runs s m") (auto simp: advance_def)
    then show ?thesis by blast
  qed
qed

theorem triage_never_stuck_witness:
  "\<exists>inp s'. advance 0 inp (arrive ''c'' (Some sampleBody) (triageInit emptyRepo)) = Some s'"
proof -
  let ?s = "arrive ''c'' (Some sampleBody) (triageInit emptyRepo)"
  have reach: "tstep\<^sup>*\<^sup>* (triageInit emptyRepo) ?s" by (blast intro: tstep.arrival)
  have pc: "rq_pc (tq_reqs ?s ! 0) = AwaitCase (Obj [(''severity'', Str ''High'')])"
    by (simp add: arrive_def triageInit_def firstTurn_def sampleBody_def jsFieldE_def dictGet_def)
  have "0 < length (tq_reqs ?s)" by (simp add: arrive_def)
  from triage_never_stuck [OF repoOk_empty reach this] show ?thesis using pc by simp
qed

definition work :: "triage_server \<Rightarrow> nat" where
  "work s = sum_list (map (\<lambda>q. rank (rq_pc q)) (tq_reqs s))"




text \<open>A finished look-up of request 1 between the look-up and the registration of request 0.\<close>

definition racingEvents :: "event list" where
  "racingEvents = [Arrival ''c'' (Some sampleBody), Arrival ''c'' (Some sampleBody),
     Turn 0 (DbCase None None), Turn 1 (DbCase None None),
     Turn 0 (DbWrite 1 None None), Turn 0 (DbWrite 2 None None),
     Turn 1 (DbWrite 3 None None), Turn 1 (DbWrite 4 None None)]"

definition investigating :: "string \<Rightarrow> triage_server \<Rightarrow> nat" where
  "investigating c s = length (filter (\<lambda>q. rq_case q = c \<and> (case rq_pc q of AwaitOrchestrator _ \<Rightarrow> True | _ \<Rightarrow> False))
     (tq_reqs s))"

lemma sample_no_query: "baselineQuery (localFeatures [(''severity'', Str ''High'')]) = None"
proof -
  have "fieldOf (localFeatures [(''severity'', Str ''High'')]) ''actor_user_name'' =
      fieldOf [(''severity'', Str ''High'')] ''actor_user_name''"
    by (simp add: localFeatures_def fields_other fieldOf_defaults_other featureKeys_def)
  also have "\<dots> = Undef" by (simp add: fieldOf_def dictGet_def)
  finally show ?thesis by (simp add: baselineQuery_def)
qed

lemmas sample_run = serve.simps advance_def arrive_def triageInit_def sampleRepo_def firstTurn_def sampleBody_def
  jsFieldE_def dictGet_def getCase_def dbStatement_def ensureCaseSchema_def startTurn_def persistedVerdict_def
  cachedVerdict_def insertedCase_def sample_no_query setPc_def setRepo_def registerRun_def settleRun_def
  upsertCaseSnapshot_def markTriageRunning_def updateCase_def notNull_def

text \<open>Nevertheless the process may run two investigations of one case at once: the in-flight map is read
  before the baseline request and the snapshot are awaited and written after them, so two requests that
  look the case up in that window both reach the orchestrator.\<close>

theorem duplicate_investigation:
  "\<exists>s. tstep\<^sup>*\<^sup>* (triageInit sampleRepo) s \<and> investigating ''c'' s = 2"
proof -
  let ?s = "fold serve racingEvents (triageInit sampleRepo)"
  have "investigating ''c'' ?s = 2"
    by (simp add: racingEvents_def sample_run investigating_def)
  then show ?thesis using serve_reach by blast
qed

definition joinEvents :: "event list" where
  "joinEvents = [Arrival ''c'' (Some sampleBody), Turn 0 (DbCase None None), Turn 0 (DbWrite 1 None None),
     Arrival ''c'' (Some sampleBody)]"


end
