(* ===== verification/Rate_Limit.thy ===== *)
theory Rate_Limit
  imports Js_Value
begin

text \<open>
  The in-memory limiter \<open>rateLimited\<close> that \<open>app/api/demo/run/route.ts\<close> and \<open>app/api/waitlist/route.ts\<close>
  each declare with their own constants: a map from a key (a client address, or \<open>*\<close> for all) to the
  times of its recent requests. Its specification is a limiter that keeps the whole log of admitted
  requests and counts; the locale \<open>window_limiter\<close> states what follows from counting alone.
\<close>

section \<open>Model\<close>

type_synonym hits = "int list dict"

definition timesAt :: "hits \<Rightarrow> string \<Rightarrow> int list" where
  "timesAt h k = (case dictGet h k of None \<Rightarrow> [] | Some ts \<Rightarrow> ts)"

definition recent :: "int \<Rightarrow> int \<Rightarrow> int list \<Rightarrow> int list" where
  "recent window now ts = filter (\<lambda>t. now - t < window) ts"

definition rateLimited :: "int \<Rightarrow> nat \<Rightarrow> nat \<Rightarrow> int \<Rightarrow> string \<Rightarrow> hits \<Rightarrow> bool \<times> hits" where
  "rateLimited window perIp cap now ip h =
     (let mine = recent window now (timesAt h ip); all = recent window now (timesAt h ''*'')
      in if perIp \<le> length mine \<or> cap \<le> length all then (True, h)
         else let h' = dictPut ''*'' (all @ [now]) (dictPut ip (mine @ [now]) h)
              in (False, if length h' > 10000 then [] else h'))"

definition demoLimited :: "int \<Rightarrow> string \<Rightarrow> hits \<Rightarrow> bool \<times> hits" where
  "demoLimited = rateLimited 60000 5 60"

definition waitlistLimited :: "int \<Rightarrow> string \<Rightarrow> hits \<Rightarrow> bool \<times> hits" where
  "waitlistLimited = rateLimited (60 * 60 * 1000) 3 30"

text \<open>\<open>req.headers.get("x-forwarded-for")?.split(",")[0]?.trim() || "unknown"\<close>.\<close>

definition clientIp :: "string option \<Rightarrow> string" where
  "clientIp fwd = orStr (map_option (\<lambda>s. trim (hd (splitChar CHR '','' s))) fwd) ''unknown''"

text \<open>The requests \<open>(time, address)\<close> that are let through, oldest first, and the map afterwards.\<close>

fun admitted :: "(int \<Rightarrow> string \<Rightarrow> 's \<Rightarrow> bool \<times> 's) \<Rightarrow> (int \<times> string) list \<Rightarrow> 's \<Rightarrow> (int \<times> string) list \<times> 's" where
  "admitted gate [] h = ([], h)"
| "admitted gate ((t, ip) # rs) h =
     (case gate t ip h of
        (True, h') \<Rightarrow> admitted gate rs h'
      | (False, h') \<Rightarrow> (case admitted gate rs h' of (past, h'') \<Rightarrow> ((t, ip) # past, h'')))"

section \<open>Specification\<close>

definition timesOf :: "(int \<times> string) list \<Rightarrow> string \<Rightarrow> int list" where
  "timesOf past k = map fst (filter (\<lambda>(_, ip). k = ''*'' \<or> ip = k) past)"

text \<open>The limiter that remembers every admitted request.\<close>

definition logLimited :: "int \<Rightarrow> nat \<Rightarrow> nat \<Rightarrow> int \<Rightarrow> string \<Rightarrow> (int \<times> string) list \<Rightarrow> bool \<times> (int \<times> string) list" where
  "logLimited window perIp cap now ip past =
     (if perIp \<le> length (recent window now (timesOf past ip)) \<or> cap \<le> length (recent window now (timesOf past ''*''))
      then (True, past) else (False, past @ [(now, ip)]))"

section \<open>Facts on the specification\<close>

text \<open>No window ending at an admitted request holds more admitted requests than the caps allow.\<close>

definition withinCaps :: "int \<Rightarrow> nat \<Rightarrow> nat \<Rightarrow> (int \<times> string) list \<Rightarrow> bool" where
  "withinCaps window perIp cap past \<longleftrightarrow> (\<forall>us now ip vs. past = us @ (now, ip) # vs \<longrightarrow>
     length (recent window now (timesOf (us @ [(now, ip)]) ip)) \<le> perIp \<and>
     length (recent window now (timesOf (us @ [(now, ip)]) ''*'')) \<le> cap)"

lemma within_snoc:
  assumes "withinCaps window perIp cap past" and "length (recent window now (timesOf past ip)) < perIp"
    and "length (recent window now (timesOf past ''*'')) < cap"
  shows "withinCaps window perIp cap (past @ [(now, ip)])"
proof -
  have "length (recent window now (timesOf (past @ [(now, ip)]) k)) \<le> Suc (length (recent window now (timesOf past k)))" for k
    by (simp add: timesOf_def recent_def)
  from this [of ip] this [of "''*''"]
  have new: "length (recent window now (timesOf (past @ [(now, ip)]) ip)) \<le> perIp"
    "length (recent window now (timesOf (past @ [(now, ip)]) ''*'')) \<le> cap"
    using assms(2,3) by linarith+
  show ?thesis
    unfolding withinCaps_def
  proof (intro allI impI)
    fix us t j vs assume eq: "past @ [(now, ip)] = us @ (t, j) # vs"
    show "length (recent window t (timesOf (us @ [(t, j)]) j)) \<le> perIp \<and>
      length (recent window t (timesOf (us @ [(t, j)]) ''*'')) \<le> cap"
    proof (cases vs rule: rev_cases)
      case Nil
      then show ?thesis using eq new by simp
    next
      case (snoc ws x)
      then have "past = us @ (t, j) # ws" using eq by simp
      then show ?thesis using assms(1) by (auto simp: withinCaps_def)
    qed
  qed
qed

lemma logLimited_within:
  "withinCaps window perIp cap past \<Longrightarrow> withinCaps window perIp cap (snd (logLimited window perIp cap now ip past))"
  by (auto simp: logLimited_def intro: within_snoc)

section \<open>The map refines the log\<close>

lemma recent_later: "now \<le> now' \<Longrightarrow> recent w now' (recent w now ts) = recent w now' ts"
  by (auto simp: recent_def intro!: filter_cong)

lemma recent_append [simp]: "recent w now (us @ vs) = recent w now us @ recent w now vs"
  by (simp add: recent_def)

lemma recent_Nil [simp]: "recent w now [] = []"
  by (simp add: recent_def)

lemma timesOf_snoc: "timesOf (past @ [(t, ip)]) k = timesOf past k @ (if k = ''*'' \<or> ip = k then [t] else [])"
  by (simp add: timesOf_def)

lemma timesAt_put: "timesAt (dictPut k ts h) j = (if j = k then ts else timesAt h j)"
  by (simp add: timesAt_def dictGet_put)

text \<open>From time \<open>now\<close> on, the map answers every count the way the past does; its keys are addresses seen.\<close>

definition reflects :: "int \<Rightarrow> string set \<Rightarrow> int \<Rightarrow> hits \<Rightarrow> (int \<times> string) list \<Rightarrow> bool" where
  "reflects w ips now h past \<longleftrightarrow> wf_dict h \<and> set (dictKeys h) \<subseteq> insert ''*'' ips \<and>
     (\<forall>now' \<ge> now. \<forall>k. recent w now' (timesAt h k) = recent w now' (timesOf past k))"

lemma reflects_step:
  assumes R: "reflects w ips t0 h past" and le: "t0 \<le> now" and ip: "ip \<in> ips" "ip \<noteq> ''*''"
    and ips: "finite ips" "card ips < 10000"
  shows "fst (rateLimited w p g now ip h) = fst (logLimited w p g now ip past) \<and>
    reflects w ips now (snd (rateLimited w p g now ip h)) (snd (logLimited w p g now ip past))"
proof -
  have same: "recent w now' (timesAt h k) = recent w now' (timesOf past k)" if "t0 \<le> now'" for now' k
    using R that by (simp add: reflects_def)
  let ?mine = "recent w now (timesAt h ip)" and ?all = "recent w now (timesAt h ''*'')"
  let ?h = "dictPut ''*'' (?all @ [now]) (dictPut ip (?mine @ [now]) h)"
  have keys: "set (dictKeys ?h) \<subseteq> insert ''*'' ips" and wf: "wf_dict ?h"
    using R ip by (auto simp: reflects_def dictKeys_put js_dict.wf_put split: if_splits)
  have "length ?h = card (set (dictKeys ?h))"
    using wf by (simp add: wf_dict_def distinct_card)
  also have "\<dots> \<le> card (insert ''*'' ips)" using keys ips by (intro card_mono) auto
  also have "\<dots> \<le> 10000" using ips card_insert_le_m1 [of 10000 ips "''*''"] by simp
  finally have small: "\<not> length ?h > 10000" by simp
  have look: "recent w now' (timesAt ?h k) = recent w now' (timesOf (past @ [(now, ip)]) k)" if "now \<le> now'" for now' k
    using same [of now' k] le that ip(2) recent_later [OF that]
    by (auto simp: timesAt_put timesOf_snoc)
  have keep: "reflects w ips now h past"
    using R le by (auto simp: reflects_def)
  show ?thesis
    using same [OF le, of ip] same [OF le, of "''*''"] keep look keys wf small
    by (auto simp: rateLimited_def logLimited_def Let_def reflects_def)
qed

lemma admitted_reflects:
  assumes "reflects w ips t0 h past" and "sorted (map fst rs)" and "\<forall>(t, ip) \<in> set rs. t0 \<le> t \<and> ip \<in> ips \<and> ip \<noteq> ''*''"
    and ips: "finite ips" "card ips < 10000"
  shows "fst (admitted (rateLimited w p g) rs h) = fst (admitted (logLimited w p g) rs past)"
  using assms(1-3)
proof (induction rs arbitrary: t0 h past)
  case (Cons r rs)
  obtain t ip where r: "r = (t, ip)" by fastforce
  obtain b h' where l: "rateLimited w p g t ip h = (b, h')" by fastforce
  obtain b' past' where l': "logLimited w p g t ip past = (b', past')" by fastforce
  have step: "b = b' \<and> reflects w ips t h' past'"
    using reflects_step [OF Cons.prems(1) _ _ _ ips, of t ip p g] Cons.prems r l l' by simp
  have "fst (admitted (rateLimited w p g) rs h') = fst (admitted (logLimited w p g) rs past')"
    using step Cons.prems r by (intro Cons.IH [of t]) auto
  then show ?case using step r l l' by (cases b) (auto split: prod.splits)
qed simp

lemma admitted_log: "snd (admitted (logLimited w p g) rs past) = past @ fst (admitted (logLimited w p g) rs past)"
proof (induction rs arbitrary: past)
  case (Cons r rs)
  obtain t ip where r: "r = (t, ip)" by fastforce
  obtain b past' where l: "logLimited w p g t ip past = (b, past')" by fastforce
  then have "past' = (if b then past else past @ [(t, ip)])" by (auto simp: logLimited_def split: if_splits)
  then show ?case using Cons.IH [of past'] r l by (cases b) (auto split: prod.splits)
qed simp

lemma admitted_within:
  "withinCaps w p g past \<Longrightarrow> withinCaps w p g (snd (admitted (logLimited w p g) rs past))"
proof (induction rs arbitrary: past)
  case (Cons r rs)
  obtain t ip where r: "r = (t, ip)" by fastforce
  obtain b past' where l: "logLimited w p g t ip past = (b, past')" by fastforce
  have "withinCaps w p g past'" using logLimited_within [OF Cons.prems, of t ip] l by simp
  then show ?case using Cons.IH [of past'] r l by (cases b) (auto split: prod.splits)
qed simp

lemma reflects_empty: "reflects w ips now [] []"
  by (simp add: reflects_def wf_dict_def dictKeys_def timesAt_def timesOf_def dictGet_def)

section \<open>Properties\<close>

text \<open>C12: the pruned map decides every request the way the full log of admitted requests would, as long as the
  clock does not go back, fewer than ten thousand addresses call and none is spelled \<open>*\<close>; so no window
  ending at an admitted request holds more than the caps allow, per address and in all.\<close>

theorem rate_limiter_refines_log:
  assumes "sorted (map fst rs)" and "''*'' \<notin> snd ` set rs" and "card (snd ` set rs) < 10000"
  shows "fst (admitted (rateLimited w p g) rs []) = fst (admitted (logLimited w p g) rs []) \<and>
    withinCaps w p g (fst (admitted (rateLimited w p g) rs []))"
proof (cases rs)
  case Nil
  then show ?thesis by (simp add: withinCaps_def)
next
  case (Cons r rs')
  have "\<forall>(t, ip) \<in> set rs. fst r \<le> t \<and> ip \<in> snd ` set rs \<and> ip \<noteq> ''*''"
    using assms(1,2) Cons by force
  then have same: "fst (admitted (rateLimited w p g) rs []) = fst (admitted (logLimited w p g) rs [])"
    using assms(1,3) by (intro admitted_reflects [OF reflects_empty]) auto
  have "withinCaps w p g (snd (admitted (logLimited w p g) rs []))"
    by (rule admitted_within) (simp add: withinCaps_def)
  then show ?thesis using same admitted_log [of w p g rs "[]"] by simp
qed

theorem rate_limiter_refines_log_witness:
  "withinCaps 60000 5 60 (fst (admitted demoLimited [(0, ''10.0.0.1''), (5, ''10.0.0.2''), (9, ''10.0.0.1'')] []))"
proof -
  let ?rs = "[(0, ''10.0.0.1''), (5, ''10.0.0.2''), (9, ''10.0.0.1'')] :: (int \<times> string) list"
  have "card (snd ` set ?rs) \<le> length ?rs" using card_length [of "map snd ?rs"] by simp
  then have "card (snd ` set ?rs) < 10000" by simp
  moreover have "sorted (map fst ?rs)" "''*'' \<notin> snd ` set ?rs" by simp_all
  ultimately show ?thesis
    unfolding demoLimited_def using rate_limiter_refines_log by blast
qed

text \<open>The limits do not hold for many addresses: the request that brings the map above ten thousand keys
  empties it, and the next request of every address is let through, however many it made in the window.\<close>

theorem rate_limiter_forgets:
  assumes wf: "wf_dict h" and full: "length h \<ge> 10000" and new: "dictGet h ip = None"
    and pass: "fst (rateLimited w p g now ip h) = False" and caps: "0 < p" "0 < g"
  shows "fst (rateLimited w p g now' ip' (snd (rateLimited w p g now ip h))) = False"
proof -
  let ?mine = "recent w now (timesAt h ip) @ [now]" and ?all = "recent w now (timesAt h ''*'') @ [now]"
  have "length (dictPut ''*'' ?all (dictPut ip ?mine h)) \<ge> length (dictPut ip ?mine h)"
    using js_dict.length_put [OF js_dict.wf_put [OF wf], of "''*''"] by (simp split: if_splits)
  moreover have "length (dictPut ip ?mine h) = Suc (length h)"
    using js_dict.length_put [OF wf, of ip] new by simp
  ultimately have "snd (rateLimited w p g now ip h) = []"
    using pass full by (auto simp: rateLimited_def Let_def split: if_splits)
  then show ?thesis using caps by (simp add: rateLimited_def timesAt_def dictGet_def Let_def)
qed

definition crowd :: hits where
  "crowd = map (\<lambda>n. (natStr n, [0])) [0..<10000]"

theorem rate_limiter_forgets_witness:
  "fst (rateLimited 60000 5 60 1 ''x'' (snd (rateLimited 60000 5 60 1 ''y'' crowd))) = False"
proof (rule rate_limiter_forgets)
  have absent: "dictGet crowd k = None" if "k \<notin> natStr ` UNIV" for k
    using that by (auto simp: dictGet_def crowd_def map_of_eq_None_iff)
  have letter: "c # cs \<notin> natStr ` UNIV" if "\<not> is_digit c" for c cs
    using that natStr_digits by (metis imageE list.set_intros(1))
  have y: "dictGet crowd ''y'' = None" and star: "dictGet crowd ''*'' = None"
    by (intro absent letter; simp add: char_between_def code_def)+
  then show "dictGet crowd ''y'' = None" "fst (rateLimited 60000 5 60 1 ''y'' crowd) = False"
    by (simp_all add: rateLimited_def timesAt_def Let_def)
  show "wf_dict crowd"
    by (simp add: crowd_def wf_dict_def dictKeys_def comp_def distinct_map inj_on_def)
qed (simp_all add: crowd_def)

end
