(* ===== verification/Waitlist.thy ===== *)
theory Waitlist
  imports Rate_Limit
begin

text \<open>
  \<open>lib/waitlist.ts\<close> and \<open>app/api/waitlist/route.ts\<close>: a visitor's request for access becomes an e-mail. The
  validation library is a parameter: \<open>safeParse\<close> takes the body to the validated input or to \<open>None\<close>. The
  e-mail service is an argument too, the answers to the first and to the second request sent to it; the
  requests the handler sends are part of its result. \<open>None\<close> instead of a response means that \<open>fetch\<close>
  rejected, which the handler does not catch.
\<close>

section \<open>lib/waitlist.ts\<close>

datatype waitlist_role = SecurityEngineer | Ciso | Founder | Investor | Researcher | OtherRole

record waitlist_input =
  wi_name :: string
  wi_email :: string
  wi_company :: "string option"
  wi_role :: waitlist_role
  wi_message :: string
  wi_website :: "string option"

fun ROLE_LABELS :: "waitlist_role \<Rightarrow> string" where
  "ROLE_LABELS SecurityEngineer = ''Security engineer''"
| "ROLE_LABELS Ciso = ''CISO / security leader''"
| "ROLE_LABELS Founder = ''Founder / operator''"
| "ROLE_LABELS Investor = ''Investor''"
| "ROLE_LABELS Researcher = ''Researcher''"
| "ROLE_LABELS OtherRole = ''Other''"

definition emailLines :: "waitlist_input \<Rightarrow> string \<Rightarrow> string \<Rightarrow> string list" where
  "emailLines input company ip =
     [''Someone requested access to Attest.'',
      [],
      ''Name:     '' @ wi_name input,
      ''Email:    '' @ wi_email input,
      ''Company:  '' @ company,
      ''Role:     '' @ ROLE_LABELS (wi_role input),
      ''IP:       '' @ ip,
      [],
      ''Why they want to try it:'',
      wi_message input,
      [],
      ''Reply to this email to reach them.'']"

definition formatWaitlistEmail :: "waitlist_input \<Rightarrow> string \<Rightarrow> string \<times> string" where
  "formatWaitlistEmail input ip =
     (let company = orStr (map_option trim (wi_company input)) em_dash
      in (''Attest waitlist: '' @ wi_name input @ '' ('' @ company @ '')'',
          joinWith newline (emailLines input company ip)))"

section \<open>app/api/waitlist/route.ts\<close>

record mail_env =
  me_resend_key :: "string option"
  me_resend_from :: "string option"
  me_notify_to :: "string option"
  me_node_env :: "string option"

record mail =
  ml_from :: string
  ml_to :: string
  ml_reply_to :: string
  ml_subject :: string
  ml_text :: string

definition okBody :: "(string \<times> jsval) list \<Rightarrow> jsval" where
  "okBody rest = Obj ((''ok'', Bool True) # rest)"

definition refusal :: "string \<Rightarrow> jsval" where
  "refusal m = Obj [(''ok'', Bool False), (''error'', Str m)]"

definition onboarding :: string where
  "onboarding = ''Attest Waitlist <onboarding@resend.dev>''"

definition sendFailed :: response where
  "sendFailed = respond 502 (refusal ''Could not send the request. Try again shortly.'')"

fun fetchedText :: "fetched \<Rightarrow> string" where
  "fetchedText (Rejected m) = []"
| "fetchedText (Answer st body text) = text"

fun fetchedOk :: "fetched \<Rightarrow> bool" where
  "fetchedOk (Rejected m) = False"
| "fetchedOk (Answer st body text) = okStatus st"

definition lastAnswer :: "fetched \<Rightarrow> response option" where
  "lastAnswer f =
     (case f of
        Rejected _ \<Rightarrow> None
      | Answer st _ _ \<Rightarrow>
          Some (if okStatus st then respond 200 (okBody [(''delivered'', Bool True)]) else sendFailed))"

definition deliver :: "mail \<Rightarrow> fetched \<Rightarrow> fetched \<Rightarrow> response option \<times> mail list" where
  "deliver m f1 f2 =
     (case f1 of
        Rejected _ \<Rightarrow> (None, [m])
      | Answer st _ detail \<Rightarrow>
          if \<not> okStatus st \<and> ml_from m \<noteq> onboarding then
            if str_includes detail ''domain is not verified'' \<or> str_includes detail ''not verified''
            then (lastAnswer f2, [m, m\<lparr>ml_from := onboarding\<rparr>])
            else (Some sendFailed, [m])
          else (lastAnswer f1, [m]))"

definition waitlistPOST ::
  "(jsval \<Rightarrow> waitlist_input option) \<Rightarrow> mail_env \<Rightarrow> string option \<Rightarrow> jsval option \<Rightarrow> fetched \<Rightarrow> fetched \<Rightarrow> int \<Rightarrow> hits
    \<Rightarrow> (response option \<times> mail list) \<times> hits" where
  "waitlistPOST safeParse env fwd body f1 f2 now h =
     (let ip = clientIp fwd in
      case waitlistLimited now ip h of
        (True, h') \<Rightarrow>
          ((Some (respond 429 (refusal ''Too many requests. Try again in an hour.'')), []), h')
      | (False, h') \<Rightarrow>
          (case body of
             None \<Rightarrow> ((Some (respond 400 (refusal ''Invalid JSON'')), []), h')
           | Some b \<Rightarrow>
               (case safeParse b of
                  None \<Rightarrow> ((Some (respond 400 (refusal ''Check the form and try again.'')), []), h')
                | Some input \<Rightarrow>
                    if wi_website input \<noteq> None \<and> wi_website input \<noteq> Some []
                    then ((Some (respond 200 (okBody [])), []), h')
                    else
                      let apiKey = map_option trim (me_resend_key env);
                          from' = orStr (map_option trim (me_resend_from env)) ''Attest Waitlist <admin@homaid.dev>'';
                          to' = orStr (map_option trim (me_notify_to env)) ''mohamed@homaid.dev'';
                          (subject, body_text) = formatWaitlistEmail input ip
                      in if apiKey = None \<or> apiKey = Some [] then
                           (if me_node_env env = Some ''production''
                            then ((Some (respond 503 (refusal ''Waitlist email is not configured yet.'')), []), h')
                            else ((Some (respond 200 (okBody [(''delivered'', Bool False)])), []), h'))
                         else (deliver \<lparr>ml_from = from', ml_to = to', ml_reply_to = wi_email input,
                                 ml_subject = subject, ml_text = body_text\<rparr> f1 f2, h'))))"

section \<open>Facts\<close>

lemma deliver_attempts:
  "deliver m f1 f2 = (res, mails) \<Longrightarrow>
   mails = [m] \<or> mails = [m, m\<lparr>ml_from := onboarding\<rparr>] \<and> \<not> fetchedOk f1 \<and> ml_from m \<noteq> onboarding \<and>
     str_includes (fetchedText f1) ''not verified''"
proof (cases f1)
  case (Answer st body detail)
  have sub: "str_includes detail ''not verified''" if "str_includes detail ''domain is not verified''"
  proof -
    from that obtain u v where "detail = u @ ''domain is not verified'' @ v" unfolding str_includes_iff by blast
    then have "detail = (u @ ''domain is '') @ ''not verified'' @ v" by simp
    then show ?thesis unfolding str_includes_iff by blast
  qed
  then show "deliver m f1 f2 = (res, mails) \<Longrightarrow> ?thesis"
    using Answer by (auto simp: deliver_def split: if_splits)
qed (simp add: deliver_def)

lemma deliver_reports:
  assumes "deliver m f1 f2 = (Some res, mails)"
  shows "rs_status res = 200 \<longleftrightarrow> (if length mails = 2 then fetchedOk f2 else fetchedOk f1)"
  using assms by (cases f1; cases f2) (auto simp: deliver_def lastAnswer_def sendFailed_def split: if_splits)

lemma joinWith_mem: "s \<in> set ss \<Longrightarrow> str_includes (joinWith sep ss) s"
proof (induction sep ss rule: joinWith.induct)
  case (3 sep s' t ss)
  show ?case
  proof (cases "s = s'")
    case True
    then show ?thesis unfolding str_includes_iff
      by (metis append_Nil joinWith.simps(3))
  next
    case False
    then obtain u v where "joinWith sep (t # ss) = u @ s @ v"
      using 3 unfolding str_includes_iff by auto
    then have "joinWith sep (s' # t # ss) = (s' @ sep @ u) @ s @ v" by simp
    then show ?thesis unfolding str_includes_iff by blast
  qed
qed auto

section \<open>Properties\<close>


definition sampleVisitor :: waitlist_input where
  "sampleVisitor = \<lparr>wi_name = ''Ada'', wi_email = ''ada@example.org'', wi_company = None, wi_role = Researcher,
     wi_message = ''I study audit logs.'', wi_website = None\<rparr>"


end
