(* ===== verification/Demo_Run.thy ===== *)
theory Demo_Run
  imports Rate_Limit Scenarios
begin

text \<open>
  \<open>app/api/demo/run/route.ts\<close> and \<open>app/api/demo/status/route.ts\<close>: the public demo sends a scenario to the
  collector and the orchestrator, then fetches the signed envelope and the verification report. The four
  answers are arguments; a rejected call carries \<open>String(e)\<close>. Fields that the code copies unchecked out of
  an answer stay JSON values.
\<close>

section \<open>Model\<close>

record stage_state =
  st_ok :: bool
  st_error :: "string option"

record demo_out =
  do_ok :: bool
  do_error :: "string option"
  do_event_ids :: jsval
  do_action_id :: jsval
  do_verdict :: jsval
  do_execution_path :: jsval
  do_tenant_id :: string
  do_envelope :: "jsval option"
  do_verify :: "jsval option"
  do_collector :: stage_state
  do_orchestrator :: stage_state

definition DEMO_TENANT :: string where
  "DEMO_TENANT = ''demo''"

definition DEMO_SCENARIO :: string where
  "DEMO_SCENARIO = ''geo_anomaly''"

definition stageOk :: stage_state where
  "stageOk = \<lparr>st_ok = True, st_error = None\<rparr>"

definition stageDown :: "string option \<Rightarrow> stage_state" where
  "stageDown e = \<lparr>st_ok = False, st_error = e\<rparr>"

definition demoBlank :: "string option \<Rightarrow> stage_state \<Rightarrow> stage_state \<Rightarrow> demo_out" where
  "demoBlank err col orc =
     \<lparr>do_ok = False, do_error = err, do_event_ids = Arr [], do_action_id = Str [], do_verdict = Str ''unknown'',
      do_execution_path = Str ''classifier'', do_tenant_id = DEMO_TENANT, do_envelope = None, do_verify = None,
      do_collector = col, do_orchestrator = orc\<rparr>"

definition friendlyFetchError :: "string \<Rightarrow> string \<Rightarrow> string" where
  "friendlyFetchError raw service =
     (if str_includes raw ''fetch failed'' \<or> str_includes raw ''ECONNREFUSED'' \<or> str_includes raw ''AbortError''
      then service @ '' unreachable'' else raw)"

text \<open>The collector's answer: the event ids, or \<open>String(e)\<close> of what was thrown.\<close>

definition collectorAnswer :: "fetched \<Rightarrow> string + jsval" where
  "collectorAnswer f =
     (case f of
        Rejected m \<Rightarrow> Inl m
      | Answer st body m \<Rightarrow>
          (case body of
             None \<Rightarrow> Inl m
           | Some data \<Rightarrow>
               (case jsFieldE ''error'' data of
                  None \<Rightarrow> Inl (nullRead data ''error'')
                | Some err \<Rightarrow>
                    if \<not> okStatus st \<or> truthy err
                    then Inl (errorString (jsString (nullish err (Str (''HTTP '' @ natStr st)))))
                    else Inr (nullish (jsField ''event_ids'' data) (Arr [])))))"

definition collectorStage :: "fetched \<Rightarrow> demo_out \<Rightarrow> demo_out" where
  "collectorStage f out =
     (case collectorAnswer f of
        Inr ids \<Rightarrow> out\<lparr>do_event_ids := ids, do_collector := stageOk\<rparr>
      | Inl m \<Rightarrow> out\<lparr>do_collector := stageDown (Some (friendlyFetchError m ''Collector''))\<rparr>)"

definition triageAnswer :: "fetched \<Rightarrow> string + jsval" where
  "triageAnswer f =
     (case f of
        Rejected m \<Rightarrow> Inl m
      | Answer st body m \<Rightarrow>
          if \<not> okStatus st then Inl (errorString (''HTTP '' @ natStr st))
          else (case body of
             None \<Rightarrow> Inl m
           | Some t \<Rightarrow> if t = Null \<or> t = Undef then Inl (nullRead t ''action_id'') else Inr t))"

definition orchestratorStage :: "fetched \<Rightarrow> demo_out \<Rightarrow> demo_out + demo_out" where
  "orchestratorStage f out =
     (case triageAnswer f of
        Inr t \<Rightarrow> Inr (out\<lparr>do_action_id := nullish (jsField ''action_id'' t) (Str []),
           do_verdict := nullish (jsField ''verdict'' t) (Str ''unknown''),
           do_execution_path := nullish (jsField ''execution_path'' t) (Str ''classifier''),
           do_orchestrator := stageOk\<rparr>)
      | Inl m \<Rightarrow> Inl (out\<lparr>do_orchestrator := stageDown (Some (friendlyFetchError m ''Orchestrator'')),
           do_error := Some ''Orchestrator is not reachable. The hosted demo needs the triage service up.''\<rparr>))"

definition envelopeOf :: "jsval \<Rightarrow> demo_out \<Rightarrow> jsval" where
  "envelopeOf env out = Obj
     [(''agent_action_id'', nullish (jsField ''agent_action_id'' env) (do_action_id out)),
      (''case_id'', nullish (jsField ''case_id'' env) (Str [])),
      (''tenant_id'', nullish (jsField ''tenant_id'' env) (Str DEMO_TENANT)),
      (''verdict'', nullish (jsField ''verdict'' env) (do_verdict out)),
      (''execution_path'', nullish (jsField ''execution_path'' env) (do_execution_path out)),
      (''prev_hash'', nullish (jsField ''prev_hash'' env) (Str [])),
      (''signature'', nullish (jsField ''signature'' env) (Str [])),
      (''signed_at'', nullish (jsField ''signed_at'' env) (Str []))]"

text \<open>The two parts of the verification step; the left value is \<open>String(e)\<close> of what was thrown.\<close>

definition envelopePart :: "fetched \<Rightarrow> demo_out \<Rightarrow> string + demo_out" where
  "envelopePart f out =
     (case f of
        Rejected m \<Rightarrow> Inl m
      | Answer st body m \<Rightarrow>
          if \<not> okStatus st then Inr out
          else (case body of
             None \<Rightarrow> Inl m
           | Some env \<Rightarrow>
               if env = Null \<or> env = Undef then Inl (nullRead env ''agent_action_id'')
               else Inr (out\<lparr>do_envelope := Some (envelopeOf env out)\<rparr>)))"

definition lastFive :: "'a list \<Rightarrow> 'a list" where
  "lastFive xs = drop (length xs - 5) xs"

definition verifyPart :: "fetched \<Rightarrow> demo_out \<Rightarrow> string + demo_out" where
  "verifyPart f out =
     (case f of
        Rejected m \<Rightarrow> Inl m
      | Answer st body m \<Rightarrow>
          if \<not> okStatus st then Inr out
          else (case body of
             None \<Rightarrow> Inl m
           | Some report \<Rightarrow>
               (case jsFieldE ''results'' report of
                  None \<Rightarrow> Inl (nullRead report ''results'')
                | Some (Arr rs) \<Rightarrow>
                    Inr (out\<lparr>do_verify := Some (Obj (dictPut ''results'' (Arr (lastFive rs)) (spreadObject report)))\<rparr>)
                | Some (Str rs) \<Rightarrow>
                    Inr (out\<lparr>do_verify := Some (Obj (dictPut ''results'' (Str (lastFive rs)) (spreadObject report)))\<rparr>)
                | Some Undef \<Rightarrow> Inl (nullRead Undef ''slice'')
                | Some Null \<Rightarrow> Inl (nullRead Null ''slice'')
                | Some _ \<Rightarrow> Inl ''TypeError: report.results.slice is not a function'')))"

text \<open>\<open>Promise.all\<close> rejects when either call does.\<close>

definition attestStage :: "fetched \<Rightarrow> fetched \<Rightarrow> demo_out \<Rightarrow> demo_out" where
  "attestStage fEnv fVer out =
     (let failed = (\<lambda>m out. out\<lparr>do_error := Some (''Signed, but verify API failed: '' @ m)\<rparr>)
      in case (fEnv, fVer) of
           (Rejected m, _) \<Rightarrow> failed m out
         | (_, Rejected m) \<Rightarrow> failed m out
         | _ \<Rightarrow>
             (case envelopePart fEnv out of
                Inl m \<Rightarrow> failed m out
              | Inr out1 \<Rightarrow>
                  (case verifyPart fVer out1 of Inl m \<Rightarrow> failed m out1 | Inr out2 \<Rightarrow> out2)))"

definition verifyOk :: "demo_out \<Rightarrow> bool" where
  "verifyOk out = (case do_verify out of None \<Rightarrow> False | Some v \<Rightarrow> truthy (jsField ''ok'' v))"

definition finishDemo :: "demo_out \<Rightarrow> demo_out" where
  "finishDemo out =
     (let ok = st_ok (do_orchestrator out) \<and> do_envelope out \<noteq> None \<and> verifyOk out
      in out\<lparr>do_ok := ok,
           do_error := (if \<not> ok \<and> (do_error out = None \<or> do_error out = Some [])
             then Some (if do_verify out \<noteq> None then ''Envelope signed, but the log did not verify.''
                        else ''Envelope signed, but the verify API is not available on this orchestrator.'')
             else do_error out)\<rparr>)"

definition requestedScenario :: "jsval option \<Rightarrow> jsval" where
  "requestedScenario body =
     (case body of
        None \<Rightarrow> Str DEMO_SCENARIO
      | Some b \<Rightarrow> if truthy (jsField ''scenario_id'' b) then jsField ''scenario_id'' b else Str DEMO_SCENARIO)"

definition scenarioNamed :: "jsval \<Rightarrow> scenario option" where
  "scenarioNamed v = (case v of Str i \<Rightarrow> getScenario i | _ \<Rightarrow> None)"

definition demoPOST ::
  "string option \<Rightarrow> jsval option \<Rightarrow> fetched \<Rightarrow> fetched \<Rightarrow> fetched \<Rightarrow> fetched \<Rightarrow> int \<Rightarrow> hits \<Rightarrow> (nat \<times> demo_out) \<times> hits" where
  "demoPOST fwd body fCol fTri fEnv fVer now h =
     (case demoLimited now (clientIp fwd) h of
        (True, h') \<Rightarrow>
          ((429, demoBlank (Some ''Demo is rate limited. Try again in a minute.'') stageOk
              (stageDown (Some ''rate limited''))), h')
      | (False, h') \<Rightarrow>
          (case scenarioNamed (requestedScenario body) of
             None \<Rightarrow>
               ((400, demoBlank (Some (''Unknown scenario: '' @ jsString (requestedScenario body)))
                   (stageDown None) (stageDown None)), h')
           | Some s \<Rightarrow>
               (case orchestratorStage fTri (collectorStage fCol (demoBlank None (stageDown None) (stageDown None))) of
                  Inl out \<Rightarrow> ((503, out), h')
                | Inr out \<Rightarrow>
                    ((200, finishDemo (if truthy (do_action_id out) then attestStage fEnv fVer out else out)), h'))))"

section \<open>app/api/demo/status/route.ts\<close>

definition upStatus :: "fetched \<Rightarrow> bool" where
  "upStatus f = (case f of Rejected _ \<Rightarrow> False | Answer st _ _ \<Rightarrow> okStatus st)"

definition demoStatusGET :: "fetched \<Rightarrow> fetched \<Rightarrow> jsval" where
  "demoStatusGET fCol fOrc = Obj
     [(''live'', Bool (upStatus fCol \<and> upStatus fOrc)), (''collector'', Bool (upStatus fCol)),
      (''orchestrator'', Bool (upStatus fOrc))]"

section \<open>Facts\<close>

lemma orchestratorStage_Inr:
  "orchestratorStage f out = Inr out' \<Longrightarrow> do_error out' = do_error out \<and> do_envelope out' = do_envelope out \<and>
   do_verify out' = do_verify out \<and> upStatus f"
  by (cases f) (auto simp: orchestratorStage_def triageAnswer_def upStatus_def split: sum.splits option.splits if_splits)

lemma collectorStage_blank:
  "do_error (collectorStage f out) = do_error out \<and> do_envelope (collectorStage f out) = do_envelope out \<and>
   do_verify (collectorStage f out) = do_verify out \<and> do_ok (collectorStage f out) = do_ok out"
  by (auto simp: collectorStage_def split: sum.splits)

lemma envelopePart_Inr:
  "envelopePart f out = Inr out' \<Longrightarrow> do_error out' = do_error out \<and> do_verify out' = do_verify out \<and>
   (do_envelope out' \<noteq> None \<longrightarrow> do_envelope out \<noteq> None \<or> upStatus f)"
  by (cases f) (auto simp: envelopePart_def upStatus_def split: option.splits if_splits)

lemma verifyPart_Inr:
  assumes "verifyPart f out = Inr out'"
  shows "do_error out' = do_error out \<and> do_envelope out' = do_envelope out \<and>
   (do_verify out' \<noteq> do_verify out \<longrightarrow> upStatus f)"
  using assms by (cases f) (auto simp: verifyPart_def upStatus_def split: option.splits if_splits jsval.splits)

text \<open>After the verification step: an error is reported only if the report is missing, and a report or an
  envelope is there only if the service gave it.\<close>

lemma attestStage_result:
  assumes "do_error out = None" "do_envelope out = None" "do_verify out = None"
  shows "(do_error (attestStage fEnv fVer out) \<noteq> None \<longrightarrow> do_verify (attestStage fEnv fVer out) = None) \<and>
    (do_envelope (attestStage fEnv fVer out) \<noteq> None \<longrightarrow> upStatus fEnv) \<and>
    (do_verify (attestStage fEnv fVer out) \<noteq> None \<longrightarrow> upStatus fVer)"
proof (cases fEnv)
  case (Rejected m)
  then show ?thesis using assms by (simp add: attestStage_def)
next
  case env: (Answer st body m)
  show ?thesis
  proof (cases fVer)
    case (Rejected m')
    then show ?thesis using assms env by (simp add: attestStage_def)
  next
    case ver: (Answer st' body' m')
    show ?thesis
    proof (cases "envelopePart fEnv out")
      case (Inl e)
      then show ?thesis using assms env ver by (simp add: attestStage_def)
    next
      case out1: (Inr out1)
      note e = envelopePart_Inr [OF out1]
      show ?thesis
      proof (cases "verifyPart fVer out1")
        case (Inl e')
        then show ?thesis using assms env ver out1 e by (auto simp: attestStage_def)
      next
        case (Inr out2)
        then show ?thesis
          using assms env ver out1 e verifyPart_Inr [OF Inr] by (auto simp: attestStage_def)
      qed
    qed
  qed
qed

section \<open>Properties\<close>

text \<open>C25: the demo answers \<open>ok\<close> exactly when it reports no error, and then nothing was skipped: the orchestrator
  answered with an action id, the envelope and the verification report were both served, and the report
  says the log verifies.\<close>

theorem demo_ok_sound:
  assumes "demoPOST fwd body fCol fTri fEnv fVer now h = ((st, out), h')"
  shows "(do_ok out \<longleftrightarrow> do_error out = None) \<and>
    (do_ok out \<longrightarrow> st = 200 \<and> upStatus fTri \<and> truthy (do_action_id out) \<and> upStatus fEnv \<and> upStatus fVer \<and>
       do_envelope out \<noteq> None \<and> verifyOk out)"
proof -
  obtain limited h1 where lim: "demoLimited now (clientIp fwd) h = (limited, h1)" by fastforce
  let ?start = "collectorStage fCol (demoBlank None (stageDown None) (stageDown None))"
  have start: "do_error ?start = None" "do_envelope ?start = None" "do_verify ?start = None"
    by (simp_all add: collectorStage_blank demoBlank_def)
  consider (early) "do_ok out = False \<and> do_error out \<noteq> None"
    | (late) mid where "orchestratorStage fTri ?start = Inr mid" "st = 200"
        "out = finishDemo (if truthy (do_action_id mid) then attestStage fEnv fVer mid else mid)"
    using assms lim
    by (cases limited; cases "scenarioNamed (requestedScenario body)"; cases "orchestratorStage fTri ?start")
      (auto simp: demoPOST_def demoBlank_def collectorStage_blank orchestratorStage_def split: sum.splits)
  then show ?thesis
  proof cases
    case early
    then show ?thesis by simp
  next
    case late
    note mid = orchestratorStage_Inr [OF late(1)]
    show ?thesis
    proof (cases "truthy (do_action_id mid)")
      case True
      let ?a = "attestStage fEnv fVer mid"
      have r: "do_error ?a \<noteq> None \<longrightarrow> do_verify ?a = None" "do_envelope ?a \<noteq> None \<longrightarrow> upStatus fEnv"
        "do_verify ?a \<noteq> None \<longrightarrow> upStatus fVer"
        using attestStage_result [of mid fEnv fVer] mid start by auto
      have act: "do_action_id ?a = do_action_id mid"
        by (auto simp: attestStage_def Let_def envelopePart_def verifyPart_def
            split: fetched.splits sum.splits option.splits if_splits jsval.splits)
      have "do_verify ?a \<noteq> None" if "verifyOk ?a" using that by (auto simp: verifyOk_def split: option.splits)
      then show ?thesis
        using late True r mid act by (auto simp: finishDemo_def Let_def verifyOk_def split: option.splits)
    next
      case False
      then show ?thesis
        using late mid start by (auto simp: finishDemo_def Let_def verifyOk_def)
    qed
  qed
qed

theorem demo_ok_sound_witness:
  "\<exists>out h'. demoPOST None None (Rejected ''fetch failed'') (Answer 200 (Some (Obj [(''action_id'', Str ''a'')])) [])
     (Answer 200 (Some (Obj [])) []) (Answer 200 (Some (Obj [(''ok'', Bool True), (''results'', Arr [])])) []) 0 []
       = ((200, out), h') \<and> do_error out = None \<and> verifyOk out"
proof -
  obtain s where sc: "getScenario ''geo_anomaly'' = Some s"
    by (simp add: getScenario_def SCENARIOS_def geo_anomaly_def)
  obtain st out h' where run: "demoPOST None None (Rejected ''fetch failed'')
      (Answer 200 (Some (Obj [(''action_id'', Str ''a'')])) []) (Answer 200 (Some (Obj [])) [])
      (Answer 200 (Some (Obj [(''ok'', Bool True), (''results'', Arr [])])) []) 0 [] = ((st, out), h')"
    by (metis surj_pair)
  then have "do_ok out"
    by (simp add: demoPOST_def demoLimited_def rateLimited_def timesAt_def dictGet_def Let_def clientIp_def
        requestedScenario_def scenarioNamed_def DEMO_SCENARIO_def sc orchestratorStage_def triageAnswer_def okStatus_def
        attestStage_def envelopePart_def verifyPart_def jsFieldE_def finishDemo_def verifyOk_def stageOk_def lastFive_def
        dictKeys_def)
      auto
  with demo_ok_sound [OF run] run show ?thesis by blast
qed

end
