(* ===== verification/Simulate_Route.thy ===== *)
theory Simulate_Route
  imports Scenarios
begin

text \<open>
  \<open>app/api/simulate/route.ts\<close> and \<open>app/api/simulate/verify/route.ts\<close>: one simulated alert through collector
  and orchestrator, and the later check that it arrived in the other stores. Answers of the services and
  reads of the clock are arguments; a rejected call carries \<open>String(e)\<close>. \<open>None\<close> instead of a response means
  that the handler throws, or that the request's parameters or the collector's event ids are not of the
  type the code declares for them.
\<close>

section \<open>app/api/simulate/route.ts\<close>

record stage_result =
  sg_ok :: bool
  sg_latency_ms :: int
  sg_artifact :: string
  sg_error :: "string option"

record simulate_response =
  sm_event_ids :: "string list"
  sm_username :: string
  sm_action_id :: jsval
  sm_collector :: stage_result
  sm_orchestrator :: stage_result
  sm_calibration :: stage_result
  sm_attestation :: stage_result
  sm_verdict :: jsval
  sm_execution_path :: jsval
  sm_calibrated_confidence :: jsval
  sm_raw_prediction :: jsval
  sm_novelty_score :: jsval
  sm_escalated :: jsval
  sm_classifier_evidence :: jsval
  sm_total_latency_ms :: int

definition passed :: "int \<Rightarrow> string \<Rightarrow> stage_result" where
  "passed ms artifact = \<lparr>sg_ok = True, sg_latency_ms = ms, sg_artifact = artifact, sg_error = None\<rparr>"

definition missed :: "int \<Rightarrow> string \<Rightarrow> string option \<Rightarrow> stage_result" where
  "missed ms artifact err = \<lparr>sg_ok = False, sg_latency_ms = ms, sg_artifact = artifact, sg_error = err\<rparr>"

fun asStrings :: "jsval \<Rightarrow> string list option" where
  "asStrings (Arr vs) =
     (if list_all (\<lambda>v. case v of Str _ \<Rightarrow> True | _ \<Rightarrow> False) vs
      then Some (map (\<lambda>v. case v of Str s \<Rightarrow> s | _ \<Rightarrow> []) vs) else None)"
| "asStrings _ = None"

definition asParams :: "jsval \<Rightarrow> scenario_params option" where
  "asParams v =
     (case (jsField ''username'' v, jsField ''source_ip'' v, jsField ''region'' v, jsField ''severity'' v) of
        (Str u, Str i, Str r, Num (Fin s)) \<Rightarrow>
          Some \<lparr>sp_username = u, sp_source_ip = i, sp_region = r, sp_severity = s\<rparr>
      | _ \<Rightarrow> None)"

definition quote :: string where
  "quote = [CHR 0x27]"

text \<open>Stage 1. The outer \<open>option\<close> is \<open>None\<close> for event ids that are not an array of strings.\<close>

definition collectorRun :: "fetched \<Rightarrow> int \<Rightarrow> (string list \<times> stage_result) option" where
  "collectorRun f ms =
     (let down = (\<lambda>e. Some ([], missed ms ''Collector unreachable'' (Some e)))
      in case f of
           Rejected m \<Rightarrow> down m
         | Answer st body m \<Rightarrow>
             (case body of
                None \<Rightarrow> down m
              | Some data \<Rightarrow>
                  (case jsFieldE ''error'' data of
                     None \<Rightarrow> down (nullRead data ''error'')
                   | Some err \<Rightarrow>
                       if \<not> okStatus st \<or> truthy err
                       then down (errorString (jsString (nullish err (Str (''HTTP '' @ natStr st)))))
                       else (case asStrings (nullish (jsField ''event_ids'' data) (Arr [])) of
                          None \<Rightarrow> None
                        | Some ids \<Rightarrow> Some (ids, passed ms (''Published '' @ natStr (length ids)
                            @ '' OCSF event(s) to Kafka topic '' @ quote @ ''cloudtrail'' @ quote @ '' (id ''
                            @ (case ids of [] \<Rightarrow> ''?'' | i # _ \<Rightarrow> slice 0 8 i) @ ellipsis @ '')''))))))"

text \<open>\<open>v?.slice(0, 8)\<close> in a template string, and \<open>v.toFixed(3)\<close>; \<open>None\<close>: a type error.\<close>

fun sliceEight :: "jsval \<Rightarrow> string option" where
  "sliceEight Undef = Some ''undefined''"
| "sliceEight Null = Some ''undefined''"
| "sliceEight (Str s) = Some (slice 0 8 s)"
| "sliceEight (Arr vs) = Some (jsString (Arr (slice 0 8 vs)))"
| "sliceEight v = None"

fun fixedThree :: "jsval \<Rightarrow> string option" where
  "fixedThree (Num n) = Some (numToFixed 3 n)"
| "fixedThree v = None"

record triage_stages =
  tg_orchestrator :: stage_result
  tg_calibration :: stage_result
  tg_attestation :: stage_result

definition stagesDown :: "int \<Rightarrow> string \<Rightarrow> triage_stages" where
  "stagesDown ms e =
     \<lparr>tg_orchestrator = missed ms ''Orchestrator unreachable'' (Some e),
      tg_calibration = missed 0 ''Skipped (orchestrator failed)'' None,
      tg_attestation = missed 0 ''Skipped (orchestrator failed)'' None\<rparr>"

definition stagesUp :: "jsval \<Rightarrow> int \<Rightarrow> triage_stages" where
  "stagesUp data ms =
     (let ev = jsField ''classifier_evidence'' data;
          raw = nullish (jsField ''raw_prediction'' ev) (Num (Fin 0));
          calb = nullish (jsField ''calibrated_confidence'' ev) (Num (Fin 0))
      in case sliceEight (jsField ''action_id'' data) of
           None \<Rightarrow> stagesDown ms ''TypeError: triageData.action_id?.slice is not a function''
         | Some act \<Rightarrow>
             (case (fixedThree raw, fixedThree calb) of
                (None, _) \<Rightarrow> stagesDown ms ''TypeError: raw.toFixed is not a function''
              | (_, None) \<Rightarrow> stagesDown ms ''TypeError: calb.toFixed is not a function''
              | (Some r, Some c) \<Rightarrow>
                  \<lparr>tg_orchestrator = passed ms (jsString (jsField ''execution_path'' data) @ '' path '' @ right_arrow
                     @ '' verdict '' @ jsString (jsField ''verdict'' data) @ '' (action '' @ act @ ellipsis @ '')''),
                   tg_calibration = passed 0 (''Isotonic regression: raw '' @ r @ '' '' @ right_arrow
                     @ '' calibrated '' @ c),
                   tg_attestation = passed 0 ''Ed25519 envelope signed; appended to attestations.ndjson''\<rparr>))"

text \<open>Stage 2: the parsed answer (\<open>Null\<close> when there is none) and the three stage results. A body that is
  JSON null fails the first read of a field.\<close>

definition triageRun :: "fetched \<Rightarrow> int \<Rightarrow> jsval \<times> triage_stages" where
  "triageRun f ms =
     (case f of
        Rejected m \<Rightarrow> (Null, stagesDown ms m)
      | Answer st body m \<Rightarrow>
          if \<not> okStatus st then (Null, stagesDown ms (errorString (''HTTP '' @ natStr st)))
          else (case body of
             None \<Rightarrow> (Null, stagesDown ms m)
           | Some data \<Rightarrow>
               if data = Null \<or> data = Undef then (Null, stagesDown ms (nullRead data ''classifier_evidence''))
               else (data, stagesUp data ms)))"

definition simulatePOST :: "jsval option \<Rightarrow> fetched \<Rightarrow> fetched \<Rightarrow> int \<Rightarrow> int \<Rightarrow> int \<Rightarrow> (simulate_response + string) option" where
  "simulatePOST body fCol fTri ms1 ms2 msAll =
     (case body of
        None \<Rightarrow> None
      | Some b \<Rightarrow>
          if b = Null \<or> b = Undef then None
          else
            let sid = jsField ''scenario_id'' b
            in case (case sid of Str i \<Rightarrow> getScenario i | _ \<Rightarrow> None) of
                 None \<Rightarrow> Some (Inr (''Unknown scenario: '' @ jsString sid))
               | Some scenario \<Rightarrow>
                   (case asParams (jsField ''params'' b) of
                      None \<Rightarrow> None
                    | Some params \<Rightarrow>
                        (case collectorRun fCol ms1 of
                           None \<Rightarrow> None
                         | Some (ids, col) \<Rightarrow>
                             let (data, stages) = triageRun fTri ms2
                             in Some (Inl
                               \<lparr>sm_event_ids = ids,
                                sm_username = sp_username params,
                                sm_action_id = nullish (jsField ''action_id'' data) (Str []),
                                sm_collector = col,
                                sm_orchestrator = tg_orchestrator stages,
                                sm_calibration = tg_calibration stages,
                                sm_attestation = tg_attestation stages,
                                sm_verdict = nullish (jsField ''verdict'' data) (Str ''unknown''),
                                sm_execution_path = nullish (jsField ''execution_path'' data) (Str ''classifier''),
                                sm_calibrated_confidence = nullish (jsField ''calibrated_confidence'' data) (Num (Fin 0)),
                                sm_raw_prediction = nullish (jsField ''raw_prediction''
                                  (jsField ''classifier_evidence'' data)) (Num (Fin 0)),
                                sm_novelty_score = nullish (jsField ''novelty_score'' data) (Num (Fin 0)),
                                sm_escalated = nullish (jsField ''escalated'' data) (Bool False),
                                sm_classifier_evidence = jsField ''classifier_evidence'' data,
                                sm_total_latency_ms = msAll\<rparr>))))"

section \<open>app/api/simulate/verify/route.ts\<close>

text \<open>The regular expression \<open>^[A-Za-z0-9-]\{1,64\}$\<close>.\<close>

definition idChar :: "char \<Rightarrow> bool" where
  "idChar c \<longleftrightarrow> is_upper_az c \<or> is_lower_az c \<or> is_digit c \<or> c = CHR ''-''"

definition validEventId :: "string \<Rightarrow> bool" where
  "validEventId s \<longleftrightarrow> list_all idChar s \<and> 1 \<le> length s \<and> length s \<le> 64"

definition warmSql :: "string \<Rightarrow> string" where
  "warmSql eventId = ''SELECT event_id, time FROM cloudtrail WHERE event_id = '' @ quote @ eventId @ quote @ '' LIMIT 1''"

fun lengthOf :: "jsval \<Rightarrow> nat option" where
  "lengthOf (Arr vs) = Some (length vs)"
| "lengthOf (Str s) = Some (length s)"
| "lengthOf _ = None"

definition lengthOr0 :: "jsval \<Rightarrow> nat" where
  "lengthOr0 v = (case lengthOf v of None \<Rightarrow> 0 | Some n \<Rightarrow> n)"

text \<open>\<open>if (!r.ok) throw ...; await r.json()\<close>.\<close>

definition okJson :: "fetched \<Rightarrow> string + jsval" where
  "okJson f =
     (case f of
        Rejected m \<Rightarrow> Inl m
      | Answer st body m \<Rightarrow>
          if \<not> okStatus st then Inl (errorString (''HTTP '' @ natStr st))
          else (case body of None \<Rightarrow> Inl m | Some v \<Rightarrow> Inr v))"

text \<open>\<open>all.find((d) => d.event_id === eventId)\<close>; an element that is null throws when it is reached.\<close>

fun findEvent :: "string \<Rightarrow> jsval list \<Rightarrow> string + jsval option" where
  "findEvent i [] = Inr None"
| "findEvent i (d # ds) =
     (if d = Null \<or> d = Undef then Inl (nullRead d ''event_id'')
      else if jsField ''event_id'' d = Str i then Inr (Some d)
      else findEvent i ds)"

definition detectionCheck :: "string \<Rightarrow> fetched \<Rightarrow> string + jsval option \<times> nat" where
  "detectionCheck i f =
     (case okJson f of
        Inl m \<Rightarrow> Inl m
      | Inr (Arr ds) \<Rightarrow> (case findEvent i ds of Inl m \<Rightarrow> Inl m | Inr d \<Rightarrow> Inr (d, length ds))
      | Inr v \<Rightarrow> if v = Null \<or> v = Undef then Inl (nullRead v ''find'') else Inl ''TypeError: all.find is not a function'')"

definition warmCheck :: "fetched \<Rightarrow> string + nat" where
  "warmCheck f =
     (case okJson f of
        Inl m \<Rightarrow> Inl m
      | Inr v \<Rightarrow> (case jsFieldE ''rows'' v of None \<Rightarrow> Inl (nullRead v ''rows'') | Some rows \<Rightarrow> Inr (lengthOr0 rows)))"

definition toolCheck :: "fetched \<Rightarrow> string + nat" where
  "toolCheck f =
     (case okJson f of
        Inl m \<Rightarrow> Inl m
      | Inr (Arr ts) \<Rightarrow> Inr (length ts)
      | Inr v \<Rightarrow> (case jsFieldE ''tools'' v of None \<Rightarrow> Inl (nullRead v ''tools'') | Some ts \<Rightarrow> Inr (lengthOr0 ts)))"

definition errorOf :: "string + 'a \<Rightarrow> string option" where
  "errorOf r = (case r of Inl m \<Rightarrow> Some m | Inr _ \<Rightarrow> None)"

record verify_response =
  vf_risingwave :: stage_result
  vf_detection :: stage_result
  vf_iceberg :: stage_result
  vf_mcp :: stage_result

definition baselineStage :: "string \<Rightarrow> string + jsval \<Rightarrow> int \<Rightarrow> stage_result" where
  "baselineStage username r ms =
     (case r of
        Inr v \<Rightarrow>
          if truthy v then passed ms (''Materialized view '' @ quote @ ''user_baselines'' @ quote @ '' has entry for ''
            @ username @ '' ('' @ natStr (lengthOr0 (jsField ''regions_seen_30d'' v)) @ '' region(s) seen, ''
            @ jsString (nullish (jsField ''logins_24h'' v) (Num (Fin 0))) @ '' logins/24h)'')
          else missed ms (''No baseline yet for '' @ username @ '' '' @ em_dash
            @ '' RisingWave still building MV from Kafka stream'') None
      | Inl m \<Rightarrow> missed ms (''No baseline yet for '' @ username @ '' '' @ em_dash
            @ '' RisingWave still building MV from Kafka stream'') (Some m))"

definition detectionStage :: "string + jsval option \<times> nat \<Rightarrow> int \<Rightarrow> stage_result" where
  "detectionStage r ms =
     (let waiting = (\<lambda>n e. missed ms (''Detection runtime hasn'' @ quote @ ''t fired for this event yet (''
            @ natStr n @ '' other detections in queue)'') e)
      in case r of
           Inr (Some d, n) \<Rightarrow> passed ms (''Detection '' @ quote @ jsString (jsField ''detection_id'' d) @ quote
             @ '' fired at '' @ jsString (jsField ''fired_at'' d) @ ''; stored in ClickHouse'')
         | Inr (None, n) \<Rightarrow> waiting n None
         | Inl m \<Rightarrow> waiting 0 (Some m))"

definition icebergStage :: "string + nat \<Rightarrow> int \<Rightarrow> stage_result" where
  "icebergStage r ms =
     (if (case r of Inr n \<Rightarrow> n > 0 | Inl _ \<Rightarrow> False)
      then passed ms (''Event found in warm parquet (s3://attest-warm/cloudtrail/) '' @ em_dash @ '' Iceberg table queryable'')
      else missed ms (''Iceberg writer hasn'' @ quote @ ''t flushed yet (30 s batch interval); event still buffered'') (errorOf r))"

definition mcpStage :: "string \<Rightarrow> string + nat \<Rightarrow> int \<Rightarrow> stage_result" where
  "mcpStage actionId r ms =
     (case r of
        Inr n \<Rightarrow> passed ms (''MCP gateway up '' @ em_dash @ '' '' @ natStr n
          @ '' tool(s) registered with policy engine; attestation '' @ slice 0 8 actionId @ ellipsis @ '' queryable'')
      | Inl m \<Rightarrow> missed ms ''MCP gateway unreachable'' (Some m))"

text \<open>The requests the handler sends: the three addresses it only reads, and the SQL it posts.\<close>

definition verifyRequests :: "string \<Rightarrow> string \<Rightarrow> string \<Rightarrow> string \<Rightarrow> string list" where
  "verifyRequests cpUrl mcpUrl eventId username =
     (if \<not> validEventId eventId then []
      else [cpUrl @ ''/v1/baselines/user/'' @ encodeURIComponent username, cpUrl @ ''/v1/detections/fired'',
            warmSql eventId, mcpUrl @ ''/tools''])"

definition verifyGET ::
  "string option \<Rightarrow> string option \<Rightarrow> string option \<Rightarrow> (fetched \<times> int) \<Rightarrow> (fetched \<times> int) \<Rightarrow> (fetched \<times> int) \<Rightarrow> (fetched \<times> int)
    \<Rightarrow> string + verify_response" where
  "verifyGET event_id username action_id rw det ice mcp =
     (let eventId = orElse event_id []; user = orElse username []; actionId = orElse action_id []
      in if \<not> validEventId eventId then Inl ''invalid event_id''
         else Inr
           \<lparr>vf_risingwave = baselineStage user (okJson (fst rw)) (snd rw),
            vf_detection = detectionStage (detectionCheck eventId (fst det)) (snd det),
            vf_iceberg = icebergStage (warmCheck (fst ice)) (snd ice),
            vf_mcp = mcpStage actionId (toolCheck (fst mcp)) (snd mcp)\<rparr>)"

section \<open>Facts\<close>

lemma passed_missed [simp]: "sg_ok (passed ms a)" "\<not> sg_ok (missed ms a e)" "sg_error (passed ms a) = None"
  "sg_error (missed ms a e) = e"
  by (simp_all add: passed_def missed_def)

lemma stages_agree:
  "triageRun f ms = (data, stages) \<Longrightarrow>
   sg_ok (tg_calibration stages) = sg_ok (tg_orchestrator stages) \<and>
   sg_ok (tg_attestation stages) = sg_ok (tg_orchestrator stages) \<and>
   (sg_ok (tg_orchestrator stages) \<longrightarrow> okJson f = Inr data \<and> data \<noteq> Null)"
  by (cases f)
    (auto simp: triageRun_def stagesUp_def stagesDown_def okJson_def Let_def split: option.splits if_splits)

lemma collectorRun_ids: "collectorRun f ms = Some (ids, col) \<Longrightarrow> \<not> sg_ok col \<Longrightarrow> ids = []"
  by (cases f) (auto simp: collectorRun_def Let_def split: option.splits if_splits)

lemma findEvent_found:
  "findEvent i ds = Inr (Some d) \<Longrightarrow> d \<in> set ds \<and> jsField ''event_id'' d = Str i"
  by (induction ds) (auto split: if_splits)

lemma findEvent_complete:
  "findEvent i ds = Inr None \<Longrightarrow> d \<in> set ds \<Longrightarrow> jsField ''event_id'' d \<noteq> Str i"
  by (induction ds) (auto split: if_splits)

lemma idChar_plain: "idChar c \<Longrightarrow> c \<noteq> CHR 0x27 \<and> c \<noteq> CHR '';''"
  by (auto simp: idChar_def char_between_def code_def)

section \<open>Properties\<close>

text \<open>C27: the SQL sent to the warm tier is never open to injection: it is sent only for an id of one to sixty-four
  letters, digits and hyphens, and then the only quotes in it are the two around the id and it holds no
  semicolon; for every other id no request is sent and the answer is an error.\<close>

theorem warm_sql_safe:
  "(verifyRequests cp gw i user \<noteq> [] \<longrightarrow> list_all idChar i \<and> 1 \<le> length i \<and> length i \<le> 64 \<and>
      length (filter (\<lambda>c. c = CHR 0x27) (warmSql i)) = 2 \<and> CHR '';'' \<notin> set (warmSql i)) \<and>
   (verifyRequests cp gw i user = [] \<longrightarrow> verifyGET (Some i) (Some user) act rw det ice mcp = Inl ''invalid event_id'')"
proof (cases "validEventId i")
  case True
  then have "list_all idChar i" by (simp add: validEventId_def)
  then have "\<forall>c \<in> set i. c \<noteq> CHR 0x27 \<and> c \<noteq> CHR '';''"
    using idChar_plain by (auto simp: list_all_iff)
  then have "filter (\<lambda>c. c = CHR 0x27) i = []" "CHR '';'' \<notin> set i" by (auto simp: filter_empty_conv)
  then show ?thesis
    using True by (simp add: verifyRequests_def validEventId_def warmSql_def quote_def)
next
  case False
  then show ?thesis by (simp add: verifyRequests_def verifyGET_def)
qed

theorem warm_sql_safe_witness:
  "length (filter (\<lambda>c. c = CHR 0x27) (warmSql ''evt-1'')) = 2"
proof -
  have "verifyRequests [] [] ''evt-1'' [] \<noteq> []"
    by (simp add: verifyRequests_def validEventId_def idChar_def char_between_def code_def)
  with warm_sql_safe show ?thesis by blast
qed

text \<open>The verification page confirms a detection only on evidence: the stage passes exactly when the control
  plane's list, read up to the first match, holds a detection of this very event.\<close>

theorem verify_detection_evidence:
  assumes "verifyGET (Some i) user act rw (f, ms) ice mcp = Inr v"
  shows "(sg_ok (vf_detection v) \<longrightarrow> (\<exists>ds d. okJson f = Inr (Arr ds) \<and> d \<in> set ds \<and> jsField ''event_id'' d = Str i)) \<and>
    (\<not> sg_ok (vf_detection v) \<longrightarrow> sg_error (vf_detection v) = None \<longrightarrow>
       (\<exists>ds. okJson f = Inr (Arr ds) \<and> (\<forall>d \<in> set ds. jsField ''event_id'' d \<noteq> Str i)))"
proof -
  have v: "vf_detection v = detectionStage (detectionCheck i f) ms"
    using assms by (auto simp: verifyGET_def Let_def split: if_splits)
  show ?thesis
    unfolding v
    by (auto simp: detectionStage_def detectionCheck_def Let_def dest: findEvent_found findEvent_complete
        split: sum.splits jsval.splits option.splits if_splits)
qed

theorem verify_detection_evidence_witness:
  "\<exists>v. verifyGET (Some ''e1'') None None (Rejected [], 0)
     (Answer 200 (Some (Arr [Obj [(''event_id'', Str ''e1'')]])) [], 3) (Rejected [], 0) (Rejected [], 0) = Inr v \<and>
     sg_ok (vf_detection v) \<and> (\<exists>ds d. okJson (Answer 200 (Some (Arr [Obj [(''event_id'', Str ''e1'')]])) []) = Inr (Arr ds) \<and>
       d \<in> set ds \<and> jsField ''event_id'' d = Str ''e1'')"
proof -
  let ?f = "Answer 200 (Some (Arr [Obj [(''event_id'', Str ''e1'')]])) []"
  obtain v where v: "verifyGET (Some ''e1'') None None (Rejected [], 0) (?f, 3) (Rejected [], 0) (Rejected [], 0) = Inr v"
    by (simp add: verifyGET_def Let_def validEventId_def idChar_def char_between_def code_def)
  then have "sg_ok (vf_detection v)"
    by (auto simp: verifyGET_def Let_def detectionStage_def detectionCheck_def okJson_def okStatus_def dictGet_def
        split: if_splits)
  with verify_detection_evidence [OF v] v show ?thesis by blast
qed

text \<open>In a simulated run calibration and attestation pass exactly when the orchestrator does, which needs a
  well-formed answer of the orchestrator, whatever became of the collector; a failed collector yields no
  event ids.\<close>

theorem simulate_stages_agree:
  assumes "simulatePOST body fCol fTri ms1 ms2 msAll = Some (Inl r)"
  shows "sg_ok (sm_calibration r) = sg_ok (sm_orchestrator r) \<and> sg_ok (sm_attestation r) = sg_ok (sm_orchestrator r) \<and>
    (sg_ok (sm_orchestrator r) \<longrightarrow> (\<exists>data. okJson fTri = Inr data \<and> data \<noteq> Null \<and>
       sm_verdict r = nullish (jsField ''verdict'' data) (Str ''unknown''))) \<and>
    (\<not> sg_ok (sm_collector r) \<longrightarrow> sm_event_ids r = [])"
proof -
  obtain data stages where t: "triageRun fTri ms2 = (data, stages)" by fastforce
  from assms t obtain ids col where c: "collectorRun fCol ms1 = Some (ids, col)"
    and r: "sm_event_ids r = ids" "sm_collector r = col" "sm_orchestrator r = tg_orchestrator stages"
      "sm_calibration r = tg_calibration stages" "sm_attestation r = tg_attestation stages"
      "sm_verdict r = nullish (jsField ''verdict'' data) (Str ''unknown'')"
    by (auto simp: simulatePOST_def Let_def split: option.splits if_splits prod.splits)
  then show ?thesis using stages_agree [OF t] collectorRun_ids [OF c] by auto
qed

definition sampleRun :: jsval where
  "sampleRun = Obj [(''scenario_id'', Str ''s3_exfil''), (''params'', Obj [(''username'', Str ''u''), (''source_ip'', Str ''1.1.1.1''),
     (''region'', Str ''eu''), (''severity'', Num (Fin 1))])]"

theorem simulate_stages_agree_witness:
  "\<exists>r. simulatePOST (Some sampleRun) (Rejected ''down'') (Answer 200 (Some (Obj [])) []) 1 2 3 = Some (Inl r) \<and>
     sg_ok (sm_orchestrator r) \<and> sm_event_ids r = []"
proof -
  have sc: "getScenario ''s3_exfil'' = Some s3_exfil"
    by (simp add: getScenario_def SCENARIOS_def geo_anomaly_def brute_force_def root_account_def s3_exfil_def)
  obtain r where r: "simulatePOST (Some sampleRun) (Rejected ''down'') (Answer 200 (Some (Obj [])) []) 1 2 3 = Some (Inl r)"
    by (simp add: simulatePOST_def sampleRun_def dictGet_def sc asParams_def collectorRun_def triageRun_def okStatus_def
        Let_def)
  then have "sg_ok (sm_orchestrator r)" "\<not> sg_ok (sm_collector r)"
    by (auto simp: simulatePOST_def sampleRun_def dictGet_def sc asParams_def collectorRun_def triageRun_def okStatus_def
        stagesUp_def Let_def)
  with simulate_stages_agree [OF r] r show ?thesis by blast
qed

end
