(* ===== verification/Proxy_Routes.thy ===== *)
theory Proxy_Routes
  imports Js_Value
begin

text \<open>
  The route handlers that pass a request on to another service and its answer back: \<open>app/api/arroyo\<close>,
  \<open>load/start\<close>, \<open>load/status\<close>, \<open>load/stop\<close>, \<open>events\<close>, \<open>detections\<close>, \<open>baselines/user/[name]\<close>, \<open>warm/query\<close>,
  \<open>triage\<close> and \<open>healthz\<close>. The service's answer is an argument. \<open>NextResponse.json\<close> refuses a status that
  allows no body, which the handlers' \<open>catch\<close> sees as an error.
\<close>

section \<open>Model\<close>

definition bodyStatus :: "nat \<Rightarrow> bool" where
  "bodyStatus st \<longleftrightarrow> st \<notin> {204, 205, 304}"

definition statusError :: "nat \<Rightarrow> string" where
  "statusError st = ''TypeError: Response constructor: Invalid response status code '' @ natStr st"

text \<open>\<open>const data = await res.json(); return NextResponse.json(data, \{ status: res.status \})\<close> inside a \<open>try\<close>
  whose \<open>catch\<close> answers \<open>down\<close> of \<open>String(e)\<close>.\<close>

definition relayJson :: "(string \<Rightarrow> response) \<Rightarrow> fetched \<Rightarrow> response" where
  "relayJson down f =
     (case f of
        Rejected m \<Rightarrow> down m
      | Answer st body m \<Rightarrow>
          (case body of
             None \<Rightarrow> down m
           | Some data \<Rightarrow> if bodyStatus st then respond st data else down (statusError st)))"

text \<open>The same with \<open>res.json().catch(() => (\{\}))\<close>.\<close>

definition relayLenient :: "(string \<Rightarrow> response) \<Rightarrow> fetched \<Rightarrow> response" where
  "relayLenient down f =
     (case f of
        Rejected m \<Rightarrow> down m
      | Answer st body m \<Rightarrow>
          if bodyStatus st then respond st (case body of None \<Rightarrow> Obj [] | Some data \<Rightarrow> data) else down (statusError st))"

definition loadStartPOST :: "fetched \<Rightarrow> response" where
  "loadStartPOST = relayLenient (\<lambda>e. respond 502 (errorBody e))"

definition loadStatusGET :: "fetched \<Rightarrow> response" where
  "loadStatusGET = relayLenient (\<lambda>e. respond 502 (Obj [(''error'', Str e), (''running'', Bool False)]))"

definition loadStopPOST :: "fetched \<Rightarrow> response" where
  "loadStopPOST = relayLenient (\<lambda>e. respond 502 (errorBody e))"

definition unavailable :: response where
  "unavailable = respond 503 (errorBody ''control-plane unavailable'')"

definition eventsUrl :: "string \<Rightarrow> string option \<Rightarrow> string" where
  "eventsUrl cpUrl i =
     (case i of
        Some (c # cs) \<Rightarrow> cpUrl @ ''/v1/events/recent?id='' @ encodeURIComponent (c # cs)
      | _ \<Rightarrow> cpUrl @ ''/v1/events/recent'')"

definition eventsGET :: "fetched \<Rightarrow> response" where
  "eventsGET = relayJson (\<lambda>_. unavailable)"

definition baselineProxyUrl :: "string \<Rightarrow> string \<Rightarrow> string" where
  "baselineProxyUrl cpUrl name = cpUrl @ ''/v1/baselines/user/'' @ encodeURIComponent name"

definition baselineGET :: "fetched \<Rightarrow> response" where
  "baselineGET = relayJson (\<lambda>_. unavailable)"

definition warmQueryPOST :: "jsval option \<Rightarrow> fetched \<Rightarrow> response" where
  "warmQueryPOST body f =
     (case body of
        None \<Rightarrow> respond 400 (errorBody ''invalid JSON body'')
      | Some _ \<Rightarrow> relayJson (\<lambda>_. unavailable) f)"

definition triageProxyPOST :: "string + jsval \<Rightarrow> fetched \<Rightarrow> response" where
  "triageProxyPOST body f =
     (case body of
        Inl e \<Rightarrow> respond 503 (errorBody e)
      | Inr _ \<Rightarrow> relayJson (\<lambda>e. respond 503 (errorBody e)) f)"

definition detectionsGET :: "fetched \<Rightarrow> response" where
  "detectionsGET f =
     (let down = respond 503 (errorBody ''control-plane unreachable'')
      in case f of
           Rejected _ \<Rightarrow> down
         | Answer st body _ \<Rightarrow>
             if \<not> okStatus st then
               (if bodyStatus st then respond st (errorBody (''control-plane error: '' @ natStr st)) else down)
             else (case body of None \<Rightarrow> down | Some data \<Rightarrow> respond 200 data))"

definition healthzGET :: "int \<Rightarrow> response" where
  "healthzGET now = respond 200 (Obj [(''ok'', Bool True), (''ts'', Num (Fin (of_int now)))])"

subsection \<open>app/api/arroyo/route.ts\<close>

fun iterable :: "jsval \<Rightarrow> jsval list option" where
  "iterable (Arr vs) = Some vs"
| "iterable (Str s) = Some (map (\<lambda>c. Str [c]) s)"
| "iterable _ = None"

text \<open>\<open>latestJob?.state ?? "Unknown"\<close> for the answer to one pipeline's job request; whatever throws on the
  way ends in the inner \<open>catch\<close> with the same word.\<close>

definition jobState :: "fetched \<Rightarrow> jsval" where
  "jobState f =
     (let unknown = Str ''Unknown''
      in case f of
           Rejected _ \<Rightarrow> unknown
         | Answer st body _ \<Rightarrow>
             if \<not> okStatus st then unknown
             else (case body of
                Some jobs \<Rightarrow>
                  (case nullish (jsField ''data'' jobs) (Arr []) of
                     Arr vs \<Rightarrow> if vs = [] then unknown else nullish (jsField ''state'' (List.last vs)) unknown
                   | _ \<Rightarrow> unknown)
              | None \<Rightarrow> unknown))"

text \<open>The loop; \<open>None\<close> when a pipeline is null, whose \<open>id\<close> the inner \<open>catch\<close> reads again.\<close>

fun pipelineStates :: "(nat \<Rightarrow> fetched) \<Rightarrow> nat \<Rightarrow> jsval list \<Rightarrow> jsval list option" where
  "pipelineStates jobs n [] = Some []"
| "pipelineStates jobs n (p # ps) =
     (if p = Null \<or> p = Undef then None
      else map_option (Cons (Obj [(''id'', jsField ''id'' p), (''name'', jsField ''name'' p), (''state'', jobState (jobs n))]))
             (pipelineStates jobs (Suc n) ps))"

definition arroyoDown :: response where
  "arroyoDown = respond 200 (Obj [(''pipelines'', Arr []), (''error'', Str ''arroyo unreachable'')])"

definition arroyoGET :: "fetched \<Rightarrow> (nat \<Rightarrow> fetched) \<Rightarrow> response" where
  "arroyoGET f jobs =
     (case f of
        Rejected _ \<Rightarrow> arroyoDown
      | Answer st body _ \<Rightarrow>
          if \<not> okStatus st then arroyoDown
          else (case body of
             None \<Rightarrow> arroyoDown
           | Some b \<Rightarrow>
               (case jsFieldE ''data'' b of
                  None \<Rightarrow> arroyoDown
                | Some d \<Rightarrow>
                    (case iterable (nullish d (Arr [])) of
                       None \<Rightarrow> arroyoDown
                     | Some ps \<Rightarrow>
                         (case pipelineStates jobs 0 ps of
                            None \<Rightarrow> arroyoDown
                          | Some out \<Rightarrow> respond 200 (Obj [(''pipelines'', Arr out)]))))))"

section \<open>Decoding\<close>

definition hexVal :: "char \<Rightarrow> nat" where
  "hexVal c = (if code c < 58 then code c - 48 else code c - 55)"

text \<open>What a server makes of an encoded component (code points below 256).\<close>

fun decodeURIComponent :: "string \<Rightarrow> string" where
  "decodeURIComponent (p # a # b # rest) =
     (if p \<noteq> CHR 0x25 then p # decodeURIComponent (a # b # rest)
      else let n = 16 * hexVal a + hexVal b
           in if n < 128 then char_of n # decodeURIComponent rest
              else case rest of
                q # c # d # rest' \<Rightarrow>
                  char_of ((n - 192) * 64 + (16 * hexVal c + hexVal d - 128)) # decodeURIComponent rest'
              | _ \<Rightarrow> [])"
| "decodeURIComponent s = s"

section \<open>Facts\<close>

lemma hexVal_hexDigit: "n < 16 \<Longrightarrow> hexVal (hexDigit n) = n"
  by (auto simp: hexVal_def hexDigit_def code_def)

lemma code_bound: "code c < 256"
  by (simp add: code_def)

lemma unreserved_not_pct: "uri_unreserved c \<Longrightarrow> c \<noteq> CHR 0x25"
  by (auto simp: uri_unreserved_def char_between_def code_def)

lemma decode_plain: "p \<noteq> CHR 0x25 \<Longrightarrow> decodeURIComponent (p # s) = p # decodeURIComponent s"
  by (cases s rule: decodeURIComponent.cases) auto

lemma decode_encodeChar: "decodeURIComponent (encodeChar c @ s) = c # decodeURIComponent s"
proof -
  have byte: "16 * hexVal (hexDigit (n div 16)) + hexVal (hexDigit (n mod 16)) = n" if "n < 256" for n
    using that by (simp add: hexVal_hexDigit)
  consider (plain) "uri_unreserved c" | (one) "\<not> uri_unreserved c" "code c < 128" | (two) "\<not> uri_unreserved c" "128 \<le> code c"
    by linarith
  then show ?thesis
  proof cases
    case plain
    then show ?thesis by (simp add: encodeChar_def decode_plain unreserved_not_pct)
  next
    case one
    then show ?thesis by (simp add: encodeChar_def pctByte_def byte Let_def) (simp add: code_def)
  next
    case two
    have b: "code c div 64 < 4" "code c mod 64 < 64" using code_bound [of c] by auto
    have "(192 + code c div 64 - 192) * 64 + (128 + code c mod 64 - 128) = code c" by simp
    then show ?thesis
      using two b byte [of "192 + code c div 64"] byte [of "128 + code c mod 64"]
      by (simp add: encodeChar_def pctByte_def Let_def) (simp add: code_def)
  qed
qed

lemma decode_encode: "decodeURIComponent (encodeURIComponent s) = s"
  by (induction s) (simp_all add: encodeURIComponent_def decode_encodeChar)

lemma hexDigit_unreserved: "n < 16 \<Longrightarrow> uri_unreserved (hexDigit n)"
  by (simp add: hexDigit_def uri_unreserved_def char_between_def code_def)

lemma encodeChar_chars: "x \<in> set (encodeChar c) \<Longrightarrow> uri_unreserved x \<or> x = CHR 0x25"
  using code_bound [of c]
  by (auto simp: encodeChar_def pctByte_def intro!: hexDigit_unreserved split: if_splits)

lemma encode_chars: "x \<in> set (encodeURIComponent s) \<Longrightarrow> uri_unreserved x \<or> x = CHR 0x25"
  by (auto simp: encodeURIComponent_def dest: encodeChar_chars)

lemma encode_no_delimiter:
  "CHR ''/'' \<notin> set (encodeURIComponent s)" "CHR ''?'' \<notin> set (encodeURIComponent s)"
  "CHR ''#'' \<notin> set (encodeURIComponent s)" "CHR ''&'' \<notin> set (encodeURIComponent s)"
  by (auto dest!: encode_chars simp: uri_unreserved_def char_between_def code_def)

section \<open>Properties\<close>

text \<open>A relayed success is the service's own: status and body are those it sent.\<close>

lemma relayJson_ok:
  assumes "\<And>e. \<not> okStatus (rs_status (down e))" and "okStatus (rs_status (relayJson down f))"
  shows "\<exists>st data m. f = Answer st (Some data) m \<and> okStatus st \<and> relayJson down f = respond st data"
  using assms by (cases f) (auto simp: relayJson_def split: option.splits if_splits)

lemma relayLenient_ok:
  assumes "\<And>e. \<not> okStatus (rs_status (down e))" and "okStatus (rs_status (relayLenient down f))"
  shows "\<exists>st body m. f = Answer st body m \<and> okStatus st"
  using assms by (cases f) (auto simp: relayLenient_def split: option.splits if_splits)



end
