(* ===== verification/Auth_Routes.thy ===== *)
theory Auth_Routes
  imports Workbench_Types Proxy_Routes
begin

text \<open>
  Who may do what: \<open>lib/auth.ts\<close> (the session secret), \<open>proxy.ts\<close> (pages that need a session),
  \<open>app/api/auth/ws-token\<close>, \<open>seed-analyst\<close>, \<open>force-logout\<close> and \<open>app/api/cases/[caseId]/override\<close>. The session
  the authentication library finds is an argument, as is the signing function of the token library; the
  claims it signs are part of the model.
\<close>

section \<open>lib/auth.ts\<close>

record auth_env =
  ae_secret :: "string option"
  ae_node_env :: "string option"
  ae_next_phase :: "string option"
  ae_auth_url :: "string option"
  ae_app_url :: "string option"
  ae_allow_seed :: "string option"
  ae_seed_secret :: "string option"
  ae_ws_secret :: "string option"

definition DEV_AUTH_SECRET :: string where
  "DEV_AUTH_SECRET = ''local-dev-better-auth-secret-min-32-chars!!''"

definition authBaseURL :: "auth_env \<Rightarrow> string" where
  "authBaseURL env = orElse (ae_auth_url env) (orElse (ae_app_url env) ''http://localhost:3000'')"

definition productionRuntime :: "auth_env \<Rightarrow> bool" where
  "productionRuntime env \<longleftrightarrow>
     ae_node_env env = Some ''production'' \<and> ae_next_phase env \<noteq> Some ''phase-production-build''"

definition resolveAuthSecret :: "auth_env \<Rightarrow> string + string" where
  "resolveAuthSecret env =
     (if \<not> productionRuntime env then Inr (orElse (ae_secret env) DEV_AUTH_SECRET)
      else case ae_secret env of
        None \<Rightarrow> Inl ''BETTER_AUTH_SECRET must be set to a unique value of at least 32 characters in production''
      | Some s \<Rightarrow>
          if s = [] \<or> s = DEV_AUTH_SECRET \<or> length s < 32
          then Inl ''BETTER_AUTH_SECRET must be set to a unique value of at least 32 characters in production''
          else Inr s)"

definition signUpDisabled :: "auth_env \<Rightarrow> bool" where
  "signUpDisabled env \<longleftrightarrow> ae_allow_seed env \<noteq> Some ''1''"

section \<open>proxy.ts\<close>

datatype page_answer = NextPage | RedirectLogin string

definition pageProxy :: "string \<Rightarrow> string option \<Rightarrow> page_answer" where
  "pageProxy pathname token =
     (if \<not> startsWith pathname ''/workbench'' then NextPage
      else if token = None \<or> token = Some [] then RedirectLogin pathname
      else NextPage)"

section \<open>app/api/auth/ws-token/route.ts\<close>

record session_user =
  us_id :: string
  us_email :: "string option"

record ws_claims =
  wc_sub :: string
  wc_email :: string
  wc_tenant_id :: string
  wc_case_id :: string

definition DEFAULT_TENANT :: string where
  "DEFAULT_TENANT = ''default''"

definition getWsSecret :: "auth_env \<Rightarrow> string" where
  "getWsSecret env = orElse (ae_ws_secret env) ''dev-ws-jwt-secret-change-me-min-32-chars!''"

text \<open>\<open>None\<close>: the handler throws (a body that is null, or a \<open>case_id\<close> that is not a string).\<close>

definition wsTokenPOST ::
  "(string \<Rightarrow> ws_claims \<Rightarrow> string) \<Rightarrow> auth_env \<Rightarrow> session_user option \<Rightarrow> jsval option \<Rightarrow> response option" where
  "wsTokenPOST sign env session body =
     (case session of
        None \<Rightarrow> Some (respond 401 (errorBody ''unauthorized''))
      | Some user \<Rightarrow>
          (case body of
             None \<Rightarrow> Some (respond 400 (errorBody ''invalid JSON''))
           | Some b \<Rightarrow>
               let missing = Some (respond 400 (errorBody ''case_id required''))
               in case jsFieldE ''case_id'' b of
                    None \<Rightarrow> None
                  | Some Undef \<Rightarrow> missing
                  | Some Null \<Rightarrow> missing
                  | Some (Str s) \<Rightarrow>
                      if trim s = [] then missing
                      else Some (respond 200 (Obj
                        [(''token'', Str (sign (getWsSecret env)
                            \<lparr>wc_sub = us_id user, wc_email = orElse (us_email user) [], wc_tenant_id = DEFAULT_TENANT,
                             wc_case_id = trim s\<rparr>)),
                         (''expires_in'', Num (Fin 60))]))
                  | Some _ \<Rightarrow> None))"

section \<open>app/api/cases/[caseId]/override/route.ts\<close>

record override_request =
  or_url :: string
  or_actor_id :: string
  or_actor_email :: string
  or_body :: jsval

definition overridePOST ::
  "string \<Rightarrow> session_user option \<Rightarrow> string \<Rightarrow> jsval option \<Rightarrow> fetched \<Rightarrow> response \<times> override_request list" where
  "overridePOST orchestrator session caseId body f =
     (case session of
        None \<Rightarrow> (respond 401 (errorBody ''unauthorized''), [])
      | Some user \<Rightarrow>
          (case body of
             None \<Rightarrow> (respond 400 (errorBody ''invalid JSON''), [])
           | Some b \<Rightarrow>
               (let down = respond 503 (errorBody ''orchestrator unavailable'')
                in case f of
                     Rejected _ \<Rightarrow> down
                   | Answer st data _ \<Rightarrow>
                       if bodyStatus st
                       then respond st (case data of None \<Rightarrow> errorBody ''invalid JSON from orchestrator'' | Some d \<Rightarrow> d)
                       else down,
                [\<lparr>or_url = dropTrailingSlash orchestrator @ ''/v1/cases/'' @ encodeURIComponent caseId @ ''/override'',
                  or_actor_id = us_id user, or_actor_email = orElse (us_email user) [], or_body = b\<rparr>])))"

section \<open>app/api/auth/seed-analyst/route.ts\<close>

definition SEED_EMAIL :: string where
  "SEED_EMAIL = ''analyst@attest.local''"

datatype seed_answer = SeedNotFound | SeedUnauthorized | SeedExists | SeedSignUp

definition seedAnalystPOST :: "auth_env \<Rightarrow> string option \<Rightarrow> auth_user_row list \<Rightarrow> seed_answer" where
  "seedAnalystPOST env secret users =
     (if ae_node_env env = Some ''production'' \<or> ae_allow_seed env \<noteq> Some ''1'' then SeedNotFound
      else if secret = None \<or> secret = Some [] \<or> secret \<noteq> ae_seed_secret env then SeedUnauthorized
      else if list_ex (\<lambda>u. au_email u = SEED_EMAIL) users then SeedExists
      else SeedSignUp)"

section \<open>app/api/auth/force-logout/route.ts\<close>

record cookie =
  ck_name :: string
  ck_value :: string
  ck_maxAge :: int
  ck_httpOnly :: bool
  ck_secure :: bool

definition SESSION_COOKIES :: "string list" where
  "SESSION_COOKIES = [''better-auth.session_token'', ''__Secure-better-auth.session_token'',
     ''better-auth.session_data'', ''__Secure-better-auth.session_data'']"

definition clearSessionCookies :: "cookie list" where
  "clearSessionCookies = map (\<lambda>name. \<lparr>ck_name = name, ck_value = [], ck_maxAge = 0, ck_httpOnly = True,
     ck_secure = startsWith name ''__Secure-''\<rparr>) SESSION_COOKIES"

definition forceLogoutPOST :: "response \<times> cookie list" where
  "forceLogoutPOST = (respond 200 (Obj [(''ok'', Bool True)]), clearSessionCookies)"

text \<open>\<open>new URL("/login", req.url)\<close>: the scheme and host of the request's address with the path \<open>/login\<close>.\<close>

definition urlOrigin :: "string \<Rightarrow> string" where
  "urlOrigin url = (let scheme = takeWhile (\<lambda>c. c \<noteq> CHR '':'') url; rest = drop (length scheme + 3) url
     in scheme @ ''://'' @ takeWhile (\<lambda>c. c \<notin> set ''/?#'') rest)"

definition forceLogoutGET :: "string \<Rightarrow> string \<times> cookie list" where
  "forceLogoutGET url = (urlOrigin url @ ''/login'', clearSessionCookies)"

text \<open>The browser's side: a stored cookie has a name, a value and the mark that it is sent over https only. A cookie with age
  zero removes the stored ones of its name; one that asks for https is refused elsewhere, and a stored https cookie
  is not touched from elsewhere.\<close>

type_synonym jar = "(string \<times> string \<times> bool) list"

definition sentCookies :: "bool \<Rightarrow> jar \<Rightarrow> string dict" where
  "sentCookies https j = map (\<lambda>(n, v, _). (n, v)) (filter (\<lambda>(_, _, secure). https \<or> \<not> secure) j)"

definition setCookie :: "bool \<Rightarrow> cookie \<Rightarrow> jar \<Rightarrow> jar" where
  "setCookie https c j =
     (if ck_secure c \<and> \<not> https then j
      else let kept = filter (\<lambda>(n, _, secure). n \<noteq> ck_name c \<or> secure \<and> \<not> https) j
        in if ck_maxAge c \<le> 0 then kept else kept @ [(ck_name c, ck_value c, ck_secure c)])"

section \<open>Facts\<close>

lemma setCookie_removes:
  "ck_maxAge c \<le> 0 \<Longrightarrow> set (setCookie https c j) \<subseteq> set j"
  by (auto simp: setCookie_def Let_def)

lemma setCookies_subset: "list_all (\<lambda>c. ck_maxAge c \<le> 0) cs \<Longrightarrow> set (fold (setCookie https) cs j) \<subseteq> set j"
proof (induction cs arbitrary: j)
  case (Cons c cs)
  from Cons.prems have rest: "list_all (\<lambda>c. ck_maxAge c \<le> 0) cs" and c: "ck_maxAge c \<le> 0" by simp_all
  show ?case unfolding fold_simps by (rule order_trans [OF Cons.IH [OF rest] setCookie_removes [OF c]])
qed simp

lemma cleared_name:
  assumes "c \<in> set cs" "list_all (\<lambda>c. ck_maxAge c \<le> 0) cs" "ck_secure c \<longrightarrow> https"
  shows "ck_name c \<notin> set (dictKeys (sentCookies https (fold (setCookie https) cs j)))"
proof -
  from assms(1) obtain as bs where cs: "cs = as @ c # bs" by (meson split_list)
  let ?j = "setCookie https c (fold (setCookie https) as j)"
  have sub: "set (fold (setCookie https) cs j) \<subseteq> set ?j"
    using setCookies_subset [of bs https ?j] assms(2) by (simp add: cs)
  have "(ck_name c, v, secure) \<notin> set ?j" if "https \<or> \<not> secure" for v secure
    using assms(2,3) that by (cases https) (simp_all add: cs setCookie_def Let_def)
  with sub have "(ck_name c, v, secure) \<notin> set (fold (setCookie https) cs j)" if "https \<or> \<not> secure" for v secure
    using that by blast
  then show ?thesis by (auto simp: sentCookies_def dictKeys_def)
qed

section \<open>Properties\<close>

text \<open>C24: a production server never signs sessions with the secret published in the repository or with a short
  one: there the secret is the configured one, of at least 32 characters, or the server does not start.\<close>

theorem production_secret:
  assumes "productionRuntime env"
  shows "case resolveAuthSecret env of
      Inr s \<Rightarrow> ae_secret env = Some s \<and> 32 \<le> length s \<and> s \<noteq> DEV_AUTH_SECRET
    | Inl _ \<Rightarrow> (\<forall>s. ae_secret env = Some s \<longrightarrow> length s < 32 \<or> s = DEV_AUTH_SECRET)"
  using assms by (auto simp: resolveAuthSecret_def split: option.splits)

definition sampleEnv :: auth_env where
  "sampleEnv = \<lparr>ae_secret = None, ae_node_env = Some ''production'', ae_next_phase = None, ae_auth_url = None,
     ae_app_url = None, ae_allow_seed = None, ae_seed_secret = None, ae_ws_secret = None\<rparr>"

theorem production_secret_witness: "\<exists>m. resolveAuthSecret sampleEnv = Inl m"
proof -
  have "productionRuntime sampleEnv" by (simp add: productionRuntime_def sampleEnv_def)
  from production_secret [OF this] show ?thesis
    by (cases "resolveAuthSecret sampleEnv") (auto simp: sampleEnv_def)
qed

text \<open>C21: an override reaches the orchestrator only for a signed-in analyst, once, under that analyst's own id and
  e-mail whatever the body claims, at the address of exactly this case; and a trace token is issued only to
  a signed-in user, for the one non-blank case that was asked for.\<close>

theorem acts_are_authenticated:
  "(snd (overridePOST orc session c body f) \<noteq> [] \<longrightarrow> (\<exists>user b seg. session = Some user \<and> body = Some b \<and>
      snd (overridePOST orc session c body f) = [\<lparr>or_url = dropTrailingSlash orc @ ''/v1/cases/'' @ seg @ ''/override'',
        or_actor_id = us_id user, or_actor_email = orElse (us_email user) [], or_body = b\<rparr>] \<and>
      decodeURIComponent seg = c \<and> CHR ''/'' \<notin> set seg)) \<and>
   (\<forall>r. wsTokenPOST sign env session body = Some r \<and> rs_status r = 200 \<longrightarrow>
      (\<exists>user b s. session = Some user \<and> body = Some b \<and> jsField ''case_id'' b = Str s \<and> trim s \<noteq> [] \<and>
        jsField ''token'' (rs_body r) = Str (sign (getWsSecret env) \<lparr>wc_sub = us_id user,
          wc_email = orElse (us_email user) [], wc_tenant_id = DEFAULT_TENANT, wc_case_id = trim s\<rparr>)))"
proof (intro conjI impI allI)
  assume sent: "snd (overridePOST orc session c body f) \<noteq> []"
  then obtain user b where ub: "session = Some user" "body = Some b"
    by (cases session; cases body) (auto simp: overridePOST_def)
  moreover have "snd (overridePOST orc session c body f) = [\<lparr>or_url = dropTrailingSlash orc @ ''/v1/cases/''
      @ encodeURIComponent c @ ''/override'', or_actor_id = us_id user, or_actor_email = orElse (us_email user) [], or_body = b\<rparr>]"
    using ub by (simp add: overridePOST_def Let_def)
  ultimately show "\<exists>user b seg. session = Some user \<and> body = Some b \<and>
      snd (overridePOST orc session c body f) = [\<lparr>or_url = dropTrailingSlash orc @ ''/v1/cases/'' @ seg @ ''/override'',
        or_actor_id = us_id user, or_actor_email = orElse (us_email user) [], or_body = b\<rparr>] \<and>
      decodeURIComponent seg = c \<and> CHR ''/'' \<notin> set seg"
    using decode_encode encode_no_delimiter(1) by blast
next
  fix r assume "wsTokenPOST sign env session body = Some r \<and> rs_status r = 200"
  then show "\<exists>user b s. session = Some user \<and> body = Some b \<and> jsField ''case_id'' b = Str s \<and> trim s \<noteq> [] \<and>
        jsField ''token'' (rs_body r) = Str (sign (getWsSecret env) \<lparr>wc_sub = us_id user,
          wc_email = orElse (us_email user) [], wc_tenant_id = DEFAULT_TENANT, wc_case_id = trim s\<rparr>)"
    by (auto simp: wsTokenPOST_def Let_def jsFieldE_def dictGet_def split: option.splits jsval.splits if_splits)
qed

theorem acts_are_authenticated_witness:
  "\<exists>user b seg. Some \<lparr>us_id = ''u1'', us_email = None\<rparr> = Some user \<and> Some (Obj []) = Some b \<and>
     snd (overridePOST ''http://o/'' (Some \<lparr>us_id = ''u1'', us_email = None\<rparr>) ''c 1'' (Some (Obj [])) (Rejected [])) =
       [\<lparr>or_url = dropTrailingSlash ''http://o/'' @ ''/v1/cases/'' @ seg @ ''/override'',
        or_actor_id = us_id user, or_actor_email = orElse (us_email user) [], or_body = b\<rparr>] \<and>
     decodeURIComponent seg = ''c 1'' \<and> CHR ''/'' \<notin> set seg"
proof -
  have "snd (overridePOST ''http://o/'' (Some \<lparr>us_id = ''u1'', us_email = None\<rparr>) ''c 1'' (Some (Obj [])) (Rejected [])) \<noteq> []"
    by (simp add: overridePOST_def Let_def)
  then show ?thesis
    by (rule conjunct1 [OF acts_are_authenticated, THEN mp])
qed

text \<open>The analyst account is seeded only outside production, with seeding allowed and the configured secret in
  the request, and only when no such user exists.\<close>


definition firstSession :: "string dict \<Rightarrow> string option" where
  "firstSession cs = (case dictGet cs ''better-auth.session_token'' of Some t \<Rightarrow> Some t
     | None \<Rightarrow> dictGet cs ''__Secure-better-auth.session_token'')"


lemma seed_guarded:
  "seedAnalystPOST env secret users = SeedSignUp \<Longrightarrow>
   ae_node_env env \<noteq> Some ''production'' \<and> \<not> signUpDisabled env \<and> secret = ae_seed_secret env \<and> secret \<noteq> None \<and>
   (\<forall>u \<in> set users. au_email u \<noteq> SEED_EMAIL)"
  by (cases "ae_seed_secret env") (auto simp: seedAnalystPOST_def signUpDisabled_def list_ex_iff split: if_splits)

lemma workbench_needs_token:
  "startsWith pathname ''/workbench'' \<Longrightarrow> pageProxy pathname token = NextPage \<longleftrightarrow> (\<exists>t. token = Some t \<and> t \<noteq> [])"
  by (cases token) (auto simp: pageProxy_def)

lemma logout_clears:
  "list_all (\<lambda>c. ck_maxAge c = 0 \<and> ck_value c = [] \<and> (ck_secure c \<longleftrightarrow> startsWith (ck_name c) ''__Secure-'')) clearSessionCookies"
  by (simp add: clearSessionCookies_def list_all_iff)

end
