(* ===== verification/Case_Store.thy ===== *)
theory Case_Store
  imports Workbench_Types
begin

text \<open>
  \<open>lib/stores/case-store.ts\<close>: the client's store of opened cases, at most \<open>MAX_CASES\<close> of them,
  each with its event, verdict, triage job state, trace steps and the analyst's disposition; and
  the smaller \<open>lib/stores/case-state-store.ts\<close>. The store is the object \<open>cases\<close>; every read of
  \<open>Date.now()\<close> is an argument of the operation. Writing the store to \<open>sessionStorage\<close> is done by
  zustand and not modelled.
\<close>

section \<open>State\<close>

datatype disposition = DNone | DApproved | DOverride

type_synonym baseline = "string list option"

record case_entry =
  ce_event :: ocsf_event
  ce_baseline :: "baseline option"
  ce_verdict :: "triage_verdict option"
  ce_triageStatus :: triage_status
  ce_triageStartedAt :: "int option"
  ce_triageError :: "string option"
  ce_traceSteps :: "kafka_step list"
  ce_disposition :: disposition
  ce_overrideLabel :: "string option"
  ce_updatedAt :: int

type_synonym case_store = "case_entry dict"

definition MAX_CASES :: nat where
  "MAX_CASES = 50"

section \<open>Operations\<close>

definition evictIfNeeded :: "case_store \<Rightarrow> string \<Rightarrow> case_store" where
  "evictIfNeeded cases incomingId =
     (if inObject incomingId cases \<or> length (objectEntries cases) < MAX_CASES then cases
      else case sort_key (\<lambda>(_, e). ce_updatedAt e)
                  (filter (\<lambda>(k, _). k \<noteq> incomingId) (objectEntries cases)) of
             [] \<Rightarrow> cases
           | (k, _) # _ \<Rightarrow> dictDel k cases)"

definition initEntry :: "case_entry option \<Rightarrow> ocsf_event \<Rightarrow> baseline option \<Rightarrow> int \<Rightarrow> case_entry" where
  "initEntry existing ev base now =
     \<lparr>ce_event = ev,
      ce_baseline = base,
      ce_verdict = (case existing of None \<Rightarrow> None | Some e \<Rightarrow> ce_verdict e),
      ce_triageStatus = (case existing of None \<Rightarrow> TIdle | Some e \<Rightarrow> ce_triageStatus e),
      ce_triageStartedAt = (case existing of None \<Rightarrow> None | Some e \<Rightarrow> ce_triageStartedAt e),
      ce_triageError = (case existing of None \<Rightarrow> None | Some e \<Rightarrow> ce_triageError e),
      ce_traceSteps = (case existing of None \<Rightarrow> [] | Some e \<Rightarrow> ce_traceSteps e),
      ce_disposition = (case existing of None \<Rightarrow> DNone | Some e \<Rightarrow> ce_disposition e),
      ce_overrideLabel = (case existing of None \<Rightarrow> None | Some e \<Rightarrow> ce_overrideLabel e),
      ce_updatedAt = now\<rparr>"

definition initCase :: "string \<Rightarrow> ocsf_event \<Rightarrow> baseline option \<Rightarrow> int \<Rightarrow> case_store \<Rightarrow> case_store" where
  "initCase caseId ev base now cases =
     (let existing = dictGet cases caseId
      in dictPut caseId (initEntry existing ev base now) (evictIfNeeded cases caseId))"

text \<open>The writers that return the state unchanged when the case is unknown.\<close>

definition updateEntry :: "string \<Rightarrow> (case_entry \<Rightarrow> case_entry) \<Rightarrow> case_store \<Rightarrow> case_store" where
  "updateEntry caseId f cases =
     (case dictGet cases caseId of None \<Rightarrow> cases | Some entry \<Rightarrow> dictPut caseId (f entry) cases)"

definition startTriage :: "string \<Rightarrow> int \<Rightarrow> int \<Rightarrow> case_store \<Rightarrow> case_store" where
  "startTriage caseId now now' = updateEntry caseId (\<lambda>e. e\<lparr>ce_triageStatus := TRunning,
     ce_triageStartedAt := Some now, ce_triageError := None, ce_updatedAt := now'\<rparr>)"

definition setVerdict :: "string \<Rightarrow> triage_verdict \<Rightarrow> int \<Rightarrow> case_store \<Rightarrow> case_store" where
  "setVerdict caseId v now = updateEntry caseId (\<lambda>e. e\<lparr>ce_verdict := Some v,
     ce_triageStatus := TComplete, ce_triageError := None, ce_updatedAt := now\<rparr>)"

definition failTriage :: "string \<Rightarrow> string \<Rightarrow> int \<Rightarrow> case_store \<Rightarrow> case_store" where
  "failTriage caseId err now = updateEntry caseId (\<lambda>e. e\<lparr>ce_triageStatus := TFailed,
     ce_triageError := Some err, ce_updatedAt := now\<rparr>)"

definition appendTraceStep :: "string \<Rightarrow> kafka_step \<Rightarrow> int \<Rightarrow> case_store \<Rightarrow> case_store" where
  "appendTraceStep caseId step now cases =
     (case dictGet cases caseId of
        None \<Rightarrow> cases
      | Some entry \<Rightarrow>
          if list_ex (\<lambda>t. stepKey t = stepKey step) (ce_traceSteps entry) then cases
          else dictPut caseId (entry\<lparr>ce_traceSteps := step # ce_traceSteps entry,
                 ce_updatedAt := now\<rparr>) cases)"

definition clearTraceSteps :: "string \<Rightarrow> int \<Rightarrow> case_store \<Rightarrow> case_store" where
  "clearTraceSteps caseId now =
     updateEntry caseId (\<lambda>e. e\<lparr>ce_traceSteps := [], ce_updatedAt := now\<rparr>)"

definition setApproved :: "string \<Rightarrow> int \<Rightarrow> case_store \<Rightarrow> case_store" where
  "setApproved caseId now =
     updateEntry caseId (\<lambda>e. e\<lparr>ce_disposition := DApproved, ce_updatedAt := now\<rparr>)"

definition setOverride :: "string \<Rightarrow> string \<Rightarrow> int \<Rightarrow> case_store \<Rightarrow> case_store" where
  "setOverride caseId label now = updateEntry caseId (\<lambda>e. e\<lparr>ce_disposition := DOverride,
     ce_overrideLabel := Some label, ce_updatedAt := now\<rparr>)"

definition evict :: "string \<Rightarrow> case_store \<Rightarrow> case_store" where
  "evict caseId cases = dictDel caseId cases"

section \<open>Selectors\<close>

definition selectCase :: "string \<Rightarrow> case_store \<Rightarrow> case_entry option" where
  "selectCase caseId cases = dictGet cases caseId"

definition selectVerdict :: "string \<Rightarrow> case_store \<Rightarrow> triage_verdict option" where
  "selectVerdict caseId cases =
     (case dictGet cases caseId of None \<Rightarrow> None | Some e \<Rightarrow> ce_verdict e)"

definition selectTraceSteps :: "string \<Rightarrow> case_store \<Rightarrow> kafka_step list" where
  "selectTraceSteps caseId cases =
     (case dictGet cases caseId of None \<Rightarrow> [] | Some e \<Rightarrow> ce_traceSteps e)"

definition selectDisposition :: "string \<Rightarrow> case_store \<Rightarrow> disposition" where
  "selectDisposition caseId cases =
     (case dictGet cases caseId of None \<Rightarrow> DNone | Some e \<Rightarrow> ce_disposition e)"

section \<open>Runs\<close>

datatype case_op =
    InitCase string ocsf_event "baseline option" int
  | StartTriage string int int
  | SetVerdict string triage_verdict int
  | FailTriage string string int
  | AppendTraceStep string kafka_step int
  | ClearTraceSteps string int
  | SetApproved string int
  | SetOverride string string int
  | Evict string

fun caseStep :: "case_op \<Rightarrow> case_store \<Rightarrow> case_store" where
  "caseStep (InitCase i ev b t) = initCase i ev b t"
| "caseStep (StartTriage i t t') = startTriage i t t'"
| "caseStep (SetVerdict i v t) = setVerdict i v t"
| "caseStep (FailTriage i e t) = failTriage i e t"
| "caseStep (AppendTraceStep i s t) = appendTraceStep i s t"
| "caseStep (ClearTraceSteps i t) = clearTraceSteps i t"
| "caseStep (SetApproved i t) = setApproved i t"
| "caseStep (SetOverride i l t) = setOverride i l t"
| "caseStep (Evict i) = evict i"

text \<open>A case may be opened under any id that is not the name of a member of
  \<open>Object.prototype\<close>; on those names \<open>incomingId in cases\<close> holds although no case has the id.\<close>

fun properOp :: "case_op \<Rightarrow> bool" where
  "properOp (InitCase i _ _ _) = (i \<notin> set objectPrototype)"
| "properOp _ = True"

text \<open>What every entry satisfies: the job state agrees with the fields that go with it, and no
  two trace steps share a key.\<close>

definition entryOk :: "case_entry \<Rightarrow> bool" where
  "entryOk e \<longleftrightarrow>
     (ce_triageStatus e = TComplete \<longrightarrow> ce_verdict e \<noteq> None) \<and>
     (ce_triageStatus e = TRunning \<longrightarrow> ce_triageStartedAt e \<noteq> None) \<and>
     (ce_triageStatus e = TFailed \<longleftrightarrow> ce_triageError e \<noteq> None) \<and>
     (ce_disposition e = DOverride \<longrightarrow> ce_overrideLabel e \<noteq> None) \<and>
     distinct (map stepKey (ce_traceSteps e))"

definition storeOk :: "case_store \<Rightarrow> bool" where
  "storeOk cases \<longleftrightarrow>
     wf_dict cases \<and> length cases \<le> MAX_CASES \<and> (\<forall>k e. dictGet cases k = Some e \<longrightarrow> entryOk e)"

section \<open>Facts\<close>

lemma updateEntry_get [store_simps]:
  "dictGet (updateEntry i f cases) k =
     (if k = i then map_option f (dictGet cases i) else dictGet cases k)"
  by (auto simp: updateEntry_def dictGet_put split: option.splits)

lemma updateEntry_keys: "dictKeys (updateEntry i f cases) = dictKeys cases"
  by (auto simp: updateEntry_def dictKeys_put dictKeys_get split: option.splits)

lemma updateEntry_length: "length (updateEntry i f cases) = length cases"
  using updateEntry_keys [of i f cases] by (metis length_dictKeys)

lemma updateEntry_unknown: "dictGet cases i = None \<Longrightarrow> updateEntry i f cases = cases"
  by (simp add: updateEntry_def)

lemma appendTraceStep_alt:
  "appendTraceStep i s t cases =
     (case dictGet cases i of None \<Rightarrow> cases
      | Some e \<Rightarrow> if stepKey s \<in> stepKey ` set (ce_traceSteps e) then cases
          else updateEntry i (\<lambda>e. e\<lparr>ce_traceSteps := s # ce_traceSteps e, ce_updatedAt := t\<rparr>) cases)"
proof -
  have "list_ex (\<lambda>u. stepKey u = stepKey s) us \<longleftrightarrow> stepKey s \<in> stepKey ` set us" for us
    by (induction us) auto
  then show ?thesis by (simp add: appendTraceStep_def updateEntry_def split: option.splits)
qed

lemma storeOk_updateEntry:
  assumes ok: "storeOk cases" and f: "\<And>e. dictGet cases i = Some e \<Longrightarrow> entryOk e \<Longrightarrow> entryOk (f e)"
  shows "storeOk (updateEntry i f cases)"
proof -
  have "wf_dict (updateEntry i f cases)"
    using ok by (simp add: storeOk_def wf_dict_def updateEntry_keys)
  moreover have "entryOk e" if "dictGet (updateEntry i f cases) k = Some e" for k e
    using that ok f by (auto simp: updateEntry_get storeOk_def split: if_splits)
  ultimately show ?thesis
    using ok by (simp add: storeOk_def updateEntry_length)
qed

lemma storeOk_dictDel: "storeOk cases \<Longrightarrow> storeOk (dictDel k cases)"
proof -
  assume ok: "storeOk cases"
  have "length (dictDel k cases) \<le> length cases"
    by (simp add: dictDel_def)
  then show ?thesis
    using ok by (auto simp: storeOk_def js_dict.wf_del dictGet_del split: if_splits)
qed

subsection \<open>Eviction\<close>

lemma sort_key_Cons_min: "sort_key f xs = y # ys \<Longrightarrow> y \<in> set xs \<and> (\<forall>x\<in>set xs. f y \<le> f x)"
proof -
  assume eq: "sort_key f xs = y # ys"
  have "sorted (map f (sort_key f xs))" by simp
  with eq have "\<forall>x\<in>set (y # ys). f y \<le> f x" by auto
  then show ?thesis using eq by (metis list.set_intros(1) set_sort)
qed

text \<open>At capacity a new id pushes out a case that no other case is older than.\<close>

lemma evictIfNeeded_full:
  assumes wf: "wf_dict cases" and full: "MAX_CASES \<le> length cases"
    and new: "\<not> inObject i cases"
  shows "\<exists>k e. dictGet cases k = Some e \<and> evictIfNeeded cases i = dictDel k cases \<and>
    (\<forall>j f. dictGet cases j = Some f \<longrightarrow> ce_updatedAt e \<le> ce_updatedAt f)"
proof -
  let ?es = "filter (\<lambda>(k, _). k \<noteq> i) (objectEntries cases)"
  have others: "k \<noteq> i" if "(k, e) \<in> set cases" for k e
    using new that by (force simp: inObject_def dictKeys_def)
  have es: "set ?es = set cases" using others by auto
  have "cases \<noteq> []" using full by (auto simp: MAX_CASES_def)
  then have "sort_key (\<lambda>(_, e). ce_updatedAt e) ?es \<noteq> []"
    using es by (metis set_empty set_sort)
  then obtain k e rest where s: "sort_key (\<lambda>(_, e). ce_updatedAt e) ?es = (k, e) # rest"
    by (metis list.exhaust surj_pair)
  from sort_key_Cons_min [OF s]
  have ke: "(k, e) \<in> set cases" and min: "\<forall>x\<in>set cases. ce_updatedAt e \<le> ce_updatedAt (snd x)"
    unfolding es by (simp_all add: case_prod_unfold)
  have "evictIfNeeded cases i = dictDel k cases"
    using s full new by (simp add: evictIfNeeded_def)
  moreover have "dictGet cases k = Some e" using wf ke by (simp add: dictGet_in_set)
  moreover have "ce_updatedAt e \<le> ce_updatedAt f" if "dictGet cases j = Some f" for j f
    using min wf that by (force simp: dictGet_in_set)
  ultimately show ?thesis by blast
qed

lemma evictIfNeeded_room:
  "inObject i cases \<or> length cases < MAX_CASES \<Longrightarrow> evictIfNeeded cases i = cases"
  by (simp add: evictIfNeeded_def)

lemma evictIfNeeded_storeOk:
  assumes ok: "storeOk cases" and i: "i \<notin> set objectPrototype"
  shows "storeOk (evictIfNeeded cases i)
    \<and> (dictGet (evictIfNeeded cases i) i = None \<longrightarrow> length (evictIfNeeded cases i) < MAX_CASES)"
proof (cases "inObject i cases \<or> length cases < MAX_CASES")
  case True
  moreover have "dictGet cases i \<noteq> None" if "inObject i cases"
    using that i by (simp add: inObject_def dictKeys_get)
  ultimately show ?thesis
    using ok evictIfNeeded_room [OF True] by (auto simp del: not_None_eq)
next
  case False
  then have full: "MAX_CASES \<le> length cases" and new: "\<not> inObject i cases" by auto
  from ok have wf: "wf_dict cases" and le: "length cases \<le> MAX_CASES" by (auto simp: storeOk_def)
  obtain k e where k: "dictGet cases k = Some e" and del: "evictIfNeeded cases i = dictDel k cases"
    using evictIfNeeded_full [OF wf full new] by blast
  have "length (dictDel k cases) < MAX_CASES"
    using js_dict.length_del [OF wf, of k] k le full by (simp add: MAX_CASES_def)
  then show ?thesis using ok del by (simp add: storeOk_dictDel)
qed

lemma entryOk_initEntry:
  "(\<And>e. existing = Some e \<Longrightarrow> entryOk e) \<Longrightarrow> entryOk (initEntry existing ev b t)"
  by (cases existing) (auto simp: entryOk_def initEntry_def)

lemma storeOk_initCase:
  assumes ok: "storeOk cases" and i: "i \<notin> set objectPrototype"
  shows "storeOk (initCase i ev b t cases)"
proof -
  let ?c = "evictIfNeeded cases i" and ?e = "initEntry (dictGet cases i) ev b t"
  from evictIfNeeded_storeOk [OF ok i]
  have c: "storeOk ?c" and room: "dictGet ?c i = None \<longrightarrow> length ?c < MAX_CASES" by auto
  have e: "entryOk ?e" using ok by (intro entryOk_initEntry) (auto simp: storeOk_def)
  have "length (dictPut i ?e ?c) \<le> MAX_CASES"
    using js_dict.length_put [of ?c i ?e] c room by (auto simp: storeOk_def)
  then show ?thesis
    using c e by (auto simp: initCase_def storeOk_def js_dict.wf_put dictGet_put split: if_splits)
qed

lemma storeOk_append: "storeOk cases \<Longrightarrow> storeOk (appendTraceStep i s t cases)"
  by (auto simp: appendTraceStep_alt entryOk_def intro!: storeOk_updateEntry split: option.splits)

lemma caseStep_ok: "properOp op \<Longrightarrow> storeOk cases \<Longrightarrow> storeOk (caseStep op cases)"
  by (cases op)
    (auto simp: storeOk_initCase storeOk_append storeOk_dictDel startTriage_def setVerdict_def
      failTriage_def clearTraceSteps_def setApproved_def setOverride_def evict_def entryOk_def
      intro!: storeOk_updateEntry)

interpretation case_machine: preserved caseStep properOp storeOk
  by unfold_locales (rule caseStep_ok)

lemma storeOk_empty: "storeOk []"
  by (simp add: storeOk_def wf_dict_def dictKeys_def)


section \<open>lib/stores/case-state-store.ts\<close>

record state_entry =
  se_disposition :: disposition
  se_overrideLabel :: "string option"
  se_updatedAt :: int

type_synonym case_state_store = "state_entry dict"

definition css_setApproved :: "string \<Rightarrow> int \<Rightarrow> case_state_store \<Rightarrow> case_state_store" where
  "css_setApproved caseId now cases = dictPut caseId
     \<lparr>se_disposition = DApproved, se_overrideLabel = None, se_updatedAt = now\<rparr> cases"

definition css_setOverride :: "string \<Rightarrow> string \<Rightarrow> int \<Rightarrow> case_state_store \<Rightarrow> case_state_store" where
  "css_setOverride caseId label now cases = dictPut caseId
     \<lparr>se_disposition = DOverride, se_overrideLabel = Some label, se_updatedAt = now\<rparr> cases"

definition css_clear :: "string \<Rightarrow> case_state_store \<Rightarrow> case_state_store" where
  "css_clear caseId cases = dictDel caseId cases"

section \<open>Properties\<close>


definition sampleEvent :: ocsf_event where
  "sampleEvent = \<lparr>ev_event_id = ''e1'', ev_class_uid = None, ev_time = None, ev_tenant_id = None,
     ev_actor_user_name = None, ev_actor_user_uid = None, ev_cloud_region = None,
     ev_cloud_account_uid = None, ev_severity = Some ''high'', ev_auth_status = None,
     ev_api_operation = None, ev_api_service = None\<rparr>"

definition sampleStep :: "string \<Rightarrow> int \<Rightarrow> kafka_step" where
  "sampleStep kind ts = \<lparr>ks_case_id = ''c1'', ks_tenant_id = ''t1'', ks_agent_action_id = ''a1'',
     ks_agent_id = ''triager'', ks_execution_path = ''classifier'', ks_step_kind = kind,
     ks_summary = kind, ks_ts = ts\<rparr>"


text \<open>Opening a new case when fifty are held removes exactly one case, one that no held case
  was updated before, and keeps every other case as it was; the new case starts idle, with no
  verdict, no trace and no disposition.\<close>

theorem initCase_evicts_oldest:
  assumes wf: "wf_dict cases" and full: "length cases = MAX_CASES" and new: "dictGet cases i = None"
    and proper: "i \<notin> set objectPrototype"
  shows "\<exists>k e. dictGet cases k = Some e \<and>
    (\<forall>j f. dictGet cases j = Some f \<longrightarrow> ce_updatedAt e \<le> ce_updatedAt f) \<and>
    length (initCase i ev b t cases) = MAX_CASES \<and>
    dictGet (initCase i ev b t cases) = (dictGet cases)(k := None, i \<mapsto> initEntry None ev b t)"
proof -
  have "\<not> inObject i cases" using new proper by (simp add: inObject_def dictKeys_get)
  with evictIfNeeded_full [OF wf, of i] full obtain k e where k: "dictGet cases k = Some e"
    and del: "evictIfNeeded cases i = dictDel k cases"
    and old: "\<forall>j f. dictGet cases j = Some f \<longrightarrow> ce_updatedAt e \<le> ce_updatedAt f" by auto
  have "length (initCase i ev b t cases) = Suc (length (dictDel k cases))"
    using js_dict.length_put [of "dictDel k cases" i] wf new del
    by (simp add: initCase_def js_dict.wf_del dictGet_del)
  also have "\<dots> = MAX_CASES"
    using js_dict.length_del [OF wf, of k] k full by (simp add: MAX_CASES_def)
  finally show ?thesis
    using k old new del by (auto simp: initCase_def dictGet_put dictGet_del fun_eq_iff)
qed

definition sampleStore :: case_store where
  "sampleStore = map (\<lambda>n. (natStr n, initEntry None sampleEvent None (int n))) [0..<50]"

lemma sampleStore_wf: "wf_dict sampleStore" "length sampleStore = MAX_CASES"
  by (simp_all add: wf_dict_def dictKeys_def sampleStore_def MAX_CASES_def comp_def distinct_map
      inj_on_def)

lemma sampleStore_absent: "\<not> list_all is_digit i \<Longrightarrow> dictGet sampleStore i = None"
  using natStr_digits by (auto simp: sampleStore_def dictGet_def map_of_eq_None_iff list_all_iff)

theorem initCase_evicts_oldest_witness:
  "\<exists>k e. dictGet sampleStore k = Some e \<and>
    (\<forall>j f. dictGet sampleStore j = Some f \<longrightarrow> ce_updatedAt e \<le> ce_updatedAt f) \<and>
    length (initCase ''new'' sampleEvent None 99 sampleStore) = MAX_CASES \<and>
    dictGet (initCase ''new'' sampleEvent None 99 sampleStore) =
      (dictGet sampleStore)(k := None, ''new'' \<mapsto> initEntry None sampleEvent None 99)"
  by (rule initCase_evicts_oldest [OF sampleStore_wf])
    (simp_all add: objectPrototype_def sampleStore_absent char_between_def code_def)

text \<open>Re-opening a held case evicts nothing and only refreshes its event, baseline and update
  time: verdict, job state, trace, disposition and override label survive, as do all other cases.\<close>

theorem initCase_reopen:
  assumes "dictGet cases i = Some e"
  shows "dictGet (initCase i ev b t cases) =
    (dictGet cases)(i \<mapsto> e\<lparr>ce_event := ev, ce_baseline := b, ce_updatedAt := t\<rparr>)"
proof -
  have "evictIfNeeded cases i = cases"
    using assms by (intro evictIfNeeded_room) (simp add: inObject_def dictKeys_get)
  then show ?thesis
    using assms by (cases e) (simp add: initCase_def initEntry_def dictGet_put)
qed

theorem initCase_reopen_witness:
  "dictGet (initCase ''c1'' sampleEvent None 9 [(''c1'', initEntry None sampleEvent None 1)]) =
    (dictGet [(''c1'', initEntry None sampleEvent None 1)])(''c1'' \<mapsto>
      (initEntry None sampleEvent None 1)\<lparr>ce_event := sampleEvent, ce_baseline := None, ce_updatedAt := 9\<rparr>)"
  by (rule initCase_reopen) simp

text \<open>The bound of fifty is not kept for an id that names a member of \<open>Object.prototype\<close>:
  \<open>incomingId in cases\<close> is then true without such a case, so a full store grows to fifty-one.\<close>

theorem initCase_prototype_id_grows:
  assumes wf: "wf_dict cases" and full: "length cases = MAX_CASES" and new: "dictGet cases i = None"
    and inherited: "i \<in> set objectPrototype"
  shows "length (initCase i ev b t cases) = Suc MAX_CASES"
proof -
  have "evictIfNeeded cases i = cases"
    using inherited by (intro evictIfNeeded_room) (simp add: inObject_def)
  then show ?thesis
    using js_dict.length_put [OF wf, of i] full new by (simp add: initCase_def)
qed

theorem initCase_prototype_id_grows_witness:
  "length (initCase ''toString'' sampleEvent None 99 sampleStore) = Suc MAX_CASES"
  by (rule initCase_prototype_id_grows [OF sampleStore_wf])
    (simp_all add: objectPrototype_def sampleStore_absent char_between_def code_def)

end
