(* ===== verification/Ws_Hooks.thy ===== *)
theory Ws_Hooks
  imports Alert_Mappers Case_Store
begin

text \<open>
  The two live connections of the browser: \<open>hooks/use-alerts-ws.ts\<close>, the stream of fired detections, and
  \<open>hooks/use-case-trace-ws.ts\<close>, the stream of one case's trace steps, which asks for a token first. A hook is a state
  machine over the events the browser delivers to it: a socket opens, closes, fails or brings a message, a
  timer runs out, a token request is answered, the component leaves the page. Sockets and timers are
  numbered in the order the code creates them, so that a handler acts on the socket it was attached to and
  \<open>wsRef\<close> and \<open>retryTimer\<close> hold only the newest one, as in the code.
\<close>

section \<open>Sockets, timers and back-off\<close>

datatype ws_status = WsConnecting | WsConnected | WsDisconnected

datatype sock_phase = SConnecting | SOpen | SClosing | SClosed

text \<open>Per socket what its handlers close over and its phase; per timer its delay and whether it is pending.\<close>

record 't conn =
  cn_status :: ws_status
  cn_sockets :: "('t \<times> sock_phase) list"
  cn_wsRef :: "nat option"
  cn_retryMs :: int
  cn_timers :: "(int \<times> bool) list"
  cn_retryTimer :: "nat option"

definition nextDelay :: "int \<Rightarrow> int" where
  "nextDelay d = min (d * 2) 32000"

definition phaseOf :: "nat \<Rightarrow> 't conn \<Rightarrow> sock_phase" where
  "phaseOf i c = (if i < length (cn_sockets c) then snd (cn_sockets c ! i) else SClosed)"

definition setPhase :: "nat \<Rightarrow> sock_phase \<Rightarrow> 't conn \<Rightarrow> 't conn" where
  "setPhase i p c = c\<lparr>cn_sockets := (cn_sockets c)[i := (fst (cn_sockets c ! i), p)]\<rparr>"

definition timerPending :: "nat \<Rightarrow> 't conn \<Rightarrow> bool" where
  "timerPending j c \<longleftrightarrow> j < length (cn_timers c) \<and> snd (cn_timers c ! j)"

definition clearTimer :: "nat \<Rightarrow> 't conn \<Rightarrow> 't conn" where
  "clearTimer j c = c\<lparr>cn_timers := (cn_timers c)[j := (fst (cn_timers c ! j), False)]\<rparr>"

text \<open>\<open>new WebSocket\<close>, and the browser's \<open>close()\<close>, whose close event comes later.\<close>

definition dial :: "'t \<Rightarrow> 't conn \<Rightarrow> 't conn" where
  "dial t c = c\<lparr>cn_sockets := cn_sockets c @ [(t, SConnecting)], cn_wsRef := Some (length (cn_sockets c))\<rparr>"

definition closeSocket :: "nat \<Rightarrow> 't conn \<Rightarrow> 't conn" where
  "closeSocket i c = (if phaseOf i c = SClosed then c else setPhase i SClosing c)"

definition scheduleRetry :: "'t conn \<Rightarrow> 't conn" where
  "scheduleRetry c = c\<lparr>cn_status := WsDisconnected, cn_timers := cn_timers c @ [(cn_retryMs c, True)],
     cn_retryTimer := Some (length (cn_timers c))\<rparr>"

definition onOpen :: "int \<Rightarrow> nat \<Rightarrow> 't conn \<Rightarrow> 't conn" where
  "onOpen base i c = (setPhase i SOpen c)\<lparr>cn_status := WsConnected, cn_retryMs := base\<rparr>"

definition onClose :: "nat \<Rightarrow> 't conn \<Rightarrow> 't conn" where
  "onClose i c = scheduleRetry (setPhase i SClosed c)"

definition onTimer :: "nat \<Rightarrow> 't conn \<Rightarrow> 't conn" where
  "onTimer j c = (clearTimer j c)\<lparr>cn_retryMs := nextDelay (cn_retryMs c)\<rparr>"

text \<open>The clean-up function of the mount effect.\<close>

definition cleanup :: "'t conn \<Rightarrow> 't conn" where
  "cleanup c =
     (let c' = (case cn_retryTimer c of None \<Rightarrow> c | Some j \<Rightarrow> if timerPending j c then clearTimer j c else c)
      in (case cn_wsRef c' of None \<Rightarrow> c' | Some i \<Rightarrow> closeSocket i c'))"

section \<open>hooks/use-alerts-ws.ts\<close>

record alerts_hook =
  ah_conn :: "string conn"
  ah_seenIds :: "string list"
  ah_newAlerts :: "alert list"
  ah_mounted :: bool

definition alertsBase :: int where
  "alertsBase = 1000"

definition alertKey :: "fired_detection \<Rightarrow> string" where
  "alertKey d = fd_detection_id d @ '':'' @ fd_event_id d"

text \<open>Every message of the server is a serialised \<open>FiredDetection\<close>; \<open>None\<close> is one that does not parse.\<close>

definition onAlertMessage :: "fired_detection option \<Rightarrow> alerts_hook \<Rightarrow> alerts_hook" where
  "onAlertMessage data h =
     (case data of
        None \<Rightarrow> h
      | Some fired \<Rightarrow>
          if alertKey fired \<in> set (ah_seenIds h) then h
          else h\<lparr>ah_seenIds := alertKey fired # ah_seenIds h,
                 ah_newAlerts := firedDetectionToAlert fired # ah_newAlerts h\<rparr>)"

definition alertsUrl :: "string \<Rightarrow> string" where
  "alertsUrl wsUrl = wsUrl @ ''/v1/ws/alerts''"

definition mountAlerts :: "string \<Rightarrow> alerts_hook" where
  "mountAlerts wsUrl = \<lparr>ah_conn = dial (alertsUrl wsUrl) \<lparr>cn_status = WsConnecting, cn_sockets = [],
     cn_wsRef = None, cn_retryMs = alertsBase, cn_timers = [], cn_retryTimer = None\<rparr>,
     ah_seenIds = [], ah_newAlerts = [], ah_mounted = True\<rparr>"

datatype ws_event =
    Opened nat
  | MessageOn nat "fired_detection option"
  | Closed nat
  | Errored nat
  | TimerFires nat
  | Unmount

text \<open>An event reaches its handler only in the phase in which the browser fires it.\<close>

fun alertsStep :: "string \<Rightarrow> ws_event \<Rightarrow> alerts_hook \<Rightarrow> alerts_hook" where
  "alertsStep u (Opened i) h =
     (if phaseOf i (ah_conn h) = SConnecting then h\<lparr>ah_conn := onOpen alertsBase i (ah_conn h)\<rparr> else h)"
| "alertsStep u (MessageOn i data) h =
     (if phaseOf i (ah_conn h) = SOpen then onAlertMessage data h else h)"
| "alertsStep u (Closed i) h =
     (if phaseOf i (ah_conn h) \<noteq> SClosed then h\<lparr>ah_conn := onClose i (ah_conn h)\<rparr> else h)"
| "alertsStep u (Errored i) h = h\<lparr>ah_conn := closeSocket i (ah_conn h)\<rparr>"
| "alertsStep u (TimerFires j) h =
     (if timerPending j (ah_conn h) then h\<lparr>ah_conn := dial (alertsUrl u) (onTimer j (ah_conn h))\<rparr> else h)"
| "alertsStep u Unmount h =
     (if ah_mounted h then h\<lparr>ah_conn := cleanup (ah_conn h), ah_mounted := False\<rparr> else h)"

definition alertsRun :: "string \<Rightarrow> ws_event list \<Rightarrow> alerts_hook" where
  "alertsRun u es = fold (alertsStep u) es (mountAlerts u)"

section \<open>hooks/use-case-trace-ws.ts\<close>

text \<open>A socket of the trace hook closes over its case and carries its address; a token request closes over
  its case. \<open>th_caseId\<close> is the case of the newest render, which \<open>connectRef\<close> connects to.\<close>

record trace_hook =
  th_conn :: "(string \<times> string) conn"
  th_caseId :: "string option"
  th_tokens :: "(string \<times> bool) list"
  th_store :: case_store

definition traceBase :: int where
  "traceBase = 500"

text \<open>The gateway's address, without a browser and with one.\<close>

definition wsBase :: "bool \<Rightarrow> string \<Rightarrow> string" where
  "wsBase inBrowser gatewayUrl = (if \<not> inBrowser then ''ws://localhost:4500'' else gatewayUrl)"

definition traceUrl :: "string \<Rightarrow> string \<Rightarrow> string \<Rightarrow> string" where
  "traceUrl gateway caseId token = dropTrailingSlash gateway @ ''/ws/cases/'' @ encodeURIComponent caseId
     @ ''/trace?token='' @ encodeURIComponent token"

definition connectTrace :: "trace_hook \<Rightarrow> trace_hook" where
  "connectTrace h =
     (if th_caseId h = None \<or> th_caseId h = Some []
      then h\<lparr>th_conn := (th_conn h)\<lparr>cn_status := WsDisconnected\<rparr>\<rparr>
      else h\<lparr>th_tokens := th_tokens h @ [(the (th_caseId h), True)]\<rparr>)"

definition onToken :: "string \<Rightarrow> string \<Rightarrow> fetched \<Rightarrow> trace_hook \<Rightarrow> trace_hook" where
  "onToken gateway caseId f h =
     (case f of
        Rejected _ \<Rightarrow> h\<lparr>th_conn := scheduleRetry (th_conn h)\<rparr>
      | Answer st body _ \<Rightarrow>
          if \<not> okStatus st then h\<lparr>th_conn := scheduleRetry (th_conn h)\<rparr>
          else (case body of
              None \<Rightarrow> h\<lparr>th_conn := scheduleRetry (th_conn h)\<rparr>
            | Some json \<Rightarrow>
                (case jsFieldE ''token'' json of
                   None \<Rightarrow> h\<lparr>th_conn := scheduleRetry (th_conn h)\<rparr>
                 | Some v \<Rightarrow>
                     if \<not> truthy v then h\<lparr>th_conn := (th_conn h)\<lparr>cn_status := WsDisconnected\<rparr>\<rparr>
                     else h\<lparr>th_conn := dial (caseId, traceUrl gateway caseId (jsString v)) (th_conn h)\<rparr>)))"

text \<open>A message of the gateway: one that does not parse, a notice with its kind, or a step.\<close>

datatype trace_message = Unparsable | Notice string | StepMessage kafka_step

definition onTraceMessage :: "string \<Rightarrow> trace_message \<Rightarrow> int \<Rightarrow> case_store \<Rightarrow> case_store" where
  "onTraceMessage caseId m now cases =
     (case m of
        StepMessage step \<Rightarrow>
          if ks_step_kind step = [] \<or> ks_agent_action_id step = [] then cases
          else appendTraceStep caseId step now cases
      | _ \<Rightarrow> cases)"

text \<open>The mount effect: after the clean-up of the previous case, if any, the new case is connected to.\<close>

definition switchCase :: "string option \<Rightarrow> trace_hook \<Rightarrow> trace_hook" where
  "switchCase caseId h = connectTrace (h\<lparr>th_caseId := caseId,
     th_conn := (cleanup (th_conn h))\<lparr>cn_retryMs := traceBase, cn_status := WsConnecting\<rparr>\<rparr>)"

definition mountTrace :: "string option \<Rightarrow> case_store \<Rightarrow> trace_hook" where
  "mountTrace caseId cases = connectTrace \<lparr>th_conn = \<lparr>cn_status = WsConnecting, cn_sockets = [], cn_wsRef = None,
     cn_retryMs = traceBase, cn_timers = [], cn_retryTimer = None\<rparr>, th_caseId = caseId, th_tokens = [], th_store = cases\<rparr>"

definition unmountTrace :: "trace_hook \<Rightarrow> trace_hook" where
  "unmountTrace h = h\<lparr>th_conn := (cleanup (th_conn h))\<lparr>cn_retryMs := traceBase\<rparr>\<rparr>"

datatype trace_event =
    TOpened nat
  | TMessageOn nat trace_message int
  | TClosed nat
  | TErrored nat
  | TTimerFires nat
  | TTokenAnswered nat fetched
  | TSwitch "string option"

definition tokenPending :: "nat \<Rightarrow> trace_hook \<Rightarrow> bool" where
  "tokenPending k h \<longleftrightarrow> k < length (th_tokens h) \<and> snd (th_tokens h ! k)"

fun traceStep :: "string \<Rightarrow> trace_event \<Rightarrow> trace_hook \<Rightarrow> trace_hook" where
  "traceStep g (TOpened i) h =
     (if phaseOf i (th_conn h) = SConnecting then h\<lparr>th_conn := onOpen traceBase i (th_conn h)\<rparr> else h)"
| "traceStep g (TMessageOn i m now) h =
     (if phaseOf i (th_conn h) = SOpen
      then h\<lparr>th_store := onTraceMessage (fst (fst (cn_sockets (th_conn h) ! i))) m now (th_store h)\<rparr> else h)"
| "traceStep g (TClosed i) h =
     (if phaseOf i (th_conn h) \<noteq> SClosed then h\<lparr>th_conn := onClose i (th_conn h)\<rparr> else h)"
| "traceStep g (TErrored i) h = h\<lparr>th_conn := closeSocket i (th_conn h)\<rparr>"
| "traceStep g (TTimerFires j) h =
     (if timerPending j (th_conn h) then connectTrace (h\<lparr>th_conn := onTimer j (th_conn h)\<rparr>) else h)"
| "traceStep g (TTokenAnswered k f) h =
     (if tokenPending k h
      then onToken g (fst (th_tokens h ! k)) f (h\<lparr>th_tokens := (th_tokens h)[k := (fst (th_tokens h ! k), False)]\<rparr>)
      else h)"
| "traceStep g (TSwitch c) h = switchCase c h"

definition traceRun :: "string \<Rightarrow> string option \<Rightarrow> case_store \<Rightarrow> trace_event list \<Rightarrow> trace_hook" where
  "traceRun g c cases es = fold (traceStep g) es (mountTrace c cases)"

definition liveSteps :: "trace_hook \<Rightarrow> kafka_step list" where
  "liveSteps h = (case th_caseId h of None \<Rightarrow> [] | Some c \<Rightarrow> if c = [] then [] else selectTraceSteps c (th_store h))"

section \<open>hooks/use-now.ts\<close>

definition nowSnapshot :: "int \<Rightarrow> int \<Rightarrow> int" where
  "nowSnapshot intervalMs now = now div intervalMs * intervalMs"

lemma nowSnapshot_bounds:
  "0 < intervalMs \<Longrightarrow> nowSnapshot intervalMs now \<le> now \<and> now < nowSnapshot intervalMs now + intervalMs"
  by (simp add: nowSnapshot_def minus_mod_eq_div_mult [symmetric])

lemma nowSnapshot_stable:
  "0 < intervalMs \<Longrightarrow> nowSnapshot intervalMs now \<le> t \<Longrightarrow> t < nowSnapshot intervalMs now + intervalMs \<Longrightarrow>
   nowSnapshot intervalMs t = nowSnapshot intervalMs now"
proof -
  assume pos: "0 < intervalMs" and "nowSnapshot intervalMs now \<le> t" "t < nowSnapshot intervalMs now + intervalMs"
  then obtain r where "t = now div intervalMs * intervalMs + r" "0 \<le> r" "r < intervalMs"
    by (metis add.commute add_diff_cancel_left' diff_add_cancel diff_ge_0_iff_ge less_diff_eq nowSnapshot_def)
  with pos show ?thesis by (simp add: nowSnapshot_def)
qed

section \<open>Exponential back-off\<close>

text \<open>A delay that grows by a factor up to a cap, from a positive base.\<close>

locale backoff =
  fixes next_delay :: "'a::linordered_idom \<Rightarrow> 'a" and factor base cap :: 'a
  assumes next_delay: "next_delay d = min (d * factor) cap"
    and base_pos: "0 < base" and base_cap: "base \<le> cap" and factor_gt: "1 < factor"
begin

lemma next_within: "base \<le> d \<Longrightarrow> d \<le> cap \<Longrightarrow> base \<le> next_delay d \<and> next_delay d \<le> cap"
proof -
  assume d: "base \<le> d" "d \<le> cap"
  have "d * 1 \<le> d * factor" using d base_pos factor_gt by (intro mult_left_mono) auto
  then show ?thesis using d base_cap by (simp add: next_delay)
qed

lemma next_iterated: "(next_delay ^^ k) base = min (base * factor ^ k) cap"
proof (induction k)
  case 0
  then show ?case using base_cap by simp
next
  case (Suc k)
  have "cap * 1 \<le> cap * factor" using base_pos base_cap factor_gt by (intro mult_left_mono) auto
  moreover have "min (base * factor ^ k) cap * factor = min (base * factor ^ k * factor) (cap * factor)"
    using factor_gt by (simp add: min_mult_distrib_right)
  ultimately have "min (min (base * factor ^ k) cap * factor) cap = min (base * factor ^ k * factor) cap"
    by simp
  then show ?case using Suc by (simp add: next_delay mult_ac)
qed

end

interpretation alerts_backoff: backoff nextDelay 2 alertsBase 32000
  by unfold_locales (simp_all add: nextDelay_def alertsBase_def)

interpretation trace_backoff: backoff nextDelay 2 traceBase 32000
  by unfold_locales (simp_all add: nextDelay_def traceBase_def)

section \<open>Facts\<close>

lemma phaseOf_dial [simp]: "phaseOf i (dial u c) = (if i = length (cn_sockets c) then SConnecting else phaseOf i c)"
  by (auto simp: phaseOf_def dial_def nth_append)

lemma phaseOf_setPhase [simp]:
  "phaseOf k (setPhase i p c) = (if k = i \<and> i < length (cn_sockets c) then p else phaseOf k c)"
  by (auto simp: phaseOf_def setPhase_def nth_list_update)

lemma phaseOf_frame [simp]:
  "phaseOf k (scheduleRetry c) = phaseOf k c" "phaseOf k (onTimer j c) = phaseOf k c"
  "phaseOf k (onOpen b i c) = phaseOf k (setPhase i SOpen c)" "phaseOf k (onClose i c) = phaseOf k (setPhase i SClosed c)"
  "phaseOf k (clearTimer j c) = phaseOf k c"
  by (simp_all add: phaseOf_def scheduleRetry_def onTimer_def clearTimer_def onOpen_def onClose_def setPhase_def)

lemma phaseOf_open_index: "phaseOf i c \<noteq> SClosed \<Longrightarrow> i < length (cn_sockets c)"
  by (auto simp: phaseOf_def split: if_splits)

lemma phaseOf_closeSocket [simp]:
  "phaseOf k (closeSocket i c) = (if k = i \<and> phaseOf i c \<noteq> SClosed then SClosing else phaseOf k c)"
  by (auto simp: closeSocket_def dest: phaseOf_open_index)

lemma conn_frame [simp]:
  "length (cn_sockets (dial u c)) = Suc (length (cn_sockets c))" "cn_timers (dial u c) = cn_timers c" "cn_timers (setPhase i p c) = cn_timers c" "cn_timers (closeSocket i c) = cn_timers c"
  "cn_timers (onOpen b i c) = cn_timers c"
  "cn_retryMs (dial u c) = cn_retryMs c" "cn_retryMs (setPhase i p c) = cn_retryMs c"
  "cn_retryMs (closeSocket i c) = cn_retryMs c" "cn_retryMs (onOpen b i c) = b" "cn_retryMs (clearTimer j c) = cn_retryMs c"
  "length (cn_sockets (setPhase i p c)) = length (cn_sockets c)"
  "length (cn_sockets (closeSocket i c)) = length (cn_sockets c)"
  "cn_sockets (clearTimer j c) = cn_sockets c" "cn_wsRef (clearTimer j c) = cn_wsRef c"
  by (simp_all add: dial_def setPhase_def closeSocket_def onOpen_def clearTimer_def)

lemma scheduleRetry_sel [simp]:
  "cn_timers (scheduleRetry c) = cn_timers c @ [(cn_retryMs c, True)]" "cn_retryMs (scheduleRetry c) = cn_retryMs c"
  "cn_sockets (scheduleRetry c) = cn_sockets c"
  by (simp_all add: scheduleRetry_def)

lemma onClose_sel [simp]:
  "cn_timers (onClose i c) = cn_timers c @ [(cn_retryMs c, True)]" "cn_retryMs (onClose i c) = cn_retryMs c"
  "length (cn_sockets (onClose i c)) = length (cn_sockets c)"
  by (simp_all add: onClose_def)

lemma onTimer_sel [simp]:
  "cn_retryMs (onTimer j c) = nextDelay (cn_retryMs c)" "cn_sockets (onTimer j c) = cn_sockets c"
  "cn_timers (onTimer j c) = (cn_timers c)[j := (fst (cn_timers c ! j), False)]"
  by (simp_all add: onTimer_def clearTimer_def)

lemma timerPending_frame:
  "cn_timers c = cn_timers c' \<Longrightarrow> timerPending j c = timerPending j c'"
  by (simp add: timerPending_def)

subsection \<open>Delays stay between the base and the cap\<close>

definition delaysOk :: "int \<Rightarrow> 't conn \<Rightarrow> bool" where
  "delaysOk base c \<longleftrightarrow> base \<le> cn_retryMs c \<and> cn_retryMs c \<le> 32000 \<and>
     (\<forall>(d, _) \<in> set (cn_timers c). base \<le> d \<and> d \<le> 32000)"

lemma delaysOk_same: "delaysOk base c \<Longrightarrow> cn_retryMs c' = cn_retryMs c \<Longrightarrow> cn_timers c' = cn_timers c \<Longrightarrow> delaysOk base c'"
  by (simp add: delaysOk_def)

lemma delaysOk_retry: "delaysOk base c \<Longrightarrow> delaysOk base (scheduleRetry c)"
  by (auto simp: delaysOk_def)

lemma clearTimer_in_set: "x \<in> set (xs[j := (fst (xs ! j), False)]) \<Longrightarrow> \<exists>b. (fst x, b) \<in> set xs"
proof -
  assume x: "x \<in> set (xs[j := (fst (xs ! j), False)])"
  then obtain i where i: "i < length xs" "x = xs[j := (fst (xs ! j), False)] ! i"
    by (metis in_set_conv_nth length_list_update)
  then have "fst x = fst (xs ! i)" by (cases "i = j") auto
  then have "(fst x, snd (xs ! i)) \<in> set xs" using i by simp
  then show ?thesis ..
qed

lemma delaysOk_clearTimer: "delaysOk base c \<Longrightarrow> delaysOk base (clearTimer j c)"
  by (fastforce simp: delaysOk_def clearTimer_def dest!: clearTimer_in_set)

lemma delaysOk_onTimer: "delaysOk base c \<Longrightarrow> 0 < base \<Longrightarrow> base \<le> 32000 \<Longrightarrow> delaysOk base (onTimer j c)"
  using delaysOk_clearTimer [of base c j] by (auto simp: delaysOk_def onTimer_def nextDelay_def)

lemma delaysOk_onOpen: "delaysOk base c \<Longrightarrow> base \<le> 32000 \<Longrightarrow> delaysOk base (onOpen base i c)"
  by (simp add: delaysOk_def)

lemma delaysOk_cleanup: "delaysOk base c \<Longrightarrow> delaysOk base (cleanup c)"
proof -
  assume ok: "delaysOk base c"
  define c' where "c' = (case cn_retryTimer c of None \<Rightarrow> c | Some j \<Rightarrow> if timerPending j c then clearTimer j c else c)"
  have "delaysOk base c'"
    using ok delaysOk_clearTimer by (auto simp: c'_def split: option.splits)
  moreover have "cleanup c = (case cn_wsRef c' of None \<Rightarrow> c' | Some i \<Rightarrow> closeSocket i c')"
    unfolding cleanup_def c'_def Let_def ..
  ultimately show ?thesis by (auto intro: delaysOk_same split: option.splits)
qed

lemma delaysOk_alertsStep: "delaysOk alertsBase (ah_conn h) \<Longrightarrow> delaysOk alertsBase (ah_conn (alertsStep u e h))"
proof (cases e)
  case (Closed i)
  assume "delaysOk alertsBase (ah_conn h)"
  then show ?thesis using Closed
    by (auto simp: onClose_def intro!: delaysOk_retry elim: delaysOk_same)
next
  case (TimerFires j)
  assume ok: "delaysOk alertsBase (ah_conn h)"
  have "delaysOk alertsBase (onTimer j (ah_conn h))"
    using delaysOk_onTimer [OF ok alerts_backoff.base_pos alerts_backoff.base_cap] .
  then show ?thesis using TimerFires ok by (auto elim: delaysOk_same)
next
  case (MessageOn i d)
  assume "delaysOk alertsBase (ah_conn h)"
  then show ?thesis using MessageOn by (simp add: onAlertMessage_def split: option.splits)
qed (auto intro: delaysOk_cleanup delaysOk_onOpen alerts_backoff.base_cap elim: delaysOk_same)

subsection \<open>A mounted hook never stops trying\<close>

definition trying :: "'t conn \<Rightarrow> bool" where
  "trying c \<longleftrightarrow> (\<exists>i. phaseOf i c \<noteq> SClosed) \<or> (\<exists>j. timerPending j c)"

lemma trying_dial: "trying (dial u c)"
  by (auto simp: trying_def intro: exI [of _ "length (cn_sockets c)"])

lemma trying_retry: "trying (scheduleRetry c)"
  by (auto simp: trying_def timerPending_def nth_append intro: exI [of _ "length (cn_timers c)"])

lemma trying_phase:
  "trying c \<Longrightarrow> (\<And>k. phaseOf k c \<noteq> SClosed \<Longrightarrow> phaseOf k c' \<noteq> SClosed) \<Longrightarrow> cn_timers c' = cn_timers c \<Longrightarrow> trying c'"
  unfolding trying_def using timerPending_frame by metis

lemma trying_alertsStep:
  assumes "ah_mounted h \<Longrightarrow> trying (ah_conn h)" and "ah_mounted (alertsStep u e h)"
  shows "trying (ah_conn (alertsStep u e h))"
proof (cases e)
  case (Opened i)
  then show ?thesis using assms by (auto elim!: trying_phase split: if_splits)
next
  case (MessageOn i d)
  then show ?thesis using assms by (auto simp: onAlertMessage_def split: option.splits if_splits)
next
  case (Closed i)
  then show ?thesis using assms by (auto simp: onClose_def trying_retry split: if_splits)
next
  case (Errored i)
  then show ?thesis using assms by (auto elim!: trying_phase split: if_splits)
next
  case (TimerFires j)
  then show ?thesis using assms by (auto simp: trying_dial split: if_splits)
next
  case Unmount
  then show ?thesis using assms by (auto split: if_splits)
qed

lemma mountAlerts_ok: "delaysOk alertsBase (ah_conn (mountAlerts u))" "trying (ah_conn (mountAlerts u))"
  by (simp_all add: mountAlerts_def trying_dial delaysOk_def alertsBase_def)

interpretation alerts_run: preserved "alertsStep u" "\<lambda>_. True"
  "\<lambda>h. delaysOk alertsBase (ah_conn h) \<and> (ah_mounted h \<longrightarrow> trying (ah_conn h))" for u
  by unfold_locales (auto intro: delaysOk_alertsStep trying_alertsStep)

subsection \<open>Runs of failures\<close>

text \<open>Attempt \<open>k\<close> fails and its timer \<open>k\<close> runs out, \<open>n\<close> times in a row.\<close>

definition alertFailures :: "nat \<Rightarrow> ws_event list" where
  "alertFailures n = concat (map (\<lambda>k. [Closed k, TimerFires k]) [0..<n])"

definition traceFailures :: "nat \<Rightarrow> trace_event list" where
  "traceFailures n = concat (map (\<lambda>k. [TTokenAnswered k (Rejected []), TTimerFires k]) [0..<n])"

definition failedDelays :: "int \<Rightarrow> nat \<Rightarrow> (int \<times> bool) list" where
  "failedDelays base n = map (\<lambda>k. ((nextDelay ^^ k) base, False)) [0..<n]"

lemma failedDelays_Suc: "failedDelays base (Suc n) = failedDelays base n @ [((nextDelay ^^ n) base, False)]"
  by (simp add: failedDelays_def)

lemma length_failedDelays [simp]: "length (failedDelays base n) = n"
  by (simp add: failedDelays_def)

lemma failedDelays_fires:
  "(failedDelays base n @ [((nextDelay ^^ n) base, True)])[n := ((nextDelay ^^ n) base, False)] = failedDelays base (Suc n)"
  using list_update_length [of "failedDelays base n" "((nextDelay ^^ n) base, True)" "[]" "((nextDelay ^^ n) base, False)"]
  by (simp add: failedDelays_Suc)

lemma alerts_failing:
  "let c = ah_conn (alertsRun u (alertFailures n)) in
     cn_timers c = failedDelays alertsBase n \<and> cn_retryMs c = (nextDelay ^^ n) alertsBase \<and>
     length (cn_sockets c) = Suc n \<and> phaseOf n c = SConnecting"
proof (induction n)
  case 0
  show ?case
    by (simp add: alertsRun_def alertFailures_def mountAlerts_def failedDelays_def dial_def phaseOf_def)
next
  case (Suc n)
  define h where "h = alertsRun u (alertFailures n)"
  have step: "alertsRun u (alertFailures (Suc n)) = alertsStep u (TimerFires n) (alertsStep u (Closed n) h)"
    by (simp add: alertsRun_def alertFailures_def h_def)
  from Suc have "cn_timers (ah_conn h) = failedDelays alertsBase n" "cn_retryMs (ah_conn h) = (nextDelay ^^ n) alertsBase"
    "length (cn_sockets (ah_conn h)) = Suc n" "phaseOf n (ah_conn h) = SConnecting"
    by (simp_all add: h_def Let_def)
  then show ?case
    by (simp add: step Let_def timerPending_def nth_append failedDelays_fires)
qed

lemma trace_failing:
  assumes "c \<noteq> []"
  shows "let h = traceRun g (Some c) cases (traceFailures n) in
     cn_timers (th_conn h) = failedDelays traceBase n \<and> cn_retryMs (th_conn h) = (nextDelay ^^ n) traceBase \<and>
     length (th_tokens h) = Suc n \<and> tokenPending n h \<and> th_caseId h = Some c"
proof (induction n)
  case 0
  show ?case using assms
    by (simp add: traceRun_def traceFailures_def mountTrace_def connectTrace_def failedDelays_def tokenPending_def)
next
  case (Suc n)
  define h where "h = traceRun g (Some c) cases (traceFailures n)"
  have step: "traceRun g (Some c) cases (traceFailures (Suc n)) =
      traceStep g (TTimerFires n) (traceStep g (TTokenAnswered n (Rejected [])) h)"
    by (simp add: traceRun_def traceFailures_def h_def)
  from Suc have "cn_timers (th_conn h) = failedDelays traceBase n" "cn_retryMs (th_conn h) = (nextDelay ^^ n) traceBase"
    "length (th_tokens h) = Suc n" "tokenPending n h" "th_caseId h = Some c"
    by (simp_all add: h_def Let_def)
  then show ?case using assms
    by (simp add: step Let_def timerPending_def nth_append failedDelays_fires onToken_def connectTrace_def tokenPending_def)
qed

section \<open>Properties\<close>

text \<open>When every attempt fails, the waits of the alert stream are 1, 2, 4, 8, 16, 32, 32, \<dots> seconds and those of
  the trace stream start at half a second, each doubled up to 32 seconds; after \<open>n\<close> failures exactly
  \<open>n\<close> timers have run and attempt \<open>n + 1\<close> is under way.\<close>

theorem backoff_schedule:
  assumes "caseId \<noteq> []"
  shows "map fst (cn_timers (ah_conn (alertsRun u (alertFailures n)))) = map (\<lambda>k. min (1000 * 2 ^ k) 32000) [0..<n] \<and>
    phaseOf n (ah_conn (alertsRun u (alertFailures n))) = SConnecting \<and>
    map fst (cn_timers (th_conn (traceRun g (Some caseId) cases (traceFailures n)))) =
      map (\<lambda>k. min (500 * 2 ^ k) 32000) [0..<n] \<and>
    tokenPending n (traceRun g (Some caseId) cases (traceFailures n))"
  using alerts_failing [of u n] trace_failing [OF assms, of g cases n]
  by (simp add: Let_def failedDelays_def alerts_backoff.next_iterated trace_backoff.next_iterated)
     (simp add: alertsBase_def traceBase_def)

theorem backoff_schedule_witness:
  "map fst (cn_timers (ah_conn (alertsRun ''ws://cp'' (alertFailures 7)))) = [1000, 2000, 4000, 8000, 16000, 32000, 32000]"
  using backoff_schedule [of "''c''" "''ws://cp''" 7] by (simp add: upt_rec)

text \<open>C16: while the component is on the page the alert stream never gives up: in every reachable state a socket is
  still connecting, open or closing, or a timer that will reconnect is pending, and every wait ever
  scheduled is between one and 32 seconds.\<close>

theorem alerts_keep_trying:
  "(ah_mounted (alertsRun u es) \<longrightarrow>
      (\<exists>i. phaseOf i (ah_conn (alertsRun u es)) \<noteq> SClosed) \<or> (\<exists>j. timerPending j (ah_conn (alertsRun u es)))) \<and>
   (\<forall>d \<in> fst ` set (cn_timers (ah_conn (alertsRun u es))). 1000 \<le> d \<and> d \<le> 32000)"
proof -
  have "list_all (\<lambda>_. True) es" by (simp add: list_all_iff)
  from alerts_run.run_inv [OF this, of "mountAlerts u" u] mountAlerts_ok [of u]
  have "delaysOk alertsBase (ah_conn (alertsRun u es))" and "ah_mounted (alertsRun u es) \<longrightarrow> trying (ah_conn (alertsRun u es))"
    by (simp_all add: alertsRun_def)
  then show ?thesis by (auto simp: trying_def delaysOk_def alertsBase_def)
qed

theorem alerts_keep_trying_witness:
  "(\<exists>i. phaseOf i (ah_conn (alertsRun ''ws://cp'' [Opened 0, Closed 0])) \<noteq> SClosed) \<or>
   (\<exists>j. timerPending j (ah_conn (alertsRun ''ws://cp'' [Opened 0, Closed 0])))"
proof -
  have "ah_mounted (alertsRun ''ws://cp'' [Opened 0, Closed 0])"
    by (simp add: alertsRun_def mountAlerts_def)
  then show ?thesis using alerts_keep_trying [of "''ws://cp''" "[Opened 0, Closed 0]"] by blast
qed

text \<open>The detections that arrive on an open socket, in order.\<close>

fun received :: "string \<Rightarrow> ws_event list \<Rightarrow> alerts_hook \<Rightarrow> fired_detection list" where
  "received u [] h = []"
| "received u (MessageOn i (Some d) # es) h =
     (if phaseOf i (ah_conn h) = SOpen then [d] else []) @ received u es (alertsStep u (MessageOn i (Some d)) h)"
| "received u (e # es) h = received u es (alertsStep u e h)"

lemma newAlerts_received:
  "ah_newAlerts (fold (alertsStep u) es h) =
     rev (map firedDetectionToAlert (dedupBy alertKey (ah_seenIds h) (received u es h))) @ ah_newAlerts h"
proof (induction u es h rule: received.induct)
  case (2 u i d es h)
  then show ?case by (auto simp: onAlertMessage_def)
qed (simp_all add: onAlertMessage_def)

text \<open>C29: over any sequence of opens, closes, errors, retries and messages, malformed ones included, the alerts
  shown are exactly the detections received, newest first, each pair of rule and event once even when the
  server replays it after a reconnect.\<close>

theorem alerts_deduplicated:
  "ah_newAlerts (alertsRun u es) =
     rev (map firedDetectionToAlert (dedupBy alertKey [] (received u es (mountAlerts u)))) \<and>
   alertKey ` set (dedupBy alertKey [] (received u es (mountAlerts u))) = alertKey ` set (received u es (mountAlerts u)) \<and>
   distinct (map alertKey (dedupBy alertKey [] (received u es (mountAlerts u))))"
  using newAlerts_received [of u es "mountAlerts u"]
  by (simp add: alertsRun_def mountAlerts_def keys_dedupBy distinct_dedupBy)

subsection \<open>Leaving the page\<close>

lemma cleanup_socket:
  assumes "cn_wsRef c = Some i"
  shows "phaseOf k (cleanup c) = (if k = i \<and> phaseOf i c \<noteq> SClosed then SClosing else phaseOf k c)"
    and "length (cn_sockets (cleanup c)) = length (cn_sockets c)"
    and "length (cn_timers (cleanup c)) = length (cn_timers c)"
proof -
  have "length (cn_timers (clearTimer j c)) = length (cn_timers c)" for j by (simp add: clearTimer_def)
  then show "phaseOf k (cleanup c) = (if k = i \<and> phaseOf i c \<noteq> SClosed then SClosing else phaseOf k c)"
    "length (cn_sockets (cleanup c)) = length (cn_sockets c)" "length (cn_timers (cleanup c)) = length (cn_timers c)"
    using assms by (auto simp: cleanup_def Let_def split: option.splits)
qed

text \<open>C38: leaving the page does not end the alert stream: \<open>close()\<close> fires the socket's own close handler, which
  schedules a retry that nothing clears any more, and its timer dials again although the component is
  gone. In the same way, moving from one case to another closes the old case's socket, whose close handler
  asks for a second token, and so a second socket, for the new case.\<close>

theorem reconnects_after_cleanup:
  assumes "ah_mounted h" and "cn_wsRef (ah_conn h) = Some i" and "phaseOf i (ah_conn h) \<noteq> SClosed"
    and "cn_wsRef (th_conn g) = Some k" and "phaseOf k (th_conn g) \<noteq> SClosed" and "caseId \<noteq> []"
  shows "(let h' = fold (alertsStep u) [Unmount, Closed i, TimerFires (length (cn_timers (ah_conn h)))] h in
      \<not> ah_mounted h' \<and> length (cn_sockets (ah_conn h')) = Suc (length (cn_sockets (ah_conn h))) \<and>
      phaseOf (length (cn_sockets (ah_conn h))) (ah_conn h') = SConnecting) \<and>
    th_tokens (fold (traceStep w) [TSwitch (Some caseId), TClosed k, TTimerFires (length (cn_timers (th_conn g)))] g) =
      th_tokens g @ [(caseId, True), (caseId, True)]"
proof
  show "let h' = fold (alertsStep u) [Unmount, Closed i, TimerFires (length (cn_timers (ah_conn h)))] h in
      \<not> ah_mounted h' \<and> length (cn_sockets (ah_conn h')) = Suc (length (cn_sockets (ah_conn h))) \<and>
      phaseOf (length (cn_sockets (ah_conn h))) (ah_conn h') = SConnecting"
    using assms cleanup_socket [of "ah_conn h" i] by (simp add: Let_def timerPending_def nth_append)
  have "phaseOf k ((cleanup (th_conn g))\<lparr>cn_retryMs := r, cn_status := s\<rparr>) = phaseOf k (cleanup (th_conn g))" for r s
    by (simp add: phaseOf_def)
  then show "th_tokens (fold (traceStep w) [TSwitch (Some caseId), TClosed k, TTimerFires (length (cn_timers (th_conn g)))] g) =
      th_tokens g @ [(caseId, True), (caseId, True)]"
    using assms cleanup_socket [of "th_conn g" k]
    by (simp add: switchCase_def connectTrace_def timerPending_def nth_append)
qed

theorem reconnects_after_cleanup_witness:
  "\<exists>h. ah_mounted h \<and> (let h' = fold (alertsStep ''w'') [Unmount, Closed 0, TimerFires (length (cn_timers (ah_conn h)))] h in
      \<not> ah_mounted h' \<and> length (cn_sockets (ah_conn h')) = Suc (length (cn_sockets (ah_conn h))) \<and>
      phaseOf (length (cn_sockets (ah_conn h))) (ah_conn h') = SConnecting)"
proof -
  let ?h = "mountAlerts ''w''"
  let ?g = "traceRun ''g'' (Some ''c'') [] [TTokenAnswered 0 (Answer 200 (Some (Obj [(''token'', Str ''t'')])) [])]"
  have "ah_mounted ?h" "cn_wsRef (ah_conn ?h) = Some 0" "phaseOf 0 (ah_conn ?h) \<noteq> SClosed"
    by (simp_all add: mountAlerts_def dial_def phaseOf_def)
  moreover have "cn_wsRef (th_conn ?g) = Some 0" "phaseOf 0 (th_conn ?g) \<noteq> SClosed"
    by (simp_all add: traceRun_def mountTrace_def connectTrace_def tokenPending_def onToken_def okStatus_def
        jsFieldE_def dial_def phaseOf_def)
  ultimately show ?thesis
    using reconnects_after_cleanup [of ?h 0 ?g 0 "''d''" "''w''" "''g''"] by blast
qed

end
