(* ===== verification/Triage_Hook.thy ===== *)
theory Triage_Hook
  imports Case_Store
begin

text \<open>
  \<open>hooks/use-triage.ts\<close>: the hook that fires a case's triage once. A page holds the store, the module-level set
  \<open>_triageFired\<close> and any number of mounts of the hook (a case opened, left and opened again, or mounted twice
  by React's strict mode). React is modelled as far as the hook depends on it: a render runs an effect
  when one of its dependencies differs from those of its last run, after the clean-up function of that
  run, and a clean-up clears the \<open>mounted\<close> flag that the requests of that run close over. Requests are
  answered in any order, whether or not their mount is still there.
\<close>

section \<open>State\<close>

definition RUNNING_TTL_MS :: int where
  "RUNNING_TTL_MS = 5 * 60 * 1000"

text \<open>What \<open>GET .../triage\<close> answers; a verdict is an object, so it is truthy when present.\<close>

record triage_status_response =
  sr_status :: "string option"
  sr_verdict :: "triage_verdict option"
  sr_error :: "string option"

record check_request =
  cq_case :: string
  cq_mount :: nat
  cq_mounted :: bool
  cq_pending :: bool

record post_request =
  pq_case :: string
  pq_mount :: nat
  pq_mounted :: bool
  pq_pending :: bool
  pq_at :: int

record fire_deps =
  dp_alert :: "nat option"
  dp_caseId :: string
  dp_hasCase :: bool
  dp_hydrated :: bool
  dp_serverChecked :: bool
  dp_storeVerdict :: "triage_verdict option"
  dp_triageStatus :: triage_status
  dp_triageStartedAt :: int
  dp_hasTerminalTrace :: bool

text \<open>One mount: its props (the alert by its object identity), its state and refs, and per effect the
  dependencies of its last run and the request that run's clean-up would detach.\<close>

record hook_mount =
  hm_caseId :: string
  hm_alert :: "nat option"
  hm_serverCheckedFor :: "string option"
  hm_error :: "string option"
  hm_firedRef :: bool
  hm_checkDeps :: "(string \<times> bool) option"
  hm_check :: "nat option"
  hm_fireDeps :: "fire_deps option"
  hm_post :: "nat option"

record triage_page =
  pg_store :: case_store
  pg_hydrated :: bool
  pg_triageFired :: "string list"
  pg_mounts :: "hook_mount list"
  pg_checks :: "check_request list"
  pg_posts :: "post_request list"

section \<open>Selectors\<close>

definition triageStatusOf :: "string \<Rightarrow> case_store \<Rightarrow> triage_status" where
  "triageStatusOf caseId cases = (case dictGet cases caseId of None \<Rightarrow> TIdle | Some e \<Rightarrow> ce_triageStatus e)"

definition triageStartedAtOf :: "string \<Rightarrow> case_store \<Rightarrow> int" where
  "triageStartedAtOf caseId cases =
     (case dictGet cases caseId of None \<Rightarrow> 0 | Some e \<Rightarrow> (case ce_triageStartedAt e of None \<Rightarrow> 0 | Some t \<Rightarrow> t))"

definition hasTerminalTrace :: "string \<Rightarrow> case_store \<Rightarrow> bool" where
  "hasTerminalTrace caseId cases =
     list_ex (\<lambda>s. ks_step_kind s = ''final_verdict'' \<or> ks_step_kind s = ''envelope'') (selectTraceSteps caseId cases)"

definition triageLoading :: "hook_mount \<Rightarrow> case_store \<Rightarrow> bool" where
  "triageLoading m cases \<longleftrightarrow>
     hm_error m = None \<and> selectVerdict (hm_caseId m) cases = None \<and> \<not> hasTerminalTrace (hm_caseId m) cases"

definition fireDeps :: "hook_mount \<Rightarrow> triage_page \<Rightarrow> fire_deps" where
  "fireDeps m p = \<lparr>dp_alert = hm_alert m, dp_caseId = hm_caseId m,
     dp_hasCase = (dictGet (pg_store p) (hm_caseId m) \<noteq> None), dp_hydrated = pg_hydrated p,
     dp_serverChecked = (hm_serverCheckedFor m = Some (hm_caseId m)),
     dp_storeVerdict = selectVerdict (hm_caseId m) (pg_store p),
     dp_triageStatus = triageStatusOf (hm_caseId m) (pg_store p),
     dp_triageStartedAt = triageStartedAtOf (hm_caseId m) (pg_store p),
     dp_hasTerminalTrace = hasTerminalTrace (hm_caseId m) (pg_store p)\<rparr>"

definition updMount :: "nat \<Rightarrow> (hook_mount \<Rightarrow> hook_mount) \<Rightarrow> triage_page \<Rightarrow> triage_page" where
  "updMount i f p = p\<lparr>pg_mounts := (pg_mounts p)[i := f (pg_mounts p ! i)]\<rparr>"

section \<open>The server check\<close>

definition detachCheck :: "nat option \<Rightarrow> triage_page \<Rightarrow> triage_page" where
  "detachCheck k p = (case k of None \<Rightarrow> p
     | Some j \<Rightarrow> p\<lparr>pg_checks := (pg_checks p)[j := (pg_checks p ! j)\<lparr>cq_mounted := False\<rparr>]\<rparr>)"

definition checkEffect :: "nat \<Rightarrow> triage_page \<Rightarrow> triage_page" where
  "checkEffect i p =
     (let m = pg_mounts p ! i; deps = (hm_caseId m, pg_hydrated p) in
      if hm_checkDeps m = Some deps then p
      else
        let p' = detachCheck (hm_check m) p in
        if \<not> pg_hydrated p then updMount i (\<lambda>m. m\<lparr>hm_checkDeps := Some deps, hm_check := None\<rparr>) p'
        else (updMount i (\<lambda>m. m\<lparr>hm_checkDeps := Some deps, hm_check := Some (length (pg_checks p'))\<rparr>) p')
          \<lparr>pg_checks := pg_checks p' @ [\<lparr>cq_case = hm_caseId m, cq_mount = i, cq_mounted = True, cq_pending = True\<rparr>]\<rparr>)"

text \<open>The answer: \<open>None\<close> when the request or the parsing of its body failed.\<close>

definition checkAnswered :: "nat \<Rightarrow> triage_status_response option \<Rightarrow> int \<Rightarrow> triage_page \<Rightarrow> triage_page" where
  "checkAnswered k data now p =
     (let q = pg_checks p ! k; p' = p\<lparr>pg_checks := (pg_checks p)[k := q\<lparr>cq_pending := False\<rparr>]\<rparr> in
      if \<not> cq_mounted q then p'
      else (case data of
          None \<Rightarrow> updMount (cq_mount q) (\<lambda>m. m\<lparr>hm_serverCheckedFor := Some (cq_case q)\<rparr>) p'
        | Some d \<Rightarrow>
            (case sr_verdict d of
               Some v \<Rightarrow> p'\<lparr>pg_store := setVerdict (cq_case q) v now (pg_store p),
                          pg_triageFired := cq_case q # pg_triageFired p\<rparr>
             | None \<Rightarrow>
                 if sr_status d = Some ''failed'' \<and> sr_error d \<noteq> None \<and> sr_error d \<noteq> Some []
                 then updMount (cq_mount q) (\<lambda>m. m\<lparr>hm_error := sr_error d\<rparr>)
                        (p'\<lparr>pg_store := failTriage (cq_case q) (the (sr_error d)) now (pg_store p)\<rparr>)
                 else updMount (cq_mount q) (\<lambda>m. m\<lparr>hm_serverCheckedFor := Some (cq_case q)\<rparr>) p')))"

section \<open>The triage request\<close>

definition detachPost :: "nat option \<Rightarrow> triage_page \<Rightarrow> triage_page" where
  "detachPost k p = (case k of None \<Rightarrow> p
     | Some j \<Rightarrow> p\<lparr>pg_posts := (pg_posts p)[j := (pg_posts p ! j)\<lparr>pq_mounted := False\<rparr>]\<rparr>)"

definition runningIsFresh :: "fire_deps \<Rightarrow> int \<Rightarrow> bool" where
  "runningIsFresh d now \<longleftrightarrow>
     dp_triageStatus d = TRunning \<and> 0 < dp_triageStartedAt d \<and> now - dp_triageStartedAt d < RUNNING_TTL_MS"

text \<open>The body of the effect, with the three readings of the clock it can make: its own and the two of
  \<open>startTriage\<close>. The result says which request the effect's clean-up closes over.\<close>

definition fireBody :: "nat \<Rightarrow> fire_deps \<Rightarrow> bool \<Rightarrow> int \<Rightarrow> int \<Rightarrow> int \<Rightarrow> triage_page \<Rightarrow> triage_page \<times> nat option" where
  "fireBody i d firedRef now t1 t2 p =
     (if \<not> dp_hydrated d \<or> \<not> dp_serverChecked d \<or> \<not> dp_hasCase d then (p, None)
      else if dp_storeVerdict d \<noteq> None \<or> dp_hasTerminalTrace d then (p, None)
      else if runningIsFresh d now then (p, None)
      else
        let c = dp_caseId d;
            fired = (if dp_triageStatus d = TRunning then filter (\<lambda>x. x \<noteq> c) (pg_triageFired p) else pg_triageFired p)
        in if dp_alert d = None \<or> firedRef \<or> c \<in> set fired then (p\<lparr>pg_triageFired := fired\<rparr>, None)
           else (updMount i (\<lambda>m. m\<lparr>hm_firedRef := True\<rparr>)
                   (p\<lparr>pg_triageFired := c # fired, pg_store := startTriage c t1 t2 (pg_store p),
                      pg_posts := pg_posts p @ [\<lparr>pq_case = c, pq_mount = i, pq_mounted = True, pq_pending = True, pq_at = t1\<rparr>]\<rparr>),
                 Some (length (pg_posts p))))"

definition fireEffect :: "nat \<Rightarrow> int \<Rightarrow> int \<Rightarrow> int \<Rightarrow> triage_page \<Rightarrow> triage_page" where
  "fireEffect i now t1 t2 p =
     (let m = pg_mounts p ! i; d = fireDeps m p in
      if hm_fireDeps m = Some d then p
      else case fireBody i d (hm_firedRef m) now t1 t2 (detachPost (hm_post m) p) of
             (p', post) \<Rightarrow> updMount i (\<lambda>m. m\<lparr>hm_fireDeps := Some d, hm_post := post\<rparr>) p')"

text \<open>The answer to the POST: a verdict, an HTTP status that is not ok, or a rejection with the message of the
  error when it is one.\<close>

datatype post_answer = PostVerdict triage_verdict | PostStatus nat | PostThrew "string option"

fun postFailure :: "post_answer \<Rightarrow> string option" where
  "postFailure (PostVerdict _) = None"
| "postFailure (PostStatus n) = Some (''HTTP '' @ natStr n)"
| "postFailure (PostThrew e) = Some (orElse e ''Triage failed'')"

definition postAnswered :: "nat \<Rightarrow> post_answer \<Rightarrow> int \<Rightarrow> triage_page \<Rightarrow> triage_page" where
  "postAnswered k a now p =
     (let q = pg_posts p ! k; p' = p\<lparr>pg_posts := (pg_posts p)[k := q\<lparr>pq_pending := False\<rparr>]\<rparr> in
      case a of
        PostVerdict v \<Rightarrow> p'\<lparr>pg_store := setVerdict (pq_case q) v now (pg_store p)\<rparr>
      | _ \<Rightarrow>
          let message = the (postFailure a);
              p'' = p'\<lparr>pg_store := failTriage (pq_case q) message now (pg_store p)\<rparr>
          in if pq_mounted q then updMount (pq_mount q) (\<lambda>m. m\<lparr>hm_error := Some message\<rparr>) p'' else p'')"

section \<open>The page\<close>

datatype page_event =
    Hydrate case_store
  | MountHook string "nat option"
  | NewProps nat string "nat option"
  | Render nat int int int
  | UnmountHook nat
  | CheckAnswers nat "triage_status_response option" int
  | PostAnswers nat post_answer int
  | StoreAction case_op

definition newMount :: "string \<Rightarrow> nat option \<Rightarrow> hook_mount" where
  "newMount c a = \<lparr>hm_caseId = c, hm_alert = a, hm_serverCheckedFor = None, hm_error = None, hm_firedRef = False,
     hm_checkDeps = None, hm_check = None, hm_fireDeps = None, hm_post = None\<rparr>"

fun pageStep :: "page_event \<Rightarrow> triage_page \<Rightarrow> triage_page" where
  "pageStep (Hydrate cases) p = (if pg_hydrated p then p else p\<lparr>pg_store := cases, pg_hydrated := True\<rparr>)"
| "pageStep (MountHook c a) p = p\<lparr>pg_mounts := pg_mounts p @ [newMount c a]\<rparr>"
| "pageStep (NewProps i c a) p =
     (if i < length (pg_mounts p) then updMount i (\<lambda>m. m\<lparr>hm_caseId := c, hm_alert := a\<rparr>) p else p)"
| "pageStep (Render i now t1 t2) p =
     (if i < length (pg_mounts p) then fireEffect i now t1 t2 (checkEffect i p) else p)"
| "pageStep (UnmountHook i) p =
     (if i < length (pg_mounts p) then detachPost (hm_post (pg_mounts p ! i)) (detachCheck (hm_check (pg_mounts p ! i)) p) else p)"
| "pageStep (CheckAnswers k d now) p =
     (if k < length (pg_checks p) \<and> cq_pending (pg_checks p ! k) then checkAnswered k d now p else p)"
| "pageStep (PostAnswers k a now) p =
     (if k < length (pg_posts p) \<and> pq_pending (pg_posts p ! k) then postAnswered k a now p else p)"
| "pageStep (StoreAction op) p = p\<lparr>pg_store := caseStep op (pg_store p)\<rparr>"

definition emptyPage :: triage_page where
  "emptyPage = \<lparr>pg_store = [], pg_hydrated = False, pg_triageFired = [], pg_mounts = [], pg_checks = [], pg_posts = []\<rparr>"

definition pageRun :: "page_event list \<Rightarrow> triage_page" where
  "pageRun es = fold pageStep es emptyPage"

text \<open>The readings of the clock an event makes before it can send a request, and the actions of the store
  that other components call: only this hook calls \<open>startTriage\<close>.\<close>

fun clockReadings :: "page_event \<Rightarrow> int list" where
  "clockReadings (Render i now t1 t2) = [now, t1, t2]"
| "clockReadings _ = []"

fun foreignAction :: "page_event \<Rightarrow> bool" where
  "foreignAction (StoreAction (StartTriage _ _ _)) = False"
| "foreignAction _ = True"

section \<open>Facts\<close>

definition sent :: "triage_page \<Rightarrow> (string \<times> int) list" where
  "sent p = map (\<lambda>q. (pq_case q, pq_at q)) (pg_posts p)"

lemma map_update_same: "f y = f (xs ! j) \<Longrightarrow> map f (xs[j := y]) = map f xs"
  by (cases "j < length xs") (simp_all add: map_update list_update_same_conv list_update_beyond)

lemma updMount_sel [simp]:
  "pg_store (updMount i f p) = pg_store p" "pg_triageFired (updMount i f p) = pg_triageFired p"
  "pg_posts (updMount i f p) = pg_posts p" "pg_checks (updMount i f p) = pg_checks p"
  "pg_hydrated (updMount i f p) = pg_hydrated p" "length (pg_mounts (updMount i f p)) = length (pg_mounts p)"
  "i < length (pg_mounts p) \<Longrightarrow> pg_mounts (updMount i f p) ! k = (if k = i then f (pg_mounts p ! i) else pg_mounts p ! k)"
  by (simp_all add: updMount_def)

lemma detachCheck_sel [simp]:
  "pg_store (detachCheck k p) = pg_store p" "pg_triageFired (detachCheck k p) = pg_triageFired p"
  "pg_posts (detachCheck k p) = pg_posts p" "pg_hydrated (detachCheck k p) = pg_hydrated p"
  "pg_mounts (detachCheck k p) = pg_mounts p"
  by (simp_all add: detachCheck_def split: option.splits)

lemma detachPost_sel [simp]:
  "pg_store (detachPost k p) = pg_store p" "pg_triageFired (detachPost k p) = pg_triageFired p"
  "sent (detachPost k p) = sent p" "pg_hydrated (detachPost k p) = pg_hydrated p" "pg_mounts (detachPost k p) = pg_mounts p"
  by (simp_all add: detachPost_def sent_def map_update_same split: option.splits)

lemma checkEffect_sel [simp]:
  "pg_store (checkEffect i p) = pg_store p" "pg_triageFired (checkEffect i p) = pg_triageFired p"
  "pg_posts (checkEffect i p) = pg_posts p" "pg_hydrated (checkEffect i p) = pg_hydrated p"
  "length (pg_mounts (checkEffect i p)) = length (pg_mounts p)"
  by (simp_all add: checkEffect_def Let_def)

text \<open>A change of the store that starts no job: whatever runs afterwards ran before, since the same time.\<close>

definition startsNothing :: "case_store \<Rightarrow> case_store \<Rightarrow> bool" where
  "startsNothing s s' \<longleftrightarrow> (\<forall>c e'. dictGet s' c = Some e' \<and> ce_triageStatus e' = TRunning \<longrightarrow>
     (\<exists>e. dictGet s c = Some e \<and> ce_triageStatus e = TRunning \<and> ce_triageStartedAt e = ce_triageStartedAt e'))"

lemma startsNothing_refl [simp]: "startsNothing s s"
  by (simp add: startsNothing_def)

lemma startsNothing_updateEntry:
  "(\<And>e. ce_triageStatus (f e) = TRunning \<Longrightarrow> ce_triageStatus e = TRunning \<and> ce_triageStartedAt (f e) = ce_triageStartedAt e) \<Longrightarrow>
   startsNothing s (updateEntry c f s)"
  by (auto simp: startsNothing_def updateEntry_get split: if_splits)

lemma startsNothing_del: "startsNothing s (dictDel k s)"
  by (auto simp: startsNothing_def dictGet_del split: if_splits)

lemma startsNothing_trans: "startsNothing s s' \<Longrightarrow> startsNothing s' s'' \<Longrightarrow> startsNothing s s''"
  unfolding startsNothing_def by metis

lemma startsNothing_init: "startsNothing s (initCase c ev b now s)"
proof -
  have "startsNothing s (evictIfNeeded s c)"
    by (auto simp: evictIfNeeded_def startsNothing_del split: list.splits)
  then show ?thesis
    by (fastforce simp: startsNothing_def initCase_def Let_def dictGet_put initEntry_def split: if_splits option.splits)
qed

lemma startsNothing_caseStep: "foreignAction (StoreAction op) \<Longrightarrow> startsNothing s (caseStep op s)"
proof (cases op)
  case (AppendTraceStep c st t)
  then show ?thesis
    by (auto simp: appendTraceStep_alt intro!: startsNothing_updateEntry split: option.splits)
qed (auto simp: startsNothing_init startsNothing_del evict_def setVerdict_def failTriage_def clearTraceSteps_def
       setApproved_def setOverride_def intro!: startsNothing_updateEntry)

subsection \<open>Requests for one case are spaced\<close>

definition spaced :: "(string \<times> int) list \<Rightarrow> bool" where
  "spaced xs = sorted_wrt (\<lambda>(c, s) (d, t). c = d \<longrightarrow> s + RUNNING_TTL_MS \<le> t) xs"

definition guarded :: "(string \<times> int) list \<Rightarrow> string list \<Rightarrow> case_store \<Rightarrow> int \<Rightarrow> bool" where
  "guarded xs fired store clk \<longleftrightarrow>
     (\<forall>(c, s) \<in> set xs. 0 < s \<and> s \<le> clk \<and> (c \<in> set fired \<or> s + RUNNING_TTL_MS \<le> clk) \<and>
        (\<forall>e. dictGet store c = Some e \<and> ce_triageStatus e = TRunning \<longrightarrow>
           (\<exists>s'. ce_triageStartedAt e = Some s' \<and> s \<le> s')))"

definition pageOk :: "int \<Rightarrow> triage_page \<Rightarrow> bool" where
  "pageOk clk p \<longleftrightarrow> guarded (sent p) (pg_triageFired p) (pg_store p) clk \<and> spaced (sent p) \<and>
     (\<not> pg_hydrated p \<longrightarrow> pg_posts p = [])"

lemma guarded_frame:
  "guarded xs fired s clk \<Longrightarrow> startsNothing s s' \<Longrightarrow> set fired \<subseteq> set fired' \<Longrightarrow> clk \<le> clk' \<Longrightarrow> guarded xs fired' s' clk'"
  unfolding guarded_def startsNothing_def by (fastforce split: prod.splits)

lemma pageOk_frame:
  assumes "pageOk clk p" and "sent p' = sent p" and "startsNothing (pg_store p) (pg_store p')"
    and "set (pg_triageFired p) \<subseteq> set (pg_triageFired p')" and "pg_hydrated p' = pg_hydrated p" and "clk \<le> clk'"
  shows "pageOk clk' p'"
proof -
  have "length (pg_posts p') = length (pg_posts p)"
    using assms(2) by (metis length_map sent_def)
  then show ?thesis
    using assms guarded_frame [OF _ assms(3,4,6), of "sent p"] by (auto simp: pageOk_def)
qed

lemma sent_store [simp]: "sent (detachCheck k p) = sent p" "sent (p\<lparr>pg_mounts := ms\<rparr>) = sent p" "sent (p\<lparr>pg_store := s\<rparr>) = sent p" "sent (updMount i f p) = sent p" "sent (checkEffect i p) = sent p"
  by (simp_all add: sent_def)

text \<open>Once a stale marker has been cleared, every earlier request of the case is five minutes old.\<close>

lemma stale_marker:
  assumes g: "guarded xs fired store clk" and e: "dictGet store c = Some e" "ce_triageStatus e = TRunning"
    and stale: "\<not> (0 < triageStartedAtOf c store \<and> now - triageStartedAtOf c store < RUNNING_TTL_MS)"
    and x: "(c, s) \<in> set xs"
  shows "s + RUNNING_TTL_MS \<le> now"
proof -
  from g x e obtain s' where "0 < s" "ce_triageStartedAt e = Some s'" "s \<le> s'"
    unfolding guarded_def by fastforce
  with stale e show ?thesis by (auto simp: triageStartedAtOf_def)
qed

lemma guarded_startTriage:
  assumes "guarded xs fired store clk" and "clk \<le> t1" and "0 < t1" and "c \<notin> set fired"
    and old: "\<And>s. (c, s) \<in> set xs \<Longrightarrow> s + RUNNING_TTL_MS \<le> t1"
  shows "guarded (xs @ [(c, t1)]) (c # fired) (startTriage c t1 t2 store) t1"
  unfolding guarded_def
proof clarify
  fix d s assume x: "(d, s) \<in> set (xs @ [(c, t1)])"
  have s: "0 < s \<and> s \<le> t1" using x assms unfolding guarded_def by fastforce
  moreover have "d \<in> set (c # fired) \<or> s + RUNNING_TTL_MS \<le> t1" using x assms(1,2) unfolding guarded_def by fastforce
  moreover have "\<exists>s'. ce_triageStartedAt e = Some s' \<and> s \<le> s'"
    if "dictGet (startTriage c t1 t2 store) d = Some e" "ce_triageStatus e = TRunning" for e
  proof (cases "d = c")
    case True
    with that s show ?thesis by (auto simp: startTriage_def updateEntry_get)
  next
    case False
    with x have "(d, s) \<in> set xs" by simp
    with that False assms(1) show ?thesis unfolding guarded_def startTriage_def by (fastforce simp: updateEntry_get)
  qed
  ultimately show "0 < s \<and> s \<le> t1 \<and> (d \<in> set (c # fired) \<or> s + RUNNING_TTL_MS \<le> t1) \<and>
      (\<forall>e. dictGet (startTriage c t1 t2 store) d = Some e \<and> ce_triageStatus e = TRunning \<longrightarrow>
         (\<exists>s'. ce_triageStartedAt e = Some s' \<and> s \<le> s'))" by blast
qed

lemma guarded_unfire:
  assumes "guarded xs fired store clk" and "clk \<le> now" and old: "\<And>s. (c, s) \<in> set xs \<Longrightarrow> s + RUNNING_TTL_MS \<le> now"
  shows "guarded xs (filter (\<lambda>x. x \<noteq> c) fired) store now"
  using assms unfolding guarded_def by fastforce

definition fireIdle :: "fire_deps \<Rightarrow> int \<Rightarrow> bool" where
  "fireIdle d now \<longleftrightarrow> \<not> dp_hydrated d \<or> \<not> dp_serverChecked d \<or> \<not> dp_hasCase d \<or> dp_storeVerdict d \<noteq> None \<or>
     dp_hasTerminalTrace d \<or> runningIsFresh d now"

definition firedNow :: "fire_deps \<Rightarrow> triage_page \<Rightarrow> string list" where
  "firedNow d p = (if dp_triageStatus d = TRunning then filter (\<lambda>x. x \<noteq> dp_caseId d) (pg_triageFired p) else pg_triageFired p)"

definition sendPost :: "nat \<Rightarrow> fire_deps \<Rightarrow> int \<Rightarrow> int \<Rightarrow> triage_page \<Rightarrow> triage_page" where
  "sendPost i d t1 t2 p = updMount i (\<lambda>m. m\<lparr>hm_firedRef := True\<rparr>)
     (p\<lparr>pg_triageFired := dp_caseId d # firedNow d p, pg_store := startTriage (dp_caseId d) t1 t2 (pg_store p),
        pg_posts := pg_posts p @ [\<lparr>pq_case = dp_caseId d, pq_mount = i, pq_mounted = True, pq_pending = True, pq_at = t1\<rparr>]\<rparr>)"

lemma fireBody_alt:
  "fireBody i d fr now t1 t2 p =
     (if fireIdle d now then (p, None)
      else if dp_alert d = None \<or> fr \<or> dp_caseId d \<in> set (firedNow d p) then (p\<lparr>pg_triageFired := firedNow d p\<rparr>, None)
      else (sendPost i d t1 t2 p, Some (length (pg_posts p))))"
proof (cases "fireIdle d now")
  case True
  then show ?thesis by (auto simp: fireIdle_def fireBody_def)
next
  case False
  then have "dp_hydrated d" "dp_serverChecked d" "dp_hasCase d" "dp_storeVerdict d = None" "\<not> dp_hasTerminalTrace d"
    "\<not> runningIsFresh d now" by (simp_all add: fireIdle_def)
  then show ?thesis using False by (simp only: fireBody_def Let_def if_False not_True_eq_False simp_thms firedNow_def sendPost_def)
qed

lemma fireBody_ok:
  assumes ok: "pageOk clk p" and t: "clk \<le> now" "now \<le> t1" "t1 \<le> t2" "0 < now"
  shows "pageOk t2 (fst (fireBody i (fireDeps m p) fr now t1 t2 p))"
proof -
  let ?d = "fireDeps m p" and ?c = "hm_caseId m"
  have d: "dp_caseId ?d = ?c" "dp_hydrated ?d = pg_hydrated p" by (simp_all add: fireDeps_def)
  have stale: "s + RUNNING_TTL_MS \<le> now"
    if "dp_triageStatus ?d = TRunning" "\<not> runningIsFresh ?d now" "(?c, s) \<in> set (sent p)" for s
  proof -
    from that obtain e where "dictGet (pg_store p) ?c = Some e" "ce_triageStatus e = TRunning"
      by (auto simp: fireDeps_def triageStatusOf_def split: option.splits)
    then show ?thesis
      using stale_marker [of "sent p" "pg_triageFired p" "pg_store p" clk ?c e now s] ok that
      by (auto simp: pageOk_def runningIsFresh_def fireDeps_def)
  qed
  have g: "guarded (sent p) (firedNow ?d p) (pg_store p) now" if "\<not> runningIsFresh ?d now"
  proof (cases "dp_triageStatus ?d = TRunning")
    case True
    then show ?thesis using guarded_unfire [OF _ t(1) stale [OF True that]] ok by (simp add: firedNow_def d pageOk_def)
  next
    case False
    then show ?thesis
      using ok guarded_frame [OF _ startsNothing_refl subset_refl t(1)] by (simp add: firedNow_def pageOk_def)
  qed
  show ?thesis
  proof (cases "fireIdle ?d now")
    case True
    then show ?thesis using ok t by (auto simp: fireBody_alt intro: pageOk_frame [OF ok])
  next
    case active: False
    then have nf: "\<not> runningIsFresh ?d now" and hy: "pg_hydrated p" by (simp_all add: fireIdle_def d)
    show ?thesis
    proof (cases "dp_alert ?d = None \<or> fr \<or> dp_caseId ?d \<in> set (firedNow ?d p)")
      case True
      have "guarded (sent p) (firedNow ?d p) (pg_store p) t2"
        using guarded_frame [OF g [OF nf] startsNothing_refl subset_refl, of t2] t by simp
      then show ?thesis using ok active True by (simp add: fireBody_alt pageOk_def sent_def)
    next
      case False
      have old: "s + RUNNING_TTL_MS \<le> t1" if "(?c, s) \<in> set (sent p)" for s
      proof -
        have "s + RUNNING_TTL_MS \<le> now" using g [OF nf] False that d unfolding guarded_def by fastforce
        then show ?thesis using t by simp
      qed
      have "guarded (sent p @ [(?c, t1)]) (?c # firedNow ?d p) (startTriage ?c t1 t2 (pg_store p)) t1"
        using guarded_startTriage [OF g [OF nf], of t1 ?c t2] t False old d by simp
      from guarded_frame [OF this startsNothing_refl subset_refl t(3)]
      have "guarded (sent p @ [(?c, t1)]) (?c # firedNow ?d p) (startTriage ?c t1 t2 (pg_store p)) t2" .
      moreover have "spaced (sent p @ [(?c, t1)])"
        using ok old by (auto simp: pageOk_def spaced_def sorted_wrt_append)
      ultimately show ?thesis using active False hy by (auto simp: fireBody_alt sendPost_def pageOk_def sent_def d)
    qed
  qed
qed

lemma fireDeps_detach [simp]: "fireDeps m (detachPost k p) = fireDeps m p"
  by (simp add: fireDeps_def)

lemma pageOk_detach: "pageOk clk p \<Longrightarrow> pageOk clk (detachPost k p)"
  by (erule pageOk_frame) simp_all

lemma fireEffect_ok:
  assumes ok: "pageOk clk p" and t: "clk \<le> now" "now \<le> t1" "t1 \<le> t2" "0 < now"
  shows "pageOk t2 (fireEffect i now t1 t2 p)"
proof -
  let ?m = "pg_mounts p ! i"
  let ?r = "fireBody i (fireDeps ?m p) (hm_firedRef ?m) now t1 t2 (detachPost (hm_post ?m) p)"
  have "pageOk t2 (fst ?r)"
    using fireBody_ok [OF pageOk_detach [OF ok] t] by simp
  then have "pageOk t2 (updMount i f (fst ?r))" for f
    by (rule pageOk_frame) simp_all
  moreover have "pageOk t2 p" using ok t by (auto intro: pageOk_frame [OF ok])
  ultimately show ?thesis by (simp add: fireEffect_def Let_def case_prod_unfold)
qed

lemma checkAnswered_frame:
  "sent (checkAnswered k d now p) = sent p" "startsNothing (pg_store p) (pg_store (checkAnswered k d now p))"
  "set (pg_triageFired p) \<subseteq> set (pg_triageFired (checkAnswered k d now p))"
  "pg_hydrated (checkAnswered k d now p) = pg_hydrated p"
  by (auto simp: checkAnswered_def Let_def sent_def setVerdict_def failTriage_def intro!: startsNothing_updateEntry
      split: option.splits)

lemma postAnswered_frame:
  "sent (postAnswered k a now p) = sent p" "startsNothing (pg_store p) (pg_store (postAnswered k a now p))"
  "pg_triageFired (postAnswered k a now p) = pg_triageFired p" "pg_hydrated (postAnswered k a now p) = pg_hydrated p"
  by (auto simp: postAnswered_def Let_def sent_def setVerdict_def failTriage_def map_update_same
      intro!: startsNothing_updateEntry split: post_answer.splits)

lemma pageStep_ok:
  assumes ok: "pageOk clk p" and "foreignAction e" and "sorted (clk # clockReadings e)" and "\<forall>t \<in> set (clockReadings e). 0 < t"
  shows "pageOk (last (clk # clockReadings e)) (pageStep e p)"
proof (cases e)
  case (Hydrate cases)
  then show ?thesis using ok by (auto simp: pageOk_def guarded_def spaced_def sent_def)
next
  case (Render i now t1 t2)
  have "pageOk clk (checkEffect i p)" by (rule pageOk_frame [OF ok]) simp_all
  with Render assms show ?thesis
    by (auto intro!: fireEffect_ok intro: pageOk_frame [OF ok])
next
  case (StoreAction op)
  with assms show ?thesis by (auto intro!: pageOk_frame [OF ok] startsNothing_caseStep)
next
  case (CheckAnswers k d now)
  then show ?thesis using checkAnswered_frame [where p = p and k = k and d = d and now = now] ok by (auto intro!: pageOk_frame [OF ok])
next
  case (PostAnswers k a now)
  then show ?thesis using postAnswered_frame [where p = p and k = k and a = a and now = now] ok by (auto intro!: pageOk_frame [OF ok])
qed (use ok in \<open>auto intro!: pageOk_frame [OF ok]\<close>)

lemma pageRun_ok:
  "pageOk clk p \<Longrightarrow> list_all foreignAction es \<Longrightarrow> sorted (clk # concat (map clockReadings es)) \<Longrightarrow>
   \<forall>t \<in> set (concat (map clockReadings es)). 0 < t \<Longrightarrow> \<exists>clk'. pageOk clk' (fold pageStep es p)"
proof (induction es arbitrary: clk p)
  case (Cons e es)
  let ?clk = "last (clk # clockReadings e)"
  have "sorted (clk # clockReadings e)" and later: "sorted (?clk # concat (map clockReadings es))"
    using Cons.prems(3) by (auto simp: sorted_append split: if_splits)
  then have "pageOk ?clk (pageStep e p)"
    using Cons.prems by (intro pageStep_ok) auto
  from Cons.IH [OF this _ later] Cons.prems show ?case by simp
qed auto

section \<open>Properties\<close>

text \<open>C11: one browser page never asks for two investigations of a case within five minutes: over any number of
  mounts, renders, late answers and other changes of the store, two triage requests for the same case are
  sent at least \<open>RUNNING_TTL_MS\<close> apart, as long as the clock does not run backwards.\<close>

theorem triage_posts_spaced:
  assumes "list_all foreignAction es" and "sorted (concat (map clockReadings es))"
    and "\<forall>t \<in> set (concat (map clockReadings es)). 0 < t"
  shows "sorted_wrt (\<lambda>q r. pq_case q = pq_case r \<longrightarrow> pq_at q + RUNNING_TTL_MS \<le> pq_at r) (pg_posts (pageRun es))"
proof -
  have "pageOk 0 emptyPage"
    by (simp add: pageOk_def emptyPage_def sent_def guarded_def spaced_def)
  moreover have "sorted (0 # concat (map clockReadings es))"
    using assms(2,3) by (auto dest!: order_less_imp_le)
  ultimately obtain clk where "pageOk clk (pageRun es)"
    using pageRun_ok [OF _ assms(1) _ assms(3)] unfolding pageRun_def by blast
  then have "spaced (sent (pageRun es))" by (simp add: pageOk_def)
  then show ?thesis by (simp add: spaced_def sent_def sorted_wrt_map)
qed

definition sampleEvent :: ocsf_event where
  "sampleEvent = \<lparr>ev_event_id = ''e'', ev_class_uid = None, ev_time = None, ev_tenant_id = None, ev_actor_user_name = None,
     ev_actor_user_uid = None, ev_cloud_region = None, ev_cloud_account_uid = None, ev_severity = None,
     ev_auth_status = None, ev_api_operation = None, ev_api_service = None\<rparr>"

definition openCase :: "string \<Rightarrow> int \<Rightarrow> page_event list" where
  "openCase c t = [Hydrate [], MountHook c (Some 0), StoreAction (InitCase c sampleEvent None t), Render 0 t t t,
     CheckAnswers 0 None t, Render 0 t t t, Render 0 t t t]"

text \<open>The state after the case was opened: the request is out, its clean-up has already run, and the mount shows
  no error.\<close>

lemmas page_eval = pageRun_def openCase_def emptyPage_def newMount_def checkEffect_def fireEffect_def updMount_def Let_def
  detachCheck_def detachPost_def fireDeps_def selectVerdict_def triageStatusOf_def triageStartedAtOf_def
  hasTerminalTrace_def selectTraceSteps_def fireBody_alt fireIdle_def firedNow_def sendPost_def runningIsFresh_def
  initCase_def initEntry_def evictIfNeeded_def MAX_CASES_def checkAnswered_def startTriage_def updateEntry_def RUNNING_TTL_MS_def

lemma openCase_posts:
  assumes "0 < t"
  shows "pg_posts (pageRun (openCase c t)) =
      [\<lparr>pq_case = c, pq_mount = 0, pq_mounted = False, pq_pending = True, pq_at = t\<rparr>]"
    and "\<exists>m. pg_mounts (pageRun (openCase c t)) = [m] \<and> hm_caseId m = c \<and> hm_error m = None \<and> hm_firedRef m"
    and "\<exists>e. pg_store (pageRun (openCase c t)) = [(c, e)] \<and> ce_triageStatus e = TRunning \<and> ce_verdict e = None \<and>
      ce_traceSteps e = []"
  using assms by (simp_all add: page_eval)

text \<open>A mount that has fired keeps its state over any number of renders.\<close>

lemma render_fired:
  assumes "i < length (pg_mounts p)" and "hm_firedRef (pg_mounts p ! i)"
  shows "pg_store (pageStep (Render i now t1 t2) p) = pg_store p"
    and "length (pg_mounts (pageStep (Render i now t1 t2) p)) = length (pg_mounts p)"
    and "hm_firedRef (pg_mounts (pageStep (Render i now t1 t2) p) ! i)"
    and "hm_error (pg_mounts (pageStep (Render i now t1 t2) p) ! i) = hm_error (pg_mounts p ! i)"
    and "hm_caseId (pg_mounts (pageStep (Render i now t1 t2) p) ! i) = hm_caseId (pg_mounts p ! i)"
proof -
  let ?p = "checkEffect i p"
  have c: "hm_firedRef (pg_mounts ?p ! i)" "hm_error (pg_mounts ?p ! i) = hm_error (pg_mounts p ! i)"
    "hm_caseId (pg_mounts ?p ! i) = hm_caseId (pg_mounts p ! i)"
    using assms by (simp_all add: checkEffect_def Let_def)
  have b: "pg_store (fst (fireBody i d True now t1 t2 q)) = pg_store q \<and> pg_mounts (fst (fireBody i d True now t1 t2 q)) = pg_mounts q"
    for d q by (simp add: fireBody_alt)
  show "pg_store (pageStep (Render i now t1 t2) p) = pg_store p"
    "length (pg_mounts (pageStep (Render i now t1 t2) p)) = length (pg_mounts p)"
    "hm_firedRef (pg_mounts (pageStep (Render i now t1 t2) p) ! i)"
    "hm_error (pg_mounts (pageStep (Render i now t1 t2) p) ! i) = hm_error (pg_mounts p ! i)"
    "hm_caseId (pg_mounts (pageStep (Render i now t1 t2) p) ! i) = hm_caseId (pg_mounts p ! i)"
    using assms c b by (simp_all add: fireEffect_def Let_def case_prod_unfold)
qed

lemma renders_fired:
  assumes "i < length (pg_mounts p)" and "hm_firedRef (pg_mounts p ! i)" and "list_all (\<lambda>e. \<exists>a b c. e = Render i a b c) es"
  shows "pg_store (fold pageStep es p) = pg_store p \<and> hm_error (pg_mounts (fold pageStep es p) ! i) = hm_error (pg_mounts p ! i) \<and>
     hm_caseId (pg_mounts (fold pageStep es p) ! i) = hm_caseId (pg_mounts p ! i)"
  using assms
proof (induction es arbitrary: p)
  case (Cons e es)
  then obtain a b c where e: "e = Render i a b c" by auto
  note step = render_fired [OF Cons.prems(1,2), of a b c]
  have "pg_store (fold pageStep es (pageStep e p)) = pg_store (pageStep e p) \<and>
      hm_error (pg_mounts (fold pageStep es (pageStep e p)) ! i) = hm_error (pg_mounts (pageStep e p) ! i) \<and>
      hm_caseId (pg_mounts (fold pageStep es (pageStep e p)) ! i) = hm_caseId (pg_mounts (pageStep e p) ! i)"
    using Cons.prems step by (intro Cons.IH) (auto simp only: e list_all_iff list.set insert_iff)
  with step show ?case by (simp only: e fold.simps o_apply)
qed simp

text \<open>C39: when the triage request of an opened case fails, the page keeps showing that the analysis is running: the
  store learns of the failure, but the request's \<open>mounted\<close> flag was cleared by the effect's own re-run after
  \<open>startTriage\<close>, so the hook's error is never set, and no later render ends the loading state.\<close>

theorem failed_triage_keeps_loading:
  assumes "0 < t" and "postFailure a = Some msg" and "list_all (\<lambda>e. \<exists>x y z. e = Render 0 x y z) renders"
  shows "let p = pageRun (openCase c t @ [PostAnswers 0 a now] @ renders) in
    triageStatusOf c (pg_store p) = TFailed \<and> hm_error (pg_mounts p ! 0) = None \<and> triageLoading (pg_mounts p ! 0) (pg_store p)"
proof -
  let ?q = "pageRun (openCase c t)" and ?p = "pageStep (PostAnswers 0 a now) (pageRun (openCase c t))"
  obtain m e where m: "pg_mounts ?q = [m]" "hm_caseId m = c" "hm_error m = None" "hm_firedRef m"
    and e: "pg_store ?q = [(c, e)]" "ce_verdict e = None" "ce_traceSteps e = []"
    using openCase_posts [OF assms(1), of c] by blast
  have p: "pg_mounts ?p = [m]" "pg_store ?p = failTriage c msg now [(c, e)]"
    using m e assms(2) openCase_posts(1) [OF assms(1), of c]
    by (cases a; simp add: postAnswered_def Let_def)+
  have "pageRun (openCase c t @ [PostAnswers 0 a now] @ renders) = fold pageStep renders ?p"
    by (simp add: pageRun_def)
  then show ?thesis
    using renders_fired [of 0 ?p renders] assms(3) p m e
    by (simp add: Let_def triageLoading_def triageStatusOf_def failTriage_def updateEntry_def selectVerdict_def
        hasTerminalTrace_def selectTraceSteps_def)
qed

theorem failed_triage_keeps_loading_witness:
  "let p = pageRun (openCase ''c'' 1 @ [PostAnswers 0 (PostStatus 502) 9] @ [Render 0 10 10 10]) in
    triageStatusOf ''c'' (pg_store p) = TFailed \<and> hm_error (pg_mounts p ! 0) = None \<and> triageLoading (pg_mounts p ! 0) (pg_store p)"
  by (rule failed_triage_keeps_loading [where msg = "''HTTP '' @ natStr 502"]) simp_all

theorem triage_posts_spaced_witness:
  "sorted_wrt (\<lambda>q r. pq_case q = pq_case r \<longrightarrow> pq_at q + RUNNING_TTL_MS \<le> pq_at r) (pg_posts (pageRun (openCase ''c'' 5))) \<and>
   map pq_at (pg_posts (pageRun (openCase ''c'' 5))) = [5]"
  using triage_posts_spaced [of "openCase ''c'' 5"] openCase_posts(1) [of 5 "''c''"] by (simp add: openCase_def)

end
