(* ===== verification/Case_Page.thy ===== *)
theory Case_Page
  imports Case_Repository Case_Store
begin

text \<open>
  What a visit to a case runs: the server component \<open>app/workbench/cases/[id]/page.tsx\<close>, the fallback
  \<open>components/workbench/case-store-fallback.tsx\<close> for events that left the hot tier, and
  \<open>components/workbench/case-investigation-client.tsx\<close>, which derives the case record from event, baseline and
  verdict and persists the live trace steps. Requests are the answers they get; a server component that
  throws is the value \<open>None\<close>.
\<close>

section \<open>app/workbench/cases/[id]/page.tsx\<close>

definition eventRequest :: "string \<Rightarrow> string \<Rightarrow> string" where
  "eventRequest cp i = cp @ ''/v1/events/recent?id='' @ encodeURIComponent i"

definition baselineRequest :: "string \<Rightarrow> string \<Rightarrow> string" where
  "baselineRequest cp username = cp @ ''/v1/baselines/user/'' @ encodeURIComponent username"

text \<open>\<open>return res.json()\<close> hands the promise on without awaiting it inside the \<open>try\<close>, so that a body that
  cannot be read rejects the function: \<open>None\<close>.\<close>

definition fetchEvent :: "fetched \<Rightarrow> jsval option" where
  "fetchEvent f =
     (case f of
        Rejected _ \<Rightarrow> Some Null
      | Answer st body _ \<Rightarrow> if \<not> okStatus st then Some Null else body)"

definition fetchBaseline :: "fetched \<Rightarrow> jsval option" where
  "fetchBaseline f =
     (case f of
        Rejected _ \<Rightarrow> Some Null
      | Answer st body _ \<Rightarrow> if \<not> okStatus st then Some Null else body)"

datatype case_view = Investigate jsval jsval | StoreFallback

definition eventUnchanged :: "case_row option \<Rightarrow> jsval \<Rightarrow> bool" where
  "eventUnchanged persisted liveEvent =
     (case persisted of
        None \<Rightarrow> False
      | Some row \<Rightarrow> jsField ''event_id'' (cr_event row) \<noteq> Undef \<and>
          jsString (jsField ''event_id'' (cr_event row)) = jsString (jsField ''event_id'' liveEvent))"

definition persistedBaseline :: "case_row option \<Rightarrow> jsval" where
  "persistedBaseline persisted = (case persisted of None \<Rightarrow> Null | Some row \<Rightarrow> nullish (cr_baseline row) Null)"

text \<open>Both reads, then, for a live event that is not the stored one, the baseline and the snapshot; the write is
  not awaited and its failure only logged, so the view does not depend on it.\<close>

definition casePage ::
  "string \<Rightarrow> fetched \<Rightarrow> fault \<Rightarrow> fault \<Rightarrow> fetched \<Rightarrow> int \<Rightarrow> fault \<Rightarrow> repo \<Rightarrow> case_view option \<times> repo" where
  "casePage i fEvent fs fq fBase now fw r =
     (case getCase i fs fq r of (res, r') \<Rightarrow>
      let persisted = (case res of Inl _ \<Rightarrow> None | Inr row \<Rightarrow> row) in
      case fetchEvent fEvent of
        None \<Rightarrow> (None, r')
      | Some liveEvent \<Rightarrow>
          if \<not> truthy liveEvent then
            (case persisted of
               Some row \<Rightarrow> if truthy (cr_event row) then (Some (Investigate (cr_event row) (cr_baseline row)), r')
                           else (Some StoreFallback, r')
             | None \<Rightarrow> (Some StoreFallback, r'))
          else if eventUnchanged persisted liveEvent then
            (Some (Investigate liveEvent (persistedBaseline persisted)), r')
          else
            (case (if truthy (jsField ''actor_user_name'' liveEvent) then fetchBaseline fBase else Some Null) of
               None \<Rightarrow> (None, r')
             | Some base \<Rightarrow>
                 (Some (Investigate liveEvent base),
                  snd (upsertCaseSnapshot i None liveEvent base Undef now None fw r'))))"

section \<open>components/workbench/case-store-fallback.tsx\<close>

datatype fallback_view = LoadingCache | FromCache ocsf_event "baseline option" | EventGone string

definition caseStoreFallback :: "string \<Rightarrow> bool \<Rightarrow> case_store \<Rightarrow> fallback_view" where
  "caseStoreFallback caseId hydrated cases =
     (if \<not> hydrated then LoadingCache
      else case selectCase caseId cases of
             Some entry \<Rightarrow> FromCache (ce_event entry) (ce_baseline entry)
           | None \<Rightarrow> EventGone (slice 0 8 caseId @ ellipsis))"

section \<open>components/workbench/case-investigation-client.tsx\<close>

definition byMagnitude :: "(string \<times> rat) list \<Rightarrow> (string \<times> rat) list" where
  "byMagnitude es = sort_key (\<lambda>(_, v). - \<bar>v\<bar>) es"

definition classifierEvidenceToFeatureImpacts :: "classifier_evidence option \<Rightarrow> feature_impact list" where
  "classifierEvidenceToFeatureImpacts evidence =
     (case evidence of
        None \<Rightarrow> []
      | Some ev \<Rightarrow>
          let shapEntries = objectEntries (cv_shap_values ev) in
          if shapEntries \<noteq> [] then
            map (\<lambda>(name, impact). \<lparr>fi_name = replaceChar CHR ''_'' '' '' name,
                fi_value = toFixed 2 (case dictGet (cv_input_features ev) name of None \<Rightarrow> 0 | Some x \<Rightarrow> x),
                fi_impact = impact\<rparr>) (take 8 (byMagnitude shapEntries))
          else
            map (\<lambda>(name, x). \<lparr>fi_name = replaceChar CHR ''_'' '' '' name, fi_value = toFixed 2 x, fi_impact = 0\<rparr>)
              (take 8 (byMagnitude (objectEntries (cv_input_features ev)))))"

text \<open>The effect that posts trace steps: the keys are marked before the request is sent, whatever becomes of it.
  The result is the batch of the request, if one is sent, and the marked keys.\<close>

definition persistEffect :: "kafka_step list \<Rightarrow> string list \<Rightarrow> kafka_step list option \<times> string list" where
  "persistEffect steps marked =
     (let fresh = dedupBy stepKey marked steps
      in (if fresh = [] then None else Some fresh, rev (map stepKey fresh) @ marked))"

fun persistRuns :: "kafka_step list list \<Rightarrow> string list \<Rightarrow> kafka_step list list" where
  "persistRuns [] marked = []"
| "persistRuns (steps # rest) marked =
     (case persistEffect steps marked of
        (None, marked') \<Rightarrow> persistRuns rest marked'
      | (Some batch, marked') \<Rightarrow> batch # persistRuns rest marked')"

datatype evidence_type = EvOcsf | EvAsset | EvThreatIntel

record timeline_item =
  tl_time :: string
  tl_actor :: string
  tl_event :: string

record evidence_item =
  ei_label :: string
  ei_value :: string
  ei_type :: evidence_type

text \<open>\<open>CaseRecord\<close> as the client builds it: severity, verdict and path are the strings it casts.\<close>

record case_record =
  rc_id :: string
  rc_title :: string
  rc_severity :: string
  rc_state :: alert_state
  rc_entity :: string
  rc_source :: string
  rc_verdict :: string
  rc_confidence :: rat
  rc_executionPath :: string
  rc_timeline :: "timeline_item list"
  rc_evidence :: "evidence_item list"
  rc_featureImpacts :: "feature_impact list"

definition caseTimeline :: "string \<Rightarrow> ocsf_event \<Rightarrow> baseline option \<Rightarrow> triage_verdict option \<Rightarrow> timeline_item list" where
  "caseTimeline now ev liveBaseline verdict =
     [\<lparr>tl_time = now, tl_actor = ''Collector'',
       tl_event = ''Normalized CloudTrail '' @ orElse (ev_api_operation ev) ''event'' @ '' to OCSF.''\<rparr>]
     @ (if liveBaseline \<noteq> None then [\<lparr>tl_time = now, tl_actor = ''RisingWave'',
          tl_event = ''User baseline fetched from entity_baselines view.''\<rparr>] else [])
     @ (case verdict of None \<Rightarrow> []
        | Some v \<Rightarrow>
           [\<lparr>tl_time = now, tl_actor = ''Orchestrator'',
             tl_event = tv_execution_path v @ '' path '' @ em_dash @ '' '' @ tv_verdict v @ '' verdict in '' @ ratStr (tv_latency_ms v) @ ''ms.''\<rparr>,
            \<lparr>tl_time = now, tl_actor = ''Attestation'', tl_event = ''Ed25519 signed envelope. Action ID: '' @ tv_action_id v @ ''.''\<rparr>])"

definition caseEvidence :: "ocsf_event \<Rightarrow> baseline option \<Rightarrow> triage_verdict option \<Rightarrow> evidence_item list" where
  "caseEvidence ev liveBaseline verdict =
     [\<lparr>ei_label = ''Event ID'', ei_value = ev_event_id ev, ei_type = EvOcsf\<rparr>,
      \<lparr>ei_label = ''API operation'', ei_value = orElse (ev_api_operation ev) em_dash, ei_type = EvOcsf\<rparr>,
      \<lparr>ei_label = ''Service'', ei_value = orElse (ev_api_service ev) em_dash, ei_type = EvOcsf\<rparr>,
      \<lparr>ei_label = ''Region'', ei_value = orElse (ev_cloud_region ev) em_dash, ei_type = EvOcsf\<rparr>]
     @ (case liveBaseline of Some (Some regions) \<Rightarrow>
          [\<lparr>ei_label = ''Baseline regions (30d)'', ei_value = joinWith '', '' regions, ei_type = EvAsset\<rparr>] | _ \<Rightarrow> [])
     @ (case verdict of None \<Rightarrow> []
        | Some v \<Rightarrow>
           [\<lparr>ei_label = ''Triage action ID'', ei_value = tv_action_id v, ei_type = EvAsset\<rparr>,
            \<lparr>ei_label = ''Novelty score'', ei_value = toFixed 3 (tv_novelty_score v), ei_type = EvAsset\<rparr>])"

definition caseRecord :: "string \<Rightarrow> ocsf_event \<Rightarrow> baseline option \<Rightarrow> triage_verdict option \<Rightarrow> case_record" where
  "caseRecord now ev liveBaseline verdict =
     \<lparr>rc_id = ev_event_id ev,
      rc_title = (if orElse (ev_api_operation ev) [] \<noteq> []
        then orElse (ev_api_operation ev) [] @ (if orElse (ev_api_service ev) [] \<noteq> [] then '' via '' @ orElse (ev_api_service ev) [] else [])
        else ''Cloud Activity Event''),
      rc_severity = orElse (ev_severity ev) ''medium'',
      rc_state = AwaitingReview,
      rc_entity = orElse (ev_actor_user_name ev) ''unknown'',
      rc_source = ''AWS CloudTrail (live)'',
      rc_verdict = (case verdict of None \<Rightarrow> ''investigating'' | Some v \<Rightarrow> toLowerCase (tv_verdict v)),
      rc_confidence = (case verdict of None \<Rightarrow> 0 | Some v \<Rightarrow> tv_calibrated_confidence v),
      rc_executionPath = (case verdict of None \<Rightarrow> ''classifier'' | Some v \<Rightarrow> tv_execution_path v),
      rc_timeline = caseTimeline now ev liveBaseline verdict,
      rc_evidence = caseEvidence ev liveBaseline verdict,
      rc_featureImpacts = classifierEvidenceToFeatureImpacts (Option.bind verdict tv_classifier_evidence)\<rparr>"

section \<open>Facts\<close>

lemma persistRuns_concat: "concat (persistRuns runs marked) = dedupBy stepKey marked (concat runs)"
proof (induction runs arbitrary: marked)
  case (Cons steps runs)
  then show ?case by (simp add: persistEffect_def Let_def dedupBy_append)
qed simp

lemma byMagnitude_split:
  assumes "shown = take n (byMagnitude es)" and "rest = drop n (byMagnitude es)"
  shows "mset (shown @ rest) = mset es" and "sorted_wrt (\<lambda>a b. \<bar>snd b\<bar> \<le> \<bar>snd a\<bar>) (shown @ rest)"
proof -
  have all: "shown @ rest = byMagnitude es" using assms by simp
  have "sorted (map (\<lambda>(_, v). - \<bar>v\<bar>) (byMagnitude es))" by (simp add: byMagnitude_def)
  then have "sorted_wrt (\<lambda>a b. \<bar>snd b\<bar> \<le> \<bar>snd a\<bar>) (byMagnitude es)"
    by (simp add: sorted_map case_prod_unfold)
  then show "sorted_wrt (\<lambda>a b. \<bar>snd b\<bar> \<le> \<bar>snd a\<bar>) (shown @ rest)" by (simp add: all)
  show "mset (shown @ rest) = mset es" by (simp only: all byMagnitude_def mset_sort)
qed

section \<open>Properties\<close>

text \<open>The explanation of a verdict shows the features that mattered most: from a verdict with Shapley values,
  exactly the eight largest by magnitude (or all, if fewer), in decreasing order, each with its own value.\<close>

theorem feature_impacts_top:
  assumes "cv_shap_values ev \<noteq> []"
  shows "\<exists>shown rest. mset (shown @ rest) = mset (cv_shap_values ev) \<and> length shown = min 8 (length (cv_shap_values ev)) \<and>
    map fi_impact (classifierEvidenceToFeatureImpacts (Some ev)) = map snd shown \<and>
    map fi_name (classifierEvidenceToFeatureImpacts (Some ev)) = map (replaceChar CHR ''_'' '' '' \<circ> fst) shown \<and>
    sorted_wrt (\<lambda>a b. \<bar>snd b\<bar> \<le> \<bar>snd a\<bar>) shown \<and> (\<forall>a \<in> set shown. \<forall>b \<in> set rest. \<bar>snd b\<bar> \<le> \<bar>snd a\<bar>)"
proof -
  let ?es = "objectEntries (cv_shap_values ev)"
  let ?shown = "take 8 (byMagnitude ?es)" and ?rest = "drop 8 (byMagnitude ?es)"
  have ne: "?es \<noteq> []" using assms by (metis length_0_conv length_objectEntries)
  have parts: "mset (?shown @ ?rest) = mset (cv_shap_values ev)"
    "sorted_wrt (\<lambda>a b. \<bar>snd b\<bar> \<le> \<bar>snd a\<bar>) (?shown @ ?rest)"
    using byMagnitude_split [OF refl refl, of 8 ?es] by (simp_all only: mset_objectEntries)
  have "length (byMagnitude ?es) = length (cv_shap_values ev)" by (simp add: byMagnitude_def)
  then have "length ?shown = min 8 (length (cv_shap_values ev))" by simp
  moreover have "map fi_impact (classifierEvidenceToFeatureImpacts (Some ev)) = map snd ?shown"
    "map fi_name (classifierEvidenceToFeatureImpacts (Some ev)) = map (replaceChar CHR ''_'' '' '' \<circ> fst) ?shown"
    using ne by (simp_all add: classifierEvidenceToFeatureImpacts_def Let_def case_prod_unfold o_def)
  ultimately show ?thesis
    using parts by (intro exI [of _ ?shown] exI [of _ ?rest]) (simp only: sorted_wrt_append, blast)
qed

theorem feature_impacts_top_witness:
  "\<exists>shown rest. mset (shown @ rest) = mset [(''hour_of_day'', 1 / 2), (''mfa'', - 3)] \<and> length shown = (2 :: nat) \<and>
    sorted_wrt (\<lambda>a b. \<bar>snd b\<bar> \<le> \<bar>snd a\<bar>) (shown :: (string \<times> rat) list)"
  using feature_impacts_top [of "\<lparr>cv_input_features = [], cv_shap_values = [(''hour_of_day'', 1 / 2), (''mfa'', - 3)],
      cv_raw_prediction = 0, cv_calibrated_confidence = 0, cv_novelty_score = 0\<rparr>"]
  by auto

text \<open>Over any sequence of renders, the client sends every live trace step exactly once and in the order the
  steps appear, and never sends one again, also when the request that carried it failed.\<close>

theorem trace_steps_sent_once:
  "concat (persistRuns runs []) = dedupBy stepKey [] (concat runs) \<and>
   distinct (map stepKey (concat (persistRuns runs []))) \<and>
   stepKey ` set (concat (persistRuns runs [])) = stepKey ` set (concat runs) \<and>
   [] \<notin> set (persistRuns runs [])"
proof -
  have "[] \<notin> set (persistRuns runs marked)" for marked
    by (induction runs marked rule: persistRuns.induct) (auto simp: persistEffect_def Let_def split: prod.splits option.splits if_splits)
  then show ?thesis by (simp only: persistRuns_concat distinct_dedupBy keys_dedupBy simp_thms) simp
qed

lemma truthy_notNull: "truthy v \<Longrightarrow> notNull v"
  by (cases v) (auto simp: notNull_def)

lemma getCase_ready: "rp_schema r = SchemaReady \<Longrightarrow> getCase i None None r = (Inr (dictGet (rp_cases r) i), r)"
  by (simp add: getCase_def dbStatement_def ensureCaseSchema_def)

lemma upsert_ready:
  assumes "rp_schema r = SchemaReady" and "notNull ev"
  shows "\<exists>r' row. upsertCaseSnapshot i tn ev b d t fs None r = (Inr (), r') \<and> rp_schema r' = SchemaReady \<and>
    dictGet (rp_cases r') i = Some row \<and> cr_event row = ev \<and> cr_baseline row = nullish b Null \<and> cr_detection row = nullish d Null"
  using assms
  by (auto simp: upsertCaseSnapshot_def dbStatement_def ensureCaseSchema_def dictGet_put insertedCase_def split: option.splits)

text \<open>A live event that the database does not hold yet.\<close>

lemma casePage_fresh:
  assumes "rp_schema r = SchemaReady" and "okStatus st" and "truthy ev" and "\<not> eventUnchanged (dictGet (rp_cases r) i) ev"
    and "casePage i (Answer st (Some ev) tx) None None fBase now None r = (Some view, r')"
  obtains base row where "view = Investigate ev base" and "rp_schema r' = SchemaReady"
    and "dictGet (rp_cases r') i = Some row" and "cr_event row = ev" and "cr_baseline row = nullish base Null"
proof -
  let ?b = "if truthy (jsField ''actor_user_name'' ev) then fetchBaseline fBase else Some Null"
  from assms obtain base where b: "?b = Some base" and v: "view = Investigate ev base"
    and r': "r' = snd (upsertCaseSnapshot i None ev base Undef now None None r)"
    by (auto simp: casePage_def getCase_ready Let_def fetchEvent_def split: option.splits)
  obtain s row where "upsertCaseSnapshot i None ev base Undef now None None r = (Inr (), s)" "rp_schema s = SchemaReady"
    "dictGet (rp_cases s) i = Some row" "cr_event row = ev" "cr_baseline row = nullish base Null"
    using upsert_ready [OF assms(1) truthy_notNull [OF assms(3)]] by blast
  with that v r' show thesis by simp
qed


definition sampleLive :: jsval where
  "sampleLive = Obj [(''event_id'', Str ''e1''), (''actor_user_name'', Str ''alice'')]"

definition sampleBase :: jsval where
  "sampleBase = Obj [(''regions_seen_30d'', Arr [Str ''eu-west-1''])]"

definition readyRepo :: repo where
  "readyRepo = \<lparr>rp_schema = SchemaReady, rp_cases = [], rp_traces = []\<rparr>"


end
