(* ===== verification/Alert_Queue.thy ===== *)
theory Alert_Queue
  imports Enrich_Alert Ws_Hooks
begin

text \<open>
  The queue of alerts: the server components \<open>app/workbench/queue/page.tsx\<close> and \<open>app/workbench/cases/page.tsx\<close>, which
  read the fired detections and overlay what the database knows, and \<open>components/workbench/alert-queue.tsx\<close>, which
  merges them with the live stream, splits them into tabs and defines the table's columns: what a cell
  shows, how a column filters and sorts. The table engine itself is a library. \<open>parseDate\<close> is \<open>new Date(s)\<close> with
  \<open>None\<close> for an invalid date, and \<open>localeTime\<close> is \<open>toLocaleString\<close> with the options of \<open>formatAbsoluteTime\<close>.
\<close>

section \<open>app/workbench/queue/page.tsx and app/workbench/cases/page.tsx\<close>

definition formatPipelineName :: "string \<Rightarrow> string" where
  "formatPipelineName raw = capitalizeWords (replaceChar CHR ''_'' '' '' raw)"

datatype live_status = Live | Connected | Offline

definition fetchLiveAlerts :: "fetched \<Rightarrow> fault \<Rightarrow> fault \<Rightarrow> repo \<Rightarrow> (alert list \<times> live_status) \<times> repo" where
  "fetchLiveAlerts f fs fq r =
     (case f of
        Rejected _ \<Rightarrow> (([], Offline), r)
      | Answer st body _ \<Rightarrow>
          if \<not> okStatus st then (([], Offline), r)
          else (case Option.bind body parseFiredDetections of
              None \<Rightarrow> (([], Offline), r)
            | Some parsed \<Rightarrow>
                if parsed = [] then (([], Connected), r)
                else (case enrichAlertsWithPersisted parsed fs fq r of (alerts, r') \<Rightarrow> ((alerts, Live), r'))))"

definition fetchCases :: "fetched \<Rightarrow> fault \<Rightarrow> fault \<Rightarrow> repo \<Rightarrow> (alert list \<times> live_status) \<times> repo" where
  "fetchCases f fs fq r =
     (case f of
        Rejected _ \<Rightarrow> (([], Offline), r)
      | Answer st body _ \<Rightarrow>
          if \<not> okStatus st then (([], Offline), r)
          else (case Option.bind body parseFiredDetections of
              None \<Rightarrow> (([], Offline), r)
            | Some parsed \<Rightarrow>
                if parsed = [] then (([], Connected), r)
                else (case enrichAlertsWithPersisted parsed fs fq r of (enriched, r') \<Rightarrow> ((enriched, Live), r'))))"

text \<open>The names of the running pipelines; \<open>body.data ?? []\<close> must be an array of objects.\<close>

definition fetchArroyoPipelines :: "fetched \<Rightarrow> (jsval \<times> string) list" where
  "fetchArroyoPipelines f =
     (case f of
        Answer st (Some body) _ \<Rightarrow>
          if \<not> okStatus st then []
          else (case jsFieldE ''data'' body of
              None \<Rightarrow> []
            | Some d \<Rightarrow>
                (case nullish d (Arr []) of
                   Arr ps \<Rightarrow> if list_ex (\<lambda>p. p = Null \<or> p = Undef) ps then []
                             else map (\<lambda>p. (jsField ''name'' p, ''Running'')) ps
                 | _ \<Rightarrow> []))
      | _ \<Rightarrow> [])"

definition countState :: "alert_state \<Rightarrow> alert list \<Rightarrow> nat" where
  "countState s alerts = length (filter (\<lambda>a. al_state a = s) alerts)"

definition queueStats :: "alert list \<Rightarrow> (string \<times> string) list" where
  "queueStats alerts =
     [(''Open alerts'', natStr (length (filter (\<lambda>a. al_state a \<noteq> AutoClosed) alerts))),
      (''Awaiting review'', natStr (countState AwaitingReview alerts)),
      (''In-flight agents'', natStr (countState InFlight alerts)),
      (''Auto-closed'', natStr (countState AutoClosed alerts))]"

fun statusText :: "live_status \<Rightarrow> string" where
  "statusText Live = ''Live '' @ em_dash @ '' HELIQL detections connected''"
| "statusText Connected = ''Connected '' @ em_dash @ '' no detections yet''"
| "statusText Offline = ''Offline '' @ em_dash @ '' control-plane unreachable''"

definition stateCounts :: "alert list \<Rightarrow> (alert_state \<times> nat) list" where
  "stateCounts cases = map (\<lambda>s. (s, countState s cases)) [InFlight, AwaitingReview, AutoClosed]"

definition caseSections :: "alert list \<Rightarrow> (string \<times> alert list) list" where
  "caseSections cases = [(''Open'', filter (\<lambda>c. al_state c \<noteq> AutoClosed) cases),
     (''Auto-Closed'', filter (\<lambda>c. al_state c = AutoClosed) cases)]"

definition emptySectionText :: "live_status \<Rightarrow> string \<Rightarrow> string" where
  "emptySectionText status label =
     (if status = Offline then ''Control-plane is unreachable. Start the backend and reload.''
      else ''No cases in this state. '' @
        (if label = ''Open'' then ''Run a load test or send events to generate detections.''
         else ''Cases auto-close once the calibrated confidence is below the auto-close threshold.''))"

section \<open>components/workbench/alert-queue.tsx\<close>

subsection \<open>Times\<close>

definition dateOf :: "(string \<Rightarrow> int option) \<Rightarrow> string \<Rightarrow> int option" where
  "dateOf parseDate stamp = parseDate (replaceFirst CHR '' '' ''T'' stamp)"

text \<open>An invalid date makes \<open>s\<close> a NaN, on which no comparison holds.\<close>

definition relativeTime :: "(string \<Rightarrow> int option) \<Rightarrow> string \<Rightarrow> int \<Rightarrow> string" where
  "relativeTime parseDate stamp now =
     (case dateOf parseDate stamp of
        None \<Rightarrow> ''NaNd ago''
      | Some t \<Rightarrow>
          let s = max 0 ((now - t) div 1000) in
          if s < 60 then intStr s @ ''s ago''
          else let m = s div 60 in
            if m < 60 then intStr m @ ''m ago''
            else let h = m div 60 in
              if h < 24 then intStr h @ ''h ago'' else intStr (h div 24) @ ''d ago'')"

definition formatAbsoluteTime :: "(string \<Rightarrow> int option) \<Rightarrow> (int \<Rightarrow> string) \<Rightarrow> string \<Rightarrow> string" where
  "formatAbsoluteTime parseDate localeTime stamp =
     (case dateOf parseDate stamp of None \<Rightarrow> stamp | Some t \<Rightarrow> localeTime t)"

definition relativeTimeCell :: "(string \<Rightarrow> int option) \<Rightarrow> (int \<Rightarrow> string) \<Rightarrow> int option \<Rightarrow> string \<Rightarrow> string list" where
  "relativeTimeCell parseDate localeTime now stamp =
     [case now of None \<Rightarrow> [] | Some t \<Rightarrow> relativeTime parseDate stamp t, formatAbsoluteTime parseDate localeTime stamp]"

subsection \<open>Labels\<close>

fun severityOrder :: "severity \<Rightarrow> int" where
  "severityOrder Critical = 0"
| "severityOrder High = 1"
| "severityOrder Medium = 2"
| "severityOrder Low = 3"

definition formatVerdict :: "alert_verdict \<Rightarrow> string" where
  "formatVerdict v = replaceChar CHR ''_'' '' '' (verdictStr v)"

fun formatPath_alert :: "execution_path \<Rightarrow> string" where
  "formatPath_alert Llm = ''LLM''"
| "formatPath_alert Hybrid = ''Hybrid''"
| "formatPath_alert Classifier = ''Classifier''"

fun triageLabel :: "agent_run \<Rightarrow> string" where
  "triageLabel AgComplete = ''Complete''"
| "triageLabel AgRunning = ''Running''"
| "triageLabel AgDegraded = ''Degraded''"
| "triageLabel AgIdle = ''Not triaged''"

definition compactTriageCell :: "alert \<Rightarrow> string list" where
  "compactTriageCell a = [triageLabel (ag_status (al_agentStatus a)), ag_step (al_agentStatus a), formatVerdict (al_verdict a)]"

definition percent :: "rat \<Rightarrow> int" where
  "percent c = mathRound (c * 100)"

subsection \<open>Filters\<close>

definition includesLower :: "string \<Rightarrow> string \<Rightarrow> bool" where
  "includesLower q v = str_includes (toLowerCase v) q"

definition alertGlobalFilter :: "string \<Rightarrow> alert \<Rightarrow> bool" where
  "alertGlobalFilter filterValue a =
     (let q = toLowerCase filterValue in
      q = [] \<or> list_ex (includesLower q)
        [al_id a, al_caseId a, al_title a, al_summary a, al_source a, al_entity a, al_region a, severityStr (al_severity a),
         al_technique a, verdictStr (al_verdict a), pathStr (al_executionPath a), ag_step (al_agentStatus a),
         agentRunStr (ag_status (al_agentStatus a)), agentNameStr (ag_agent (al_agentStatus a)),
         intStr (percent (al_confidence a))])"

datatype column = ColId | ColSeverity | ColTitle | ColSource | ColEntity | ColTriage | ColConfidence | ColTime | ColActions

fun columnKey :: "column \<Rightarrow> string" where
  "columnKey ColId = ''id''"
| "columnKey ColSeverity = ''severity''"
| "columnKey ColTitle = ''title''"
| "columnKey ColSource = ''source''"
| "columnKey ColEntity = ''entity''"
| "columnKey ColTriage = ''agentStatus''"
| "columnKey ColConfidence = ''confidence''"
| "columnKey ColTime = ''updatedAt''"
| "columnKey ColActions = ''actions''"

definition columns :: "column list" where
  "columns = [ColId, ColSeverity, ColTitle, ColSource, ColEntity, ColTriage, ColConfidence, ColTime, ColActions]"

text \<open>The columns whose header is a button that toggles the sorting, and the header texts.\<close>

fun columnHeader :: "column \<Rightarrow> string" where
  "columnHeader ColId = ''Event ID''"
| "columnHeader ColSeverity = ''Severity''"
| "columnHeader ColTitle = ''Rule / Summary''"
| "columnHeader ColSource = ''Source''"
| "columnHeader ColEntity = ''Entity''"
| "columnHeader ColTriage = ''Triage''"
| "columnHeader ColConfidence = ''Confidence''"
| "columnHeader ColTime = ''Time''"
| "columnHeader ColActions = []"

definition sortButton :: "column \<Rightarrow> bool" where
  "sortButton c \<longleftrightarrow> c \<in> {ColSeverity, ColTitle, ColConfidence, ColTime}"

definition severitySort :: "alert \<Rightarrow> alert \<Rightarrow> int" where
  "severitySort a b = severityOrder (al_severity a) - severityOrder (al_severity b)"

definition orText :: "string \<Rightarrow> string \<Rightarrow> string" where
  "orText s d = (if s = [] then d else s)"

text \<open>The texts a cell shows, top to bottom, with the width of the confidence bar in percent.\<close>

definition titleCell :: "alert \<Rightarrow> string list" where
  "titleCell a = [al_title a, orText (al_summary a) ''No summary available''] @ (if al_technique a = [] then [] else [al_technique a])"

definition sourceCell :: "alert \<Rightarrow> string list" where
  "sourceCell a = [orText (al_source a) ''unknown'', orText (al_region a) ''unknown region'']"

definition entityCell :: "alert \<Rightarrow> string list" where
  "entityCell a = [orText (al_entity a) ''unknown'', orText (al_technique a) (formatPath_alert (al_executionPath a))]"

definition confidenceBar :: "alert \<Rightarrow> int" where
  "confidenceBar a = max 3 (percent (al_confidence a))"

definition confidenceCell :: "alert \<Rightarrow> string list" where
  "confidenceCell a = [intStr (percent (al_confidence a)) @ ''%'', formatPath_alert (al_executionPath a)]"

fun cellTexts :: "(string \<Rightarrow> int option) \<Rightarrow> (int \<Rightarrow> string) \<Rightarrow> int option \<Rightarrow> column \<Rightarrow> alert \<Rightarrow> string list" where
  "cellTexts pd lt now ColId a = [slice 0 12 (al_id a)]"
| "cellTexts pd lt now ColSeverity a = [severityStr (al_severity a)]"
| "cellTexts pd lt now ColTitle a = titleCell a"
| "cellTexts pd lt now ColSource a = sourceCell a"
| "cellTexts pd lt now ColEntity a = entityCell a"
| "cellTexts pd lt now ColTriage a = compactTriageCell a"
| "cellTexts pd lt now ColConfidence a = confidenceCell a"
| "cellTexts pd lt now ColTime a = relativeTimeCell pd lt now (al_updatedAt a)"
| "cellTexts pd lt now ColActions a = []"

definition titleFilter :: "string \<Rightarrow> alert \<Rightarrow> bool" where
  "titleFilter value a = (let q = toLowerCase value in
     includesLower q (al_title a) \<or> includesLower q (al_summary a) \<or> includesLower q (al_technique a))"

definition sourceFilter :: "string \<Rightarrow> alert \<Rightarrow> bool" where
  "sourceFilter value a = (let q = toLowerCase value in includesLower q (al_source a) \<or> includesLower q (al_region a))"

definition triageFilter :: "string \<Rightarrow> alert \<Rightarrow> bool" where
  "triageFilter value a = (let q = toLowerCase value in
     includesLower q (agentRunStr (ag_status (al_agentStatus a))) \<or> includesLower q (ag_step (al_agentStatus a)) \<or>
     includesLower q (verdictStr (al_verdict a)))"

definition timeFilter :: "(string \<Rightarrow> int option) \<Rightarrow> (int \<Rightarrow> string) \<Rightarrow> string \<Rightarrow> alert \<Rightarrow> bool" where
  "timeFilter pd lt value a = (let q = toLowerCase value in
     includesLower q (al_updatedAt a) \<or> includesLower q (formatAbsoluteTime pd lt (al_updatedAt a)))"

fun columnFilter :: "(string \<Rightarrow> int option) \<Rightarrow> (int \<Rightarrow> string) \<Rightarrow> column \<Rightarrow> string \<Rightarrow> alert \<Rightarrow> bool" where
  "columnFilter pd lt ColId value a = includesLower (toLowerCase value) (al_id a)"
| "columnFilter pd lt ColSeverity value a = includesLower (toLowerCase value) (severityStr (al_severity a))"
| "columnFilter pd lt ColTitle value a = titleFilter value a"
| "columnFilter pd lt ColSource value a = sourceFilter value a"
| "columnFilter pd lt ColEntity value a = includesLower (toLowerCase value) (al_entity a)"
| "columnFilter pd lt ColTriage value a = triageFilter value a"
| "columnFilter pd lt ColConfidence value a = str_includes (intStr (percent (al_confidence a))) value"
| "columnFilter pd lt ColTime value a = timeFilter pd lt value a"
| "columnFilter pd lt ColActions value a = True"

subsection \<open>The queue\<close>

definition alertQueueLive :: "alert list \<Rightarrow> alert list \<Rightarrow> alert list" where
  "alertQueueLive newAlerts initialAlerts = dedupBy al_id [] (newAlerts @ initialAlerts)"

datatype queue_tab = TabInFlight | TabAwaiting

fun tabState :: "queue_tab \<Rightarrow> alert_state" where
  "tabState TabInFlight = InFlight"
| "tabState TabAwaiting = AwaitingReview"

fun tabLabels :: "queue_tab \<Rightarrow> string" where
  "tabLabels TabInFlight = ''In Flight''"
| "tabLabels TabAwaiting = ''Awaiting Review''"

definition autoClosedAlerts :: "alert list \<Rightarrow> alert list" where
  "autoClosedAlerts alerts = filter (\<lambda>a. al_state a = AutoClosed) alerts"

definition tabAlerts :: "queue_tab \<Rightarrow> alert list \<Rightarrow> alert list" where
  "tabAlerts tab alerts = filter (\<lambda>a. al_state a = tabState tab) (filter (\<lambda>a. al_state a \<noteq> AutoClosed) alerts)"

definition tabCount :: "queue_tab \<Rightarrow> alert list \<Rightarrow> nat" where
  "tabCount tab alerts = length (filter (\<lambda>a. al_state a = tabState tab) (filter (\<lambda>a. al_state a \<noteq> AutoClosed) alerts))"

definition caseHref :: "alert \<Rightarrow> string" where
  "caseHref a = ''/workbench/cases/'' @ al_caseId a"

definition opensCase :: "string \<Rightarrow> bool" where
  "opensCase key \<longleftrightarrow> key = ''Enter'' \<or> key = '' ''"

section \<open>Facts\<close>

lemma str_includes_trans: "str_includes a b \<Longrightarrow> str_includes b c \<Longrightarrow> str_includes a c"
proof -
  assume "str_includes a b" "str_includes b c"
  then obtain u v u' v' where "a = u @ (u' @ c @ v') @ v" by (auto simp: str_includes_iff)
  then have "a = (u @ u') @ c @ (v' @ v)" by simp
  then show ?thesis by (auto simp only: str_includes_iff)
qed

lemma str_includes_lower: "str_includes a b \<Longrightarrow> str_includes (toLowerCase a) (toLowerCase b)"
proof -
  assume "str_includes a b"
  then obtain u v where "a = u @ b @ v" by (auto simp: str_includes_iff)
  then have "toLowerCase a = toLowerCase u @ toLowerCase b @ toLowerCase v" by (simp add: toLowerCase_def)
  then show ?thesis by (auto simp only: str_includes_iff)
qed

lemma includesLower_narrow: "includesLower (toLowerCase q') v \<Longrightarrow> str_includes q' q \<Longrightarrow> includesLower (toLowerCase q) v"
  unfolding includesLower_def using str_includes_trans str_includes_lower by blast

lemma str_includes_Nil [simp]: "str_includes s []"
  by (cases s) simp_all

lemma toLower_ne: "str_includes q' q \<Longrightarrow> toLowerCase q' = [] \<Longrightarrow> toLowerCase q = []"
  by (simp add: str_includes_iff)

section \<open>Properties\<close>

text \<open>Typing more into a search box only ever narrows the table: a row that the longer text finds is found by
  every part of it, in the global search and in every column, and an empty search shows every row.\<close>

theorem filters_narrow:
  assumes "str_includes q' q"
  shows "(alertGlobalFilter q' a \<longrightarrow> alertGlobalFilter q a) \<and> (columnFilter pd lt c q' a \<longrightarrow> columnFilter pd lt c q a) \<and>
    alertGlobalFilter [] a \<and> columnFilter pd lt c [] a"
proof (intro conjI impI)
  show "alertGlobalFilter q a" if "alertGlobalFilter q' a"
    using that includesLower_narrow [OF _ assms] toLower_ne [OF assms]
    unfolding alertGlobalFilter_def Let_def list_ex_iff by blast
  show "columnFilter pd lt c q a" if "columnFilter pd lt c q' a"
    using that includesLower_narrow [OF _ assms] str_includes_trans [OF _ assms]
    by (cases c) (auto simp: Let_def titleFilter_def sourceFilter_def triageFilter_def timeFilter_def)
  show "alertGlobalFilter [] a" by (simp add: alertGlobalFilter_def)
  show "columnFilter pd lt c [] a"
    by (cases c) (simp_all add: includesLower_def toLowerCase_def titleFilter_def sourceFilter_def triageFilter_def timeFilter_def)
qed

theorem filters_narrow_witness:
  "alertGlobalFilter ''LOGIN'' (sampleAlert\<lparr>al_title := ''Console Login''\<rparr>) \<and>
   alertGlobalFilter ''og'' (sampleAlert\<lparr>al_title := ''Console Login''\<rparr>)"
proof -
  have "str_includes ''LOGIN'' ''OG''" by code_simp
  moreover have "alertGlobalFilter ''LOGIN'' (sampleAlert\<lparr>al_title := ''Console Login''\<rparr>)"
    by code_simp
  moreover have "toLowerCase ''OG'' = ''og'' \<and> toLowerCase ''og'' = ''og''" by code_simp
  then have "alertGlobalFilter ''OG'' = alertGlobalFilter ''og''"
    by (simp add: alertGlobalFilter_def fun_eq_iff)
  ultimately show ?thesis using filters_narrow [of "''LOGIN''" "''OG''"] by metis
qed


text \<open>The live queue shows every event once, newest live alert first, and every event that is live or was loaded;
  an event that arrived on the stream is shown as the stream had it, not triaged, even when the loaded row
  had the verdict of a finished triage, and a second rule firing on the same event adds no row.\<close>

theorem live_queue_merge:
  "distinct (map al_id (alertQueueLive (ah_newAlerts (alertsRun u es)) initial)) \<and>
   al_id ` set (alertQueueLive (ah_newAlerts (alertsRun u es)) initial) =
     al_id ` set (ah_newAlerts (alertsRun u es)) \<union> al_id ` set initial \<and>
   (\<forall>a \<in> set (alertQueueLive (ah_newAlerts (alertsRun u es)) initial).
      al_id a \<in> al_id ` set (ah_newAlerts (alertsRun u es)) \<longrightarrow>
        a \<in> set (ah_newAlerts (alertsRun u es)) \<and> ag_status (al_agentStatus a) = AgIdle \<and> al_verdict a = Investigating)"
proof -
  define live where "live = ah_newAlerts (alertsRun u es)"
  have idle: "ag_status (al_agentStatus a) = AgIdle \<and> al_verdict a = Investigating" if "a \<in> set live" for a
    using that newAlerts_received [of u es "mountAlerts u"]
    by (auto simp: live_def alertsRun_def mountAlerts_def firedDetectionToAlert_def IDLE_AGENT_detection_def)
  have first: "a \<in> set live" if "a \<in> set (alertQueueLive live initial)" "al_id a \<in> al_id ` set live" for a
  proof -
    from that(1) obtain us vs where s: "live @ initial = us @ a # vs" and new: "al_id a \<notin> al_id ` set us"
      by (auto simp: alertQueueLive_def in_dedupBy)
    show ?thesis
    proof (cases "length us < length live")
      case True
      then have "live ! length us = a" using s by (metis nth_append nth_append_length)
      then show ?thesis using True nth_mem by blast
    next
      case False
      then have "live = take (length live) us" using s by (metis append_eq_append_conv_if append_eq_conv_conj linorder_not_less)
      then have "set live \<subseteq> set us" by (metis set_take_subset)
      then show ?thesis using new that(2) by blast
    qed
  qed
  have "distinct (map al_id (alertQueueLive live initial))"
    "al_id ` set (alertQueueLive live initial) = al_id ` set live \<union> al_id ` set initial"
    by (simp_all add: alertQueueLive_def distinct_dedupBy keys_dedupBy image_Un)
  with idle first show ?thesis unfolding live_def [symmetric] by simp
qed

definition sampleFired :: fired_detection where
  "sampleFired = \<lparr>fd_detection_id = ''r'', fd_event_id = ''e'', fd_actor_user_name = ''alice'', fd_cloud_region = ''eu'',
     fd_severity = ''high'', fd_fired_at = ''t''\<rparr>"

theorem live_queue_merge_witness:
  "\<exists>a \<in> set (alertQueueLive (ah_newAlerts (alertsRun ''w'' [Opened 0, MessageOn 0 (Some sampleFired)]))
        [sampleAlert\<lparr>al_id := ''e'', al_verdict := Malicious\<rparr>]). al_id a = ''e'' \<and> al_verdict a = Investigating"
proof -
  let ?live = "ah_newAlerts (alertsRun ''w'' [Opened 0, MessageOn 0 (Some sampleFired)])"
  let ?q = "alertQueueLive ?live [sampleAlert\<lparr>al_id := ''e'', al_verdict := Malicious\<rparr>]"
  have "phaseOf 0 (onOpen alertsBase 0 (ah_conn (mountAlerts ''w''))) = SOpen" "phaseOf 0 (ah_conn (mountAlerts ''w'')) = SConnecting"
    by (simp_all add: mountAlerts_def)
  then have "?live = [firedDetectionToAlert sampleFired]"
    by (simp add: alertsRun_def onAlertMessage_def) (simp add: mountAlerts_def)
  then have live: "''e'' \<in> al_id ` set ?live" by (simp add: firedDetectionToAlert_def sampleFired_def)
  define q where "q = ?q"
  note merge = live_queue_merge [of "''w''" "[Opened 0, MessageOn 0 (Some sampleFired)]"
      "[sampleAlert\<lparr>al_id := ''e'', al_verdict := Malicious\<rparr>]", folded q_def]
  have "''e'' \<in> al_id ` set q" unfolding conjunct1 [OF conjunct2 [OF merge]] using live by (rule UnI1)
  then obtain a where a: "al_id a = ''e''" "a \<in> set q" by (metis imageE)
  have "al_id a \<in> al_id ` set ?live" using live by (simp only: a(1))
  from mp [OF bspec [OF conjunct2 [OF conjunct2 [OF merge]] a(2)] this] have "al_verdict a = Investigating" by (simp only:)
  then show ?thesis using a unfolding q_def by blast
qed

text \<open>The relative time names the largest unit that fits: an age in seconds below a minute, minutes below an
  hour, hours below a day, and days from there.\<close>

lemma relativeTime_unit:
  assumes "dateOf pd s = Some t" and "t \<le> now"
  shows "\<exists>n unit suffix. relativeTime pd s now = intStr n @ suffix \<and> 0 \<le> n \<and> n * unit \<le> now - t \<and> now - t < (n + 1) * unit \<and>
    (unit, suffix) \<in> {(1000, ''s ago''), (60000, ''m ago''), (3600000, ''h ago''), (86400000, ''d ago'')}"
proof -
  define s' where "s' = (now - t) div 1000"
  have s': "0 \<le> s'" "s' * 1000 \<le> now - t" "now - t < (s' + 1) * 1000"
    using assms(2) by (auto simp: s'_def)
  have rel: "relativeTime pd s now = (if s' < 60 then intStr s' @ ''s ago'' else if s' div 60 < 60 then intStr (s' div 60) @ ''m ago''
      else if s' div 60 div 60 < 24 then intStr (s' div 60 div 60) @ ''h ago'' else intStr (s' div 60 div 60 div 24) @ ''d ago'')"
    using assms(1) s'(1) by (simp add: relativeTime_def Let_def max_def s'_def)
  consider "s' < 60" | "60 \<le> s'" "s' div 60 < 60" | "60 \<le> s'" "60 \<le> s' div 60" "s' div 60 div 60 < 24"
    | "60 \<le> s'" "60 \<le> s' div 60" "24 \<le> s' div 60 div 60" by linarith
  then show ?thesis
  proof cases
    case 1
    then show ?thesis using rel s'
      by (intro exI [of _ s'] exI [of _ 1000] exI [of _ "''s ago''"]) auto
  next
    case 2
    then show ?thesis using rel s'
      by (intro exI [of _ "s' div 60"] exI [of _ 60000] exI [of _ "''m ago''"]) auto
  next
    case 3
    then show ?thesis using rel s'
      by (intro exI [of _ "s' div 60 div 60"] exI [of _ 3600000] exI [of _ "''h ago''"]) auto
  next
    case 4
    then show ?thesis using rel s'
      by (intro exI [of _ "s' div 60 div 60 div 24"] exI [of _ 86400000] exI [of _ "''d ago''"]) auto
  qed
qed

lemma relativeTime_future: "dateOf pd s = Some t \<Longrightarrow> now < t \<Longrightarrow> relativeTime pd s now = intStr 0 @ ''s ago''"
  by (simp add: relativeTime_def Let_def max_def)

end
