(* ===== verification/Trace_Views.thy ===== *)
theory Trace_Views
  imports Case_Page
begin

text \<open>
  The views of a case's trace: the merge of live and stored steps and the analyst's disposition in
  \<open>components/workbench/case-workbench.tsx\<close>, the reasoning timeline and its citations in
  \<open>reasoning-trace-viewer.tsx\<close>, the progress steppers of \<open>investigator-trace-stepper.tsx\<close>, the table of
  \<open>attestation-trace-panel.tsx\<close> and the bars of \<open>classifier-evidence-panel.tsx\<close>. What is modelled is what each view
  computes and shows; markup and styles are not.
\<close>

section \<open>Stored steps\<close>

record http_step =
  hs_kind :: string
  hs_agent_action_id :: string
  hs_agent_id :: string
  hs_execution_path :: string
  hs_verdict :: string
  hs_tool_call_count :: nat
  hs_belief_count :: nat

section \<open>components/workbench/case-workbench.tsx\<close>

definition httpTraceToKafkaStep :: "string \<Rightarrow> http_step \<Rightarrow> kafka_step" where
  "httpTraceToKafkaStep caseId s = \<lparr>ks_case_id = caseId, ks_tenant_id = ''default'',
     ks_agent_action_id = hs_agent_action_id s, ks_agent_id = hs_agent_id s, ks_execution_path = hs_execution_path s,
     ks_step_kind = hs_kind s, ks_summary = hs_verdict s, ks_ts = 0\<rparr>"

definition mergeKey :: "kafka_step \<Rightarrow> string" where
  "mergeKey s = ks_agent_action_id s @ '':'' @ ks_step_kind s @ '':'' @ intStr (ks_ts s) @ '':'' @ ks_summary s"

definition mergeTraceSteps :: "string \<Rightarrow> kafka_step list \<Rightarrow> http_step list \<Rightarrow> kafka_step list" where
  "mergeTraceSteps caseId liveSteps httpSteps =
     dedupBy mergeKey [] (liveSteps @ map (httpTraceToKafkaStep caseId) httpSteps)"

text \<open>The component's state: the dialog, the local copies of the disposition and the stored steps, with the store
  and the toasts shown. \<open>wb_oid\<close> is \<open>orchestratorCaseId ?? ""\<close>.\<close>

record workbench =
  wb_oid :: string
  wb_overrideOpen :: bool
  wb_approved :: bool
  wb_localOverrideLabel :: "string option"
  wb_httpSteps :: "http_step list"
  wb_store :: case_store
  wb_toasts :: "string list"
  wb_requests :: "(string \<times> string \<times> string) list"

text \<open>The reason must not be blank for the dialog to submit.\<close>

definition canSubmit :: "string \<Rightarrow> bool \<Rightarrow> bool" where
  "canSubmit reason busy \<longleftrightarrow> trim reason \<noteq> [] \<and> \<not> busy"

definition traceLoaded :: "http_step list option \<Rightarrow> workbench \<Rightarrow> workbench" where
  "traceLoaded answer w = w\<lparr>wb_httpSteps := (case answer of None \<Rightarrow> [] | Some ss \<Rightarrow> ss)\<rparr>"

definition overrideApplied :: "workbench \<Rightarrow> bool" where
  "overrideApplied w \<longleftrightarrow> wb_localOverrideLabel w \<noteq> None \<or> selectDisposition (wb_oid w) (wb_store w) = DOverride"

definition approvedUi :: "workbench \<Rightarrow> bool" where
  "approvedUi w \<longleftrightarrow> wb_approved w \<or> selectDisposition (wb_oid w) (wb_store w) = DApproved"

definition handleApprove :: "int \<Rightarrow> workbench \<Rightarrow> workbench" where
  "handleApprove now w = w\<lparr>wb_approved := True,
     wb_store := (if wb_oid w = [] then wb_store w else setApproved (wb_oid w) now (wb_store w)),
     wb_toasts := wb_toasts w @ [''Verdict approved'']\<rparr>"

definition handleOverrideSubmit :: "string \<Rightarrow> string \<Rightarrow> int \<Rightarrow> workbench \<Rightarrow> workbench" where
  "handleOverrideSubmit label reason now w =
     (if wb_oid w = [] then w
      else w\<lparr>wb_overrideOpen := False, wb_localOverrideLabel := Some label,
             wb_store := setOverride (wb_oid w) label now (wb_store w),
             wb_toasts := wb_toasts w @ [''Override submitted''],
             wb_requests := wb_requests w @ [(''/api/cases/'' @ encodeURIComponent (wb_oid w) @ ''/override'', label, reason)]\<rparr>)"

text \<open>The answer to the request; a success reloads the trace.\<close>

definition overrideAnswered :: "fetched \<Rightarrow> workbench \<Rightarrow> workbench" where
  "overrideAnswered f w =
     (case f of
        Rejected _ \<Rightarrow> w\<lparr>wb_toasts := wb_toasts w @ [''Override failed'']\<rparr>
      | Answer st body _ \<Rightarrow>
          if okStatus st then w
          else w\<lparr>wb_toasts := wb_toasts w @
            [case body of Some j \<Rightarrow> (case jsField ''error'' j of Str e \<Rightarrow> e | _ \<Rightarrow> ''Override failed'') | None \<Rightarrow> ''Override failed'']\<rparr>)"

definition overrideLabel :: "workbench \<Rightarrow> string" where
  "overrideLabel w = (case wb_localOverrideLabel w of
     Some l \<Rightarrow> l
   | None \<Rightarrow> (case dictGet (wb_store w) (wb_oid w) of None \<Rightarrow> [] | Some e \<Rightarrow> orElse (ce_overrideLabel e) []))"

definition statusLabel :: "case_record \<Rightarrow> workbench \<Rightarrow> string" where
  "statusLabel rec w =
     (if overrideApplied w then ''Override: '' @ replaceChar CHR ''_'' '' '' (overrideLabel w)
      else if approvedUi w then ''Approved''
      else replaceFirst CHR ''-'' '' '' (alertStateStr (rc_state rec)))"

definition showsActions :: "workbench \<Rightarrow> bool" where
  "showsActions w \<longleftrightarrow> wb_oid w \<noteq> [] \<and> \<not> overrideApplied w \<and> \<not> approvedUi w"

definition recordedText :: "workbench \<Rightarrow> string option" where
  "recordedText w = (if overrideApplied w then Some ''Override recorded''
     else if approvedUi w then Some ''Verdict approved'' else None)"

section \<open>components/workbench/reasoning-trace-viewer.tsx\<close>

subsection \<open>Citations\<close>

definition hexDash :: "char \<Rightarrow> bool" where
  "hexDash c \<longleftrightarrow> is_digit c \<or> char_between 97 102 c \<or> char_between 65 70 c \<or> c = CHR ''-''"

definition evidenceTag :: string where
  "evidenceTag = ''[evidence:''"

text \<open>\<open>EVIDENCE_REF\<close> at the head of the text: the tag in either case, 36 hexadecimal digits or dashes, and a closing
  bracket. The result is the identifier.\<close>

definition matchRef :: "string \<Rightarrow> string option" where
  "matchRef s =
     (let i = take 36 (drop 10 s) in
      if toLowerCase (take 10 s) = evidenceTag \<and> length i = 36 \<and> list_all hexDash i \<and> take 1 (drop 46 s) = '']''
      then Some i else None)"

datatype part = TextPart string | Citation string

fun pushChar :: "char \<Rightarrow> part list \<Rightarrow> part list" where
  "pushChar c (TextPart s # ps) = TextPart (c # s) # ps"
| "pushChar c ps = TextPart [c] # ps"

text \<open>The scan: a match becomes a chip and is skipped, other characters join the text before the next match.\<close>

function citationParts :: "string \<Rightarrow> part list" where
  "citationParts [] = []"
| "citationParts (c # cs) =
     (case matchRef (c # cs) of
        Some i \<Rightarrow> Citation i # citationParts (drop 47 (c # cs))
      | None \<Rightarrow> pushChar c (citationParts cs))"
  by pat_completeness auto
termination by (relation "measure length") auto

fun partSource :: "part \<Rightarrow> string \<Rightarrow> bool" where
  "partSource (TextPart t) s = (s = t)"
| "partSource (Citation i) s = (length s = 47 \<and> matchRef s = Some i)"

subsection \<open>The timeline\<close>

record trace_line =
  ln_key :: string
  ln_kind :: string
  ln_summary :: string
  ln_agent_id :: string
  ln_execution_path :: string
  ln_agent_action_id :: string
  ln_expandable :: bool

definition TERMINAL_KINDS :: "string list" where
  "TERMINAL_KINDS = [''final_verdict'', ''envelope'', ''triage_complete'']"

definition prettyKind_viewer :: "string \<Rightarrow> string" where
  "prettyKind_viewer kind =
     (if kind = ''intermediate_belief'' then ''Reasoning''
      else if kind = ''tool_call'' then ''Tool call''
      else if kind = ''final_verdict'' then ''Final verdict''
      else if kind = ''envelope'' then ''Signed envelope''
      else if kind = ''triage_complete'' then ''Triage complete''
      else if kind = ''classifier_complete'' then ''Classifier complete''
      else replaceChar CHR ''_'' '' '' kind)"

definition traceBadgeVariant :: "string \<Rightarrow> string" where
  "traceBadgeVariant kind =
     (if kind = ''tool_call'' then ''primary-light''
      else if kind = ''intermediate_belief'' then ''secondary''
      else if kind \<in> set TERMINAL_KINDS then ''success-light''
      else ''secondary'')"

definition expandableKind :: "string \<Rightarrow> bool" where
  "expandableKind kind \<longleftrightarrow> kind = ''tool_call'' \<or> kind = ''intermediate_belief''"

definition liveLine :: "kafka_step \<Rightarrow> trace_line" where
  "liveLine s = \<lparr>ln_key = ''live-'' @ ks_agent_action_id s @ ''-'' @ ks_step_kind s @ ''-'' @ intStr (ks_ts s),
     ln_kind = ks_step_kind s, ln_summary = ks_summary s, ln_agent_id = ks_agent_id s,
     ln_execution_path = ks_execution_path s, ln_agent_action_id = ks_agent_action_id s,
     ln_expandable = expandableKind (ks_step_kind s)\<rparr>"

definition httpLine :: "nat \<times> http_step \<Rightarrow> trace_line" where
  "httpLine = (\<lambda>(i, s). \<lparr>ln_key = ''http-'' @ hs_agent_action_id s @ ''-'' @ hs_kind s @ ''-'' @ natStr i,
     ln_kind = hs_kind s, ln_summary = hs_verdict s, ln_agent_id = hs_agent_id s,
     ln_execution_path = hs_execution_path s, ln_agent_action_id = hs_agent_action_id s,
     ln_expandable = expandableKind (hs_kind s)\<rparr>)"

definition fingerprint :: "trace_line \<Rightarrow> string" where
  "fingerprint l = ln_agent_action_id l @ '':'' @ ln_kind l @ '':'' @ ln_summary l"

definition timelineRows :: "http_step list \<Rightarrow> kafka_step list \<Rightarrow> trace_line list" where
  "timelineRows httpSteps liveSteps =
     dedupBy fingerprint []
       (map httpLine (enumerate 0 (filter (\<lambda>s. hs_kind s \<noteq> ''classifier_complete'') httpSteps))
        @ map liveLine (filter (\<lambda>s. ks_step_kind s \<noteq> ''classifier_complete'') liveSteps))"

definition terminalComplete :: "trace_line list \<Rightarrow> bool" where
  "terminalComplete rows \<longleftrightarrow> rows \<noteq> [] \<and> ln_kind (List.last rows) \<in> set TERMINAL_KINDS"

definition lineCompleted :: "trace_line list \<Rightarrow> nat \<Rightarrow> bool" where
  "lineCompleted rows index \<longleftrightarrow> Suc index \<noteq> length rows \<or> terminalComplete rows"

datatype trace_viewer = EvidencePanel "feature_impact list" | Timeline "trace_line list" | DualEvidence "feature_impact list" "trace_line list"

definition reasoningTraceViewer :: "string \<Rightarrow> feature_impact list \<Rightarrow> http_step list \<Rightarrow> kafka_step list \<Rightarrow> trace_viewer" where
  "reasoningTraceViewer path impacts httpSteps liveSteps =
     (if path = ''classifier'' then EvidencePanel impacts
      else if path = ''llm'' then Timeline (timelineRows httpSteps liveSteps)
      else DualEvidence impacts (timelineRows httpSteps liveSteps))"

section \<open>components/workbench/investigator-trace-stepper.tsx\<close>

definition kindPhase :: "string \<Rightarrow> int" where
  "kindPhase kind =
     (if kind = ''intermediate_belief'' then 1
      else if kind = ''tool_call'' then 2
      else if kind = ''final_verdict'' \<or> kind = ''envelope'' \<or> kind = ''triage_complete'' then 3
      else 0)"

record step_state =
  st_activeStep :: int
  st_loadingStep :: "int option"
  st_step1Done :: bool
  st_step2Done :: bool
  st_step3Done :: bool

definition hasKind :: "string list \<Rightarrow> kafka_step list \<Rightarrow> bool" where
  "hasKind kinds = list_ex (\<lambda>s. ks_step_kind s \<in> set kinds)"

definition deriveStepState :: "kafka_step list \<Rightarrow> step_state" where
  "deriveStepState llmSteps =
     (if llmSteps = [] then
        \<lparr>st_activeStep = 1, st_loadingStep = Some 1, st_step1Done = False, st_step2Done = False, st_step3Done = False\<rparr>
      else
        let sorted' = sort_key ks_ts llmSteps;
            lk = ks_step_kind (List.last sorted');
            step1Done = list_ex (\<lambda>s. 2 \<le> kindPhase (ks_step_kind s)) sorted';
            step2Done = hasKind [''final_verdict'', ''envelope'', ''triage_complete''] sorted';
            step3Done = hasKind [''envelope'', ''triage_complete''] sorted';
            active = (if step3Done then 3
              else if lk = ''final_verdict'' then 3
              else if lk = ''tool_call'' then 2
              else if lk = ''intermediate_belief'' then 1
              else min 3 (max 1 (if kindPhase lk = 0 then 1 else kindPhase lk)));
            loading = (if step3Done then None else Some active)
        in \<lparr>st_activeStep = active, st_loadingStep = loading, st_step1Done = step1Done, st_step2Done = step2Done,
            st_step3Done = step3Done\<rparr>)"

definition formatElapsed :: "int \<Rightarrow> string" where
  "formatElapsed ms = (if ms < 1000 then intStr ms @ ''ms'' else toFixed 1 (of_int ms / 1000) @ ''s'')"

definition stepLabel :: "string \<Rightarrow> string" where
  "stepLabel kind =
     (if kind = ''tool_call'' then ''Tool call''
      else if kind = ''intermediate_belief'' then ''Reasoning''
      else if kind = ''classifier_complete'' then ''Classifier''
      else if kind = ''final_verdict'' then ''Verdict''
      else if kind = ''envelope'' then ''Attested''
      else kind)"

text \<open>A line of the live log: label, summary and the time since the first step.\<close>

definition liveTraceLog :: "kafka_step list \<Rightarrow> (string \<times> string \<times> string) list" where
  "liveTraceLog steps =
     (let sorted' = sort_key ks_ts steps in
      map (\<lambda>s. (stepLabel (ks_step_kind s), if ks_summary s = [] then em_dash else ks_summary s,
           ''+'' @ toFixed 1 (of_int (ks_ts s - ks_ts (hd sorted')) / 1000) @ ''s'')) sorted')"

text \<open>The start time lives in \<open>sessionStorage\<close> under the case's key, as the text of a number; the result is the time
  and the storage afterwards.\<close>

definition triageStartKey :: "string \<Rightarrow> string" where
  "triageStartKey caseId = ''triage_start:'' @ caseId"

definition initStartedAt :: "string \<Rightarrow> int \<Rightarrow> int dict \<Rightarrow> int \<times> int dict" where
  "initStartedAt caseId now storage =
     (case dictGet storage (triageStartKey caseId) of
        Some t \<Rightarrow> (t, storage)
      | None \<Rightarrow> (now, dictPut (triageStartKey caseId) now storage))"

definition elapsedMs :: "int option \<Rightarrow> int \<Rightarrow> int" where
  "elapsedMs now startedAt = (case now of None \<Rightarrow> 0 | Some t \<Rightarrow> max 0 (t - startedAt))"

definition llmPath :: "kafka_step \<Rightarrow> bool" where
  "llmPath s \<longleftrightarrow> toLowerCase (ks_execution_path s) = ''llm'' \<or> toLowerCase (ks_execution_path s) = ''hybrid''"

record pipeline_state =
  ps_activeStep :: int
  ps_loadingStep :: "int option"
  ps_done :: "bool list"

definition triagePipeline :: "kafka_step list \<Rightarrow> int \<Rightarrow> pipeline_state" where
  "triagePipeline liveSteps elapsed =
     (let hasLlmSteps = filter llmPath liveSteps \<noteq> [];
          hasFinalVerdict = hasKind [''final_verdict'', ''triage_complete''] liveSteps;
          hasEnvelope = hasKind [''envelope'', ''triage_complete''] liveSteps;
          hasClassifierStep = hasKind [''classifier_complete''] liveSteps;
          classifierLikelyDone = (hasClassifierStep \<or> elapsed > 5000);
          step2Done = (hasLlmSteps \<or> hasEnvelope \<or> classifierLikelyDone);
          step3Done = (hasEnvelope \<or> hasFinalVerdict);
          step4Done = hasEnvelope
      in \<lparr>ps_activeStep = (if step4Done then 4 else if step3Done then 4 else if step2Done then 3 else 2),
          ps_loadingStep = (if step4Done then None else if step3Done then Some 4 else if step2Done then Some 3 else Some 2),
          ps_done = [True, step2Done, step3Done, step4Done]\<rparr>)"

definition pipelineCleanup :: "string \<Rightarrow> pipeline_state \<Rightarrow> int dict \<Rightarrow> int dict" where
  "pipelineCleanup caseId ps storage = (if ps_done ps ! 3 then dictDel (triageStartKey caseId) storage else storage)"

definition investigatorStepper :: "kafka_step list \<Rightarrow> string \<Rightarrow> string \<Rightarrow> (step_state \<times> bool list) option" where
  "investigatorStepper liveSteps executionPath verdict =
     (let llmSteps = filter llmPath liveSteps in
      if verdict = ''needs_investigation'' \<or> executionPath = ''llm'' \<or> llmSteps \<noteq> [] then
        let st = deriveStepState llmSteps in
        Some (st, [st_step1Done st \<or> st_step3Done st, st_step2Done st \<or> st_step3Done st, st_step3Done st])
      else None)"

section \<open>components/workbench/attestation-trace-panel.tsx\<close>

record panel_row =
  pr_id :: string
  pr_kind :: string
  pr_summary :: string
  pr_agent_id :: string
  pr_execution_path :: string
  pr_tool_call_count :: nat
  pr_belief_count :: nat
  pr_agent_action_id :: string

definition kafkaToDisplay :: "kafka_step \<Rightarrow> http_step" where
  "kafkaToDisplay s = \<lparr>hs_kind = ks_step_kind s, hs_agent_action_id = ks_agent_action_id s, hs_agent_id = ks_agent_id s,
     hs_execution_path = ks_execution_path s, hs_verdict = ks_summary s, hs_tool_call_count = 0, hs_belief_count = 0\<rparr>"

definition toTraceRow :: "http_step \<Rightarrow> nat \<Rightarrow> panel_row" where
  "toTraceRow s index = \<lparr>pr_id = hs_agent_action_id s @ ''-'' @ hs_kind s @ ''-'' @ natStr index, pr_kind = hs_kind s,
     pr_summary = hs_verdict s, pr_agent_id = hs_agent_id s, pr_execution_path = hs_execution_path s,
     pr_tool_call_count = hs_tool_call_count s, pr_belief_count = hs_belief_count s, pr_agent_action_id = hs_agent_action_id s\<rparr>"

definition prettyKind_panel :: "string \<Rightarrow> string" where
  "prettyKind_panel kind = capitalizeWords (replaceChar CHR ''_'' '' '' kind)"

definition kindVariant :: "string \<Rightarrow> string" where
  "kindVariant kind =
     (if kind = ''tool_call'' then ''primary-light''
      else if kind = ''final_verdict'' \<or> kind = ''triage_complete'' then ''success-light''
      else ''secondary'')"

definition formatPath_panel :: "string \<Rightarrow> string" where
  "formatPath_panel path =
     (if path = ''llm'' then ''LLM'' else if path = ''hybrid'' then ''Hybrid''
      else if path = ''classifier'' then ''Classifier'' else path)"

definition traceGlobalFilter :: "string \<Rightarrow> panel_row \<Rightarrow> bool" where
  "traceGlobalFilter filterValue r =
     (let q = toLowerCase filterValue in
      q = [] \<or> list_ex (\<lambda>v. str_includes (toLowerCase v) q)
        [pr_kind r, pr_summary r, pr_agent_id r, pr_execution_path r, pr_agent_action_id r,
         natStr (pr_tool_call_count r), natStr (pr_belief_count r)])"

definition panelKey :: "http_step \<Rightarrow> string" where
  "panelKey s = hs_agent_action_id s @ ''-'' @ hs_kind s"

definition panelRows :: "http_step list option \<Rightarrow> kafka_step list \<Rightarrow> panel_row list" where
  "panelRows stored liveSteps =
     map (\<lambda>(i, s). toTraceRow s i)
       (enumerate 0 (dedupBy panelKey [] (map kafkaToDisplay liveSteps @ (case stored of None \<Rightarrow> [] | Some ss \<Rightarrow> ss))))"

record trace_response =
  tp_steps :: "http_step list option"
  tp_error :: "string option"

text \<open>The answer to the panel's request; \<open>None\<close> when the request or the parsing failed.\<close>

definition panelLoaded :: "trace_response option \<Rightarrow> trace_response" where
  "panelLoaded answer = (case answer of None \<Rightarrow> \<lparr>tp_steps = None, tp_error = Some ''Failed to load trace''\<rparr> | Some d \<Rightarrow> d)"

datatype panel_view = PanelLoading | PanelError string | PanelEmpty | PanelTable "panel_row list"

definition attestationPanel :: "trace_response option \<Rightarrow> bool \<Rightarrow> kafka_step list \<Rightarrow> panel_view" where
  "attestationPanel data loading liveSteps =
     (let rows = panelRows (case data of None \<Rightarrow> None | Some d \<Rightarrow> tp_steps d) liveSteps;
          err = (case data of None \<Rightarrow> [] | Some d \<Rightarrow> orElse (tp_error d) [])
      in if loading \<and> data = None then PanelLoading
         else if err \<noteq> [] then PanelError err
         else if rows = [] then PanelEmpty
         else PanelTable rows)"

section \<open>components/workbench/classifier-evidence-panel.tsx\<close>

definition maxImpact :: "feature_impact list \<Rightarrow> rat" where
  "maxImpact features = Max (insert (1 / 1000000) (set (map (\<lambda>f. \<bar>fi_impact f\<bar>) features)))"

definition absNorm :: "feature_impact list \<Rightarrow> feature_impact \<Rightarrow> rat" where
  "absNorm features f = \<bar>fi_impact f\<bar> / maxImpact features * 100"

definition barWidth :: "feature_impact list \<Rightarrow> feature_impact \<Rightarrow> rat" where
  "barWidth features f = max 8 (\<bar>fi_impact f\<bar> / maxImpact features * 100)"

definition allNearZero :: "feature_impact list \<Rightarrow> bool" where
  "allNearZero features \<longleftrightarrow> features \<noteq> [] \<and> list_all (\<lambda>f. \<bar>fi_impact f\<bar> < 1 / 100) features"

section \<open>Facts\<close>

lemma matchRef_SomeD:
  assumes "matchRef s = Some i"
  shows "toLowerCase (take 10 s) = evidenceTag" and "i = take 36 (drop 10 s)" and "length i = 36" and "list_all hexDash i"
    and "take 1 (drop 46 s) = '']''" and "47 \<le> length s"
proof -
  show m: "toLowerCase (take 10 s) = evidenceTag" "i = take 36 (drop 10 s)" "length i = 36" "list_all hexDash i"
    "take 1 (drop 46 s) = '']''"
    using assms by (auto simp: matchRef_def Let_def split: if_splits)
  from m(5) have "0 < length (drop 46 s)" by (cases "drop 46 s") auto
  then show "47 \<le> length s" by simp
qed

lemma lower_bracket: "lower_char c = CHR ''['' \<longleftrightarrow> c = CHR ''[''"
proof
  assume l: "lower_char c = CHR ''[''"
  have "code (CHR ''['') = 91" by (simp add: code_def)
  show "c = CHR ''[''"
  proof (rule ccontr)
    assume "c \<noteq> CHR ''[''"
    with l have "lower_char c \<noteq> c" by auto
    with l show False
      by (auto simp: lower_char_def char_between_def code_def split: if_splits dest!: arg_cong [where f = "of_char :: char \<Rightarrow> nat"])
  qed
next
  assume "c = CHR ''[''"
  then show "lower_char c = CHR ''[''" by (simp add: lower_char_def char_between_def code_def)
qed

lemma matchRef_interior:
  assumes m: "matchRef s = Some i" and k: "0 < k" "k < 47"
  shows "s ! k \<noteq> CHR ''[''"
proof -
  note d = matchRef_SomeD [OF m]
  consider "k < 10" | "10 \<le> k" "k < 46" | "k = 46" using k by linarith
  then show ?thesis
  proof cases
    case 1
    have "lower_char (s ! k) = evidenceTag ! k"
      using d(6) 1 arg_cong [OF d(1), of "\<lambda>xs. xs ! k"] by (simp add: toLowerCase_def)
    moreover have "\<forall>j \<in> {1, 2, 3, 4, 5, 6, 7, 8, 9}. evidenceTag ! j \<noteq> CHR ''[''" by (simp add: evidenceTag_def)
    moreover have "k \<in> {1, 2, 3, 4, 5, 6, 7, 8, 9}" using 1 k(1) by auto
    ultimately have "lower_char (s ! k) \<noteq> CHR ''[''" by metis
    then show ?thesis using lower_bracket by blast
  next
    case 2
    then have "s ! k = i ! (k - 10)" using d(2,6) by simp
    moreover have "hexDash (i ! (k - 10))" using d(3,4) 2 by (simp add: list_all_length)
    ultimately show ?thesis by (auto simp: hexDash_def char_between_def code_def)
  next
    case 3
    have "drop 46 s = s ! 46 # drop 47 s" using d(6) Cons_nth_drop_Suc [of 46 s] by simp
    then have "s ! 46 = CHR '']''" using d(5) by simp
    then show ?thesis using 3 by simp
  qed
qed

lemma matchRef_hd: "matchRef v = Some i \<Longrightarrow> v \<noteq> [] \<and> v ! 0 = CHR ''[''"
proof -
  assume m: "matchRef v = Some i"
  note d = matchRef_SomeD [OF m]
  have "lower_char (v ! 0) = evidenceTag ! 0"
    using d(6) arg_cong [OF d(1), of "\<lambda>xs. xs ! 0"] by (simp add: toLowerCase_def)
  then have "v ! 0 = CHR ''[''" using lower_bracket [of "v ! 0"] by (simp only: evidenceTag_def nth_Cons_0)
  moreover have "v \<noteq> []" using d(6) by (cases v) simp_all
  ultimately show ?thesis by blast
qed

lemma matchRef_next:
  assumes "matchRef s = Some i" and "s = u @ v" and "matchRef v = Some j" and "u \<noteq> []"
  shows "\<exists>u'. drop 47 s = u' @ v"
proof -
  have v: "v \<noteq> []" "v ! 0 = CHR ''[''" using matchRef_hd [OF assms(3)] by auto
  then have "s ! length u = CHR ''[''" using assms(2) by (simp add: nth_append)
  then have "47 \<le> length u" using matchRef_interior [OF assms(1), of "length u"] assms(4) by fastforce
  then show ?thesis using assms(2) by (intro exI [of _ "drop 47 u"]) simp
qed

lemma matchRef_take: "matchRef (take 47 x) = matchRef x"
proof -
  have "take 10 (take 47 x) = take 10 x" "take 36 (drop 10 (take 47 x)) = take 36 (drop 10 x)"
    "take 1 (drop 46 (take 47 x)) = take 1 (drop 46 x)"
    by (simp_all add: drop_take)
  then show ?thesis by (simp only: matchRef_def)
qed

lemma citation_pushChar: "Citation i \<in> set (pushChar c ps) \<longleftrightarrow> Citation i \<in> set ps"
  by (cases "(c, ps)" rule: pushChar.cases) auto

lemma sources_pushChar:
  "list_all2 partSource ps ss \<Longrightarrow> \<exists>ss'. list_all2 partSource (pushChar c ps) ss' \<and> concat ss' = c # concat ss"
  by (cases "(c, ps)" rule: pushChar.cases)
    (auto simp: list_all2_Cons1 intro: exI [of _ "[c] # ss"])

lemma citations_sources: "\<exists>ss. list_all2 partSource (citationParts s) ss \<and> concat ss = s"
proof (induction s rule: citationParts.induct)
  case (2 c cs)
  show ?case
  proof (cases "matchRef (c # cs)")
    case None
    then show ?thesis using "2.IH"(1) [OF None] sources_pushChar [of "citationParts cs" _ c] by auto
  next
    case (Some i)
    have parts: "citationParts (c # cs) = Citation i # citationParts (drop 47 (c # cs))" using Some by simp
    have here: "length (take 47 (c # cs)) = 47" "matchRef (take 47 (c # cs)) = Some i"
      using Some matchRef_SomeD(6) [OF Some] by (simp_all only: matchRef_take length_take min_absorb2)
    obtain ss where ss: "list_all2 partSource (citationParts (drop 47 (c # cs))) ss" "concat ss = drop 47 (c # cs)"
      using "2.IH"(2) [OF Some] by blast
    have "list_all2 partSource (citationParts (c # cs)) (take 47 (c # cs) # ss)"
      unfolding parts using ss here by simp
    moreover have "concat (take 47 (c # cs) # ss) = c # cs"
      using ss by (metis append_take_drop_id concat.simps(2))
    ultimately show ?thesis by blast
  qed
qed simp

lemma citations_found: "Citation j \<in> set (citationParts s) \<longleftrightarrow> (\<exists>u v. s = u @ v \<and> matchRef v = Some j)"
proof (induction s rule: citationParts.induct)
  case 1
  show ?case by (auto simp: matchRef_def Let_def)
next
  case (2 c cs)
  show ?case
  proof (cases "matchRef (c # cs)")
    case None
    then have "(\<exists>u v. c # cs = u @ v \<and> matchRef v = Some j) \<longleftrightarrow> (\<exists>u v. cs = u @ v \<and> matchRef v = Some j)"
      by (auto simp: Cons_eq_append_conv)
    then show ?thesis using "2.IH"(1) [OF None] None by (simp add: citation_pushChar)
  next
    case (Some i)
    note IH = "2.IH"(2) [OF Some]
    have parts: "Citation j \<in> set (citationParts (c # cs)) \<longleftrightarrow> j = i \<or> Citation j \<in> set (citationParts (drop 47 (c # cs)))"
      using Some by simp
    have all: "c # cs = take 47 (c # cs) @ drop 47 (c # cs)" by (simp only: append_take_drop_id)
    have "(\<exists>u v. c # cs = u @ v \<and> matchRef v = Some j) \<longleftrightarrow> j = i \<or> (\<exists>u v. drop 47 (c # cs) = u @ v \<and> matchRef v = Some j)"
      (is "?L \<longleftrightarrow> ?R")
    proof
      assume ?L
      then obtain u v where uv: "c # cs = u @ v" "matchRef v = Some j" by blast
      show ?R
      proof (cases "u = []")
        case True
        then show ?thesis using uv Some by (simp only: append_Nil option.inject simp_thms)
      next
        case False
        then show ?thesis using matchRef_next [OF Some uv False] uv(2) by blast
      qed
    next
      assume ?R
      then consider "j = i" | u v where "drop 47 (c # cs) = u @ v" "matchRef v = Some j" by blast
      then show ?L
      proof cases
        case 1
        then show ?thesis using Some by blast
      next
        case (2 u v)
        then have "c # cs = (take 47 (c # cs) @ u) @ v" using all by (simp only: append_assoc)
        then show ?thesis using 2 by blast
      qed
    qed
    then show ?thesis using parts IH by (simp only:)
  qed
qed

section \<open>Properties\<close>

text \<open>C32: turning the references of a reasoning text into chips loses nothing: the parts, read in order, are the whole
  text, a chip standing for one reference of 47 characters, and the chips are exactly the references that
  occur in the text.\<close>

theorem citations_exact:
  "(\<exists>ss. list_all2 partSource (citationParts s) ss \<and> concat ss = s) \<and>
   (\<forall>i. Citation i \<in> set (citationParts s) \<longleftrightarrow> (\<exists>u v. s = u @ v \<and> matchRef v = Some i))"
  using citations_sources citations_found by blast


definition sampleStep :: kafka_step where
  "sampleStep = \<lparr>ks_case_id = ''c'', ks_tenant_id = ''default'', ks_agent_action_id = ''a'', ks_agent_id = ''triager'',
     ks_execution_path = ''llm'', ks_step_kind = ''tool_call'', ks_summary = ''s'', ks_ts = 1\<rparr>"


text \<open>An override that the server refuses still reads as recorded: whatever the answer to the request, the case
  shows the override with its label, the store keeps it, and neither button is offered again.\<close>

theorem refused_override_stays:
  assumes "wb_oid w \<noteq> []"
  shows "(let w' = overrideAnswered f (handleOverrideSubmit label reason now w) in
      recordedText w' = Some ''Override recorded'' \<and> \<not> showsActions w' \<and>
      statusLabel rec w' = ''Override: '' @ replaceChar CHR ''_'' '' '' label \<and>
      (dictGet (wb_store w) (wb_oid w) \<noteq> None \<longrightarrow> selectDisposition (wb_oid w) (wb_store w') = DOverride))"
proof -
  let ?v = "handleOverrideSubmit label reason now w" and ?w = "overrideAnswered f (handleOverrideSubmit label reason now w)"
  have keep: "wb_oid ?w = wb_oid w" "wb_localOverrideLabel ?w = Some label"
    "wb_store ?w = setOverride (wb_oid w) label now (wb_store w)"
    using assms by (auto simp: overrideAnswered_def handleOverrideSubmit_def split: fetched.splits)
  then have "overrideApplied ?w" "overrideLabel ?w = label" by (simp_all add: overrideApplied_def overrideLabel_def)
  moreover have "selectDisposition (wb_oid w) (wb_store ?w) = DOverride" if "dictGet (wb_store w) (wb_oid w) \<noteq> None"
    using that by (auto simp: keep setOverride_def selectDisposition_def updateEntry_get)
  ultimately show ?thesis by (simp add: Let_def recordedText_def showsActions_def statusLabel_def)
qed

definition sampleBench :: workbench where
  "sampleBench = \<lparr>wb_oid = ''c'', wb_overrideOpen = True, wb_approved = False, wb_localOverrideLabel = None,
     wb_httpSteps = [], wb_store = [], wb_toasts = [], wb_requests = []\<rparr>"

theorem refused_override_stays_witness:
  "recordedText (overrideAnswered (Answer 401 None []) (handleOverrideSubmit ''benign'' ''r'' 1 sampleBench)) = Some ''Override recorded''"
  using refused_override_stays [of sampleBench "Answer 401 None []" "''benign''" "''r''" 1]
  by (simp add: sampleBench_def Let_def)

text \<open>The attestation table shows at most one step of a kind per action: of several tool calls of one action, kept
  apart by the store and the database by their times, all but the first are left out.\<close>

theorem panel_one_row_per_kind:
  "length (filter (\<lambda>r. pr_agent_action_id r = a \<and> pr_kind r = k) (panelRows stored live)) \<le> 1"
proof -
  define xs where "xs = dedupBy panelKey [] (map kafkaToDisplay live @ (case stored of None \<Rightarrow> [] | Some ss \<Rightarrow> ss))"
  have "distinct (map panelKey xs)" by (simp add: xs_def distinct_dedupBy)
  then have one: "length (filter (\<lambda>s. hs_agent_action_id s = a \<and> hs_kind s = k) xs) \<le> 1"
  proof (induction xs)
    case (Cons x xs)
    show ?case
    proof (cases "hs_agent_action_id x = a \<and> hs_kind x = k")
      case True
      then have "filter (\<lambda>s. hs_agent_action_id s = a \<and> hs_kind s = k) xs = []"
        using Cons.prems by (auto simp: filter_empty_conv panelKey_def image_iff)
      then show ?thesis by simp
    qed (use Cons in auto)
  qed simp
  have "length (filter P (map (\<lambda>(i, s). toTraceRow s i) (enumerate n ys))) = length (filter Q ys)"
    if "\<And>i s. P (toTraceRow s i) = Q s" for P Q ys n
    using that by (induction ys arbitrary: n) simp_all
  from this [of "\<lambda>r. pr_agent_action_id r = a \<and> pr_kind r = k" "\<lambda>s. hs_agent_action_id s = a \<and> hs_kind s = k" 0 xs] one
  show ?thesis unfolding panelRows_def xs_def [symmetric] by (simp add: toTraceRow_def)
qed

end
