(* ===== verification/Lab_Pages.thy ===== *)
theory Lab_Pages
  imports Ws_Hooks Local_Stores Simulate_Route Case_Page
begin

text \<open>
  The two laboratory pages: \<open>app/workbench/simulate/page.tsx\<close>, which injects a scenario and polls until the memory tier
  has seen it, and measures a batch of fifty; and \<open>app/workbench/load/page.tsx\<close> with its presets, its number format
  and its metrics stream, a third reconnecting socket that, unlike the hooks, checks that it is still
  mounted. A poll is an interval with its target; the page's \<open>pollRef\<close> holds the newest one.
\<close>

section \<open>app/workbench/simulate/page.tsx\<close>

datatype run_state = RsIdle | RsRunning | RsDone | RsError

datatype poll_state = PollIdle | PollPolling | PollFinished

datatype stage_view = StPending | StRunning | StOk | StFail

definition POLL_TIMEOUT_MS :: int where
  "POLL_TIMEOUT_MS = 90000"

definition shapToFeatureImpacts :: "rat dict \<Rightarrow> rat dict \<Rightarrow> feature_impact list" where
  "shapToFeatureImpacts shapValues inputFeatures =
     map (\<lambda>(name, impact). \<lparr>fi_name = replaceChar CHR ''_'' '' '' name,
         fi_value = toFixed 3 (case dictGet inputFeatures name of None \<Rightarrow> 0 | Some x \<Rightarrow> x), fi_impact = impact\<rparr>)
       (take 8 (byMagnitude (objectEntries shapValues)))"

record poll_target =
  pt_eventId :: string
  pt_username :: string
  pt_actionId :: jsval

record sim_page =
  sp_selected :: string
  sp_params :: scenario_params
  sp_runState :: run_state
  sp_hot :: "simulate_response option"
  sp_memory :: "verify_response option"
  sp_pollState :: poll_state
  sp_error :: "string option"
  sp_pollRef :: "nat option"
  sp_intervals :: "(poll_target \<times> bool) list"
  sp_pollStart :: int
  sp_history :: "sim_run list"

definition intervalLive :: "nat \<Rightarrow> sim_page \<Rightarrow> bool" where
  "intervalLive i p \<longleftrightarrow> i < length (sp_intervals p) \<and> snd (sp_intervals p ! i)"

definition clearPoll :: "sim_page \<Rightarrow> sim_page" where
  "clearPoll p = (case sp_pollRef p of None \<Rightarrow> p
     | Some i \<Rightarrow> p\<lparr>sp_intervals := (sp_intervals p)[i := (fst (sp_intervals p ! i), False)], sp_pollRef := None\<rparr>)"

definition selectScenario :: "scenario \<Rightarrow> sim_page \<Rightarrow> sim_page" where
  "selectScenario s p = clearPoll (p\<lparr>sp_selected := sc_id s, sp_params := sc_defaultParams s, sp_runState := RsIdle,
     sp_hot := None, sp_memory := None, sp_pollState := PollIdle, sp_error := None\<rparr>)"

definition runBegin :: "sim_page \<Rightarrow> sim_page" where
  "runBegin p = clearPoll (p\<lparr>sp_runState := RsRunning, sp_hot := None, sp_memory := None, sp_pollState := PollIdle, sp_error := None\<rparr>)"

text \<open>The answer of \<open>/api/simulate\<close>, \<open>Inl\<close> when the request or reading it failed. The result is the target of the
  first poll, which is awaited before the interval is set. \<open>scenarioId\<close> is the scenario the handler closed over
  when it was clicked; it is one of the catalogue, so a route that answers does so with a full response.\<close>

definition runAnswered :: "string \<Rightarrow> string + simulate_response \<Rightarrow> int \<Rightarrow> int \<Rightarrow> sim_page \<Rightarrow> sim_page \<times> poll_target option" where
  "runAnswered scenarioId res now now' p =
     (case res of
        Inl m \<Rightarrow> (p\<lparr>sp_error := Some m, sp_runState := RsError\<rparr>, None)
      | Inr d \<Rightarrow>
          let p' = p\<lparr>sp_hot := Some d,
                 sp_runState := (if sg_ok (sm_collector d) \<and> sg_ok (sm_orchestrator d) then RsDone else RsError),
                 sp_history := pushRun \<lparr>sr_ts = now, sr_scenarioId = scenarioId,
                     sr_verdict = jsString (nullish (sm_verdict d) (Str ''unknown'')),
                     sr_latencyMs = of_int (sm_total_latency_ms d),
                     sr_confidence = numFinite (sm_calibrated_confidence d)\<rparr> (sp_history p)\<rparr>
          in case sm_event_ids d of
               [] \<Rightarrow> (p'\<lparr>sp_pollState := PollFinished\<rparr>, None)
             | e # _ \<Rightarrow>
                 if e = [] then (p'\<lparr>sp_pollState := PollFinished\<rparr>, None)
                 else (p'\<lparr>sp_pollStart := now', sp_pollState := PollPolling\<rparr>,
                       Some \<lparr>pt_eventId = e, pt_username = sm_username d, pt_actionId = sm_action_id d\<rparr>))"

definition pollUrl :: "poll_target \<Rightarrow> string" where
  "pollUrl t = ''/api/simulate/verify?event_id='' @ encodeURIComponent (pt_eventId t) @ ''&username=''
     @ encodeURIComponent (pt_username t) @ ''&action_id='' @ encodeURIComponent (jsString (pt_actionId t))"

definition allOk :: "verify_response \<Rightarrow> bool" where
  "allOk v \<longleftrightarrow> sg_ok (vf_risingwave v) \<and> sg_ok (vf_detection v) \<and> sg_ok (vf_iceberg v) \<and> sg_ok (vf_mcp v)"

definition stopPolling :: "sim_page \<Rightarrow> sim_page" where
  "stopPolling p = (clearPoll p)\<lparr>sp_pollState := PollFinished\<rparr>"

text \<open>One answer to a poll; \<open>None\<close> is a request that failed or whose body is not JSON.\<close>

definition pollAnswered :: "verify_response option \<Rightarrow> int \<Rightarrow> sim_page \<Rightarrow> sim_page" where
  "pollAnswered res now p =
     (case res of
        None \<Rightarrow> p
      | Some v \<Rightarrow>
          let p' = p\<lparr>sp_memory := Some v\<rparr> in
          if allOk v \<or> now - sp_pollStart p > POLL_TIMEOUT_MS then stopPolling p' else p')"

definition startInterval :: "poll_target \<Rightarrow> sim_page \<Rightarrow> sim_page" where
  "startInterval t p = p\<lparr>sp_intervals := sp_intervals p @ [(t, True)], sp_pollRef := Some (length (sp_intervals p))\<rparr>"

definition unmountSim :: "sim_page \<Rightarrow> sim_page" where
  "unmountSim p = (case sp_pollRef p of None \<Rightarrow> p
     | Some i \<Rightarrow> p\<lparr>sp_intervals := (sp_intervals p)[i := (fst (sp_intervals p ! i), False)]\<rparr>)"

text \<open>What can happen to an open page. \<open>PollSet\<close> is the first poll of a run coming back, after which its interval is
  set; \<open>PollAnswer\<close> is any answer to a poll.\<close>

datatype sim_event =
    SelectScenario scenario
  | RunClicked
  | RunAnswered string "string + simulate_response" int int
  | PollAnswer "verify_response option" int
  | PollSet poll_target
  | LeaveSim

fun simStep :: "sim_event \<Rightarrow> sim_page \<Rightarrow> sim_page" where
  "simStep (SelectScenario s) p = selectScenario s p"
| "simStep RunClicked p = (if sp_runState p = RsRunning then p else runBegin p)"
| "simStep (RunAnswered sid res now now') p = fst (runAnswered sid res now now' p)"
| "simStep (PollAnswer res now) p = pollAnswered res now p"
| "simStep (PollSet t) p = startInterval t p"
| "simStep LeaveSim p = unmountSim p"

text \<open>The stage views.\<close>

fun stageView :: "stage_result option \<Rightarrow> stage_view" where
  "stageView None = StPending"
| "stageView (Some r) = (if sg_ok r then StOk else StFail)"

definition hotState :: "(simulate_response \<Rightarrow> stage_result) \<Rightarrow> sim_page \<Rightarrow> stage_view" where
  "hotState key p =
     (if sp_runState p = RsIdle then StPending
      else if sp_runState p = RsRunning \<and> sp_hot p = None then StRunning
      else stageView (map_option key (sp_hot p)))"

definition memoryState :: "(verify_response \<Rightarrow> stage_result) \<Rightarrow> sim_page \<Rightarrow> stage_view" where
  "memoryState key p =
     (if sp_runState p = RsIdle \<or> sp_hot p = None then StPending
      else case sp_memory p of
             None \<Rightarrow> StRunning
           | Some m \<Rightarrow> if sg_ok (key m) then StOk else if sp_pollState p = PollPolling then StRunning else StFail)"

subsection \<open>Batches\<close>

record batch_result =
  br_n :: nat
  br_min :: rat
  br_p50 :: rat
  br_p95 :: rat
  br_p99 :: rat
  br_max :: rat
  br_errors :: nat

definition BATCH_N :: nat where
  "BATCH_N = 50"

text \<open>\<open>ok[i] ?? 0\<close>, and the index \<open>Math.round((p / 100) * (ok.length - 1)) | 0\<close>.\<close>

definition atOr0 :: "rat list \<Rightarrow> int \<Rightarrow> rat" where
  "atOr0 xs i = (if 0 \<le> i \<and> i < int (length xs) then xs ! nat i else 0)"

definition pctIndex :: "rat \<Rightarrow> nat \<Rightarrow> int" where
  "pctIndex p len = mathRound (p / 100 * (of_nat len - 1))"

definition batchResult :: "rat list \<Rightarrow> batch_result" where
  "batchResult latencies =
     (let ok = sort (filter (\<lambda>v. 0 \<le> v) latencies); pct = (\<lambda>p. atOr0 ok (pctIndex p (length ok)))
      in \<lparr>br_n = BATCH_N, br_min = atOr0 ok 0, br_p50 = pct 50, br_p95 = pct 95, br_p99 = pct 99,
          br_max = atOr0 ok (int (length ok) - 1), br_errors = length (filter (\<lambda>v. v < 0) latencies)\<rparr>)"

section \<open>app/workbench/load/page.tsx\<close>

definition cpWsUrl :: "string option \<Rightarrow> string option \<Rightarrow> string" where
  "cpWsUrl configured hostname =
     dropTrailingSlash (case configured of
        Some u \<Rightarrow> u
      | None \<Rightarrow> (case hostname of Some h \<Rightarrow> ''ws://'' @ h @ '':8080'' | None \<Rightarrow> ''ws://localhost:8080'')) @ ''/v1/metrics/stream''"

definition preset :: "rat \<Rightarrow> rat \<Rightarrow> rat \<Rightarrow> rat \<Rightarrow> load_config" where
  "preset rate secs tenants pct = \<lparr>lc_rate = rate, lc_duration_secs = secs, lc_scenario = Mixed, lc_tenants = tenants,
     lc_seed_baselines = True, lc_sampled_triage_pct = pct\<rparr>"

definition PRESETS :: "(string \<times> load_config) list" where
  "PRESETS = [(''Smoke'', preset 1000 30 2 5), (''Sustained'', preset 10000 60 3 5),
     (''Burst'', preset 100000 60 5 1), (''1M Challenge'', preset 100000 120 10 0)]"

definition fmt :: "rat \<Rightarrow> string" where
  "fmt n = (if 1000000 \<le> n then toFixed 1 (n / 1000000) @ ''M''
     else if 1000 \<le> n then toFixed 1 (n / 1000) @ ''k'' else ratStr n)"

text \<open>The metrics stream. As in the hooks, sockets and timers are numbered in creation order.\<close>

record load_ws =
  lw_mounted :: bool
  lw_connected :: bool
  lw_backoff :: rat
  lw_sockets :: "sock_phase list"
  lw_wsRef :: "nat option"
  lw_timers :: "(rat \<times> bool) list"
  lw_timerRef :: "nat option"
  lw_store :: load_state

definition nextBackoff :: "rat \<Rightarrow> rat" where
  "nextBackoff d = min (d * (3 / 2)) 30000"

definition socketPhase :: "nat \<Rightarrow> load_ws \<Rightarrow> sock_phase" where
  "socketPhase i w = (if i < length (lw_sockets w) then lw_sockets w ! i else SClosed)"

definition connectWs :: "load_ws \<Rightarrow> load_ws" where
  "connectWs w =
     (if \<not> lw_mounted w then w
      else if (case lw_wsRef w of None \<Rightarrow> False | Some i \<Rightarrow> socketPhase i w \<in> {SConnecting, SOpen}) then w
      else w\<lparr>lw_sockets := lw_sockets w @ [SConnecting], lw_wsRef := Some (length (lw_sockets w))\<rparr>)"

definition closeWs :: "nat \<Rightarrow> load_ws \<Rightarrow> load_ws" where
  "closeWs i w = (if socketPhase i w = SClosed then w else w\<lparr>lw_sockets := (lw_sockets w)[i := SClosing]\<rparr>)"

definition clearReconnect :: "load_ws \<Rightarrow> load_ws" where
  "clearReconnect w = (case lw_timerRef w of None \<Rightarrow> w
     | Some j \<Rightarrow> w\<lparr>lw_timers := (lw_timers w)[j := (fst (lw_timers w ! j), False)]\<rparr>)"

datatype load_event =
    LoadOpened nat
  | LoadMessage nat "metrics_snapshot option"
  | LoadClosed nat
  | LoadErrored nat
  | LoadTimer nat
  | LoadUnmount

fun loadWsStep :: "load_event \<Rightarrow> load_ws \<Rightarrow> load_ws" where
  "loadWsStep (LoadOpened i) w =
     (if socketPhase i w \<noteq> SConnecting then w
      else let w' = w\<lparr>lw_sockets := (lw_sockets w)[i := SOpen]\<rparr> in
        if \<not> lw_mounted w then closeWs i w' else w'\<lparr>lw_connected := True, lw_backoff := 1000\<rparr>)"
| "loadWsStep (LoadMessage i m) w =
     (if socketPhase i w \<noteq> SOpen then w
      else case m of None \<Rightarrow> w | Some snap \<Rightarrow> w\<lparr>lw_store := ingestSnapshot snap (lw_store w)\<rparr>)"
| "loadWsStep (LoadClosed i) w =
     (if socketPhase i w = SClosed then w
      else let w' = w\<lparr>lw_sockets := (lw_sockets w)[i := SClosed]\<rparr> in
        if \<not> lw_mounted w then w'
        else w'\<lparr>lw_connected := False, lw_timers := lw_timers w @ [(lw_backoff w, True)], lw_timerRef := Some (length (lw_timers w))\<rparr>)"
| "loadWsStep (LoadErrored i) w =
     (if socketPhase i w = SClosed then w
      else closeWs i (if lw_mounted w then w\<lparr>lw_connected := False\<rparr> else w))"
| "loadWsStep (LoadTimer j) w =
     (if j < length (lw_timers w) \<and> snd (lw_timers w ! j)
      then connectWs (w\<lparr>lw_timers := (lw_timers w)[j := (fst (lw_timers w ! j), False)], lw_backoff := nextBackoff (lw_backoff w)\<rparr>)
      else w)"
| "loadWsStep LoadUnmount w =
     (let w' = clearReconnect w in (case lw_wsRef w' of None \<Rightarrow> w' | Some i \<Rightarrow> closeWs i w')\<lparr>lw_mounted := False\<rparr>)"

definition mountLoad :: "load_state \<Rightarrow> load_ws" where
  "mountLoad st = connectWs \<lparr>lw_mounted = True, lw_connected = False, lw_backoff = 1000, lw_sockets = [], lw_wsRef = None,
     lw_timers = [], lw_timerRef = None, lw_store = st\<rparr>"

definition loadWsRun :: "load_event list \<Rightarrow> load_state \<Rightarrow> load_ws" where
  "loadWsRun es st = fold loadWsStep es (mountLoad st)"

text \<open>The page's controls: what the run button does, and the number fields.\<close>

datatype run_button = ButtonDisabled | ButtonStop | ButtonStart

definition runButton :: "load_status \<Rightarrow> run_button" where
  "runButton st = (if st = LStarting \<or> st = LStopping then ButtonDisabled else if st = LRunning then ButtonStop else ButtonStart)"

definition showsReset :: "load_status \<Rightarrow> bool" where
  "showsReset st \<longleftrightarrow> st \<in> {LIdle, LCompleted, LError}"

definition presetActive :: "load_config \<Rightarrow> load_config \<Rightarrow> bool" where
  "presetActive config p \<longleftrightarrow> lc_rate config = lc_rate p \<and> lc_duration_secs config = lc_duration_secs p"

section \<open>Facts about the simulate page\<close>

lemma mathRound_mono: "x \<le> y \<Longrightarrow> mathRound x \<le> mathRound y"
  by (simp add: mathRound_def floor_mono)

lemma mathRound_of_int: "mathRound (of_int n) = n"
  by (simp add: mathRound_def floor_unique)

lemma pctIndex_mono: "p \<le> q \<Longrightarrow> 0 < len \<Longrightarrow> pctIndex p len \<le> pctIndex q len"
  by (auto simp: pctIndex_def intro!: mathRound_mono mult_right_mono divide_right_mono)

lemma pctIndex_ends: "pctIndex 0 len = 0" "pctIndex 100 len = int len - 1"
  using mathRound_of_int [of 0] mathRound_of_int [of "int len - 1"] by (simp_all add: pctIndex_def)

lemma pctIndex_within:
  assumes "0 \<le> p" "p \<le> 100" "0 < len"
  shows "0 \<le> pctIndex p len" "pctIndex p len < int len"
  using pctIndex_mono [OF assms(1,3)] pctIndex_mono [OF assms(2,3)] by (simp_all add: pctIndex_ends)

lemma atOr0_mem: "0 \<le> i \<Longrightarrow> i < int (length xs) \<Longrightarrow> atOr0 xs i \<in> set xs"
  by (simp add: atOr0_def)

lemma atOr0_mono: "sorted xs \<Longrightarrow> 0 \<le> i \<Longrightarrow> i \<le> j \<Longrightarrow> j < int (length xs) \<Longrightarrow> atOr0 xs i \<le> atOr0 xs j"
  by (auto simp: atOr0_def intro: sorted_nth_mono)

text \<open>The percentile of a sorted, nonempty sample, for every percentage.\<close>

lemma percentile_between:
  assumes "sorted ok" "ok \<noteq> []" "0 \<le> p" "p \<le> q" "q \<le> 100"
  shows "atOr0 ok 0 \<le> atOr0 ok (pctIndex p (length ok))"
    and "atOr0 ok (pctIndex p (length ok)) \<le> atOr0 ok (pctIndex q (length ok))"
    and "atOr0 ok (pctIndex q (length ok)) \<le> atOr0 ok (int (length ok) - 1)"
    and "atOr0 ok (pctIndex p (length ok)) \<in> set ok"
proof -
  have n: "0 < length ok" using assms(2) by simp
  note w = pctIndex_within [OF assms(3) _ n] pctIndex_within [OF _ assms(5) n]
  show "atOr0 ok 0 \<le> atOr0 ok (pctIndex p (length ok))" using assms w by (intro atOr0_mono) auto
  show "atOr0 ok (pctIndex p (length ok)) \<le> atOr0 ok (pctIndex q (length ok))"
    using assms w pctIndex_mono [OF assms(4) n] by (intro atOr0_mono) auto
  show "atOr0 ok (pctIndex q (length ok)) \<le> atOr0 ok (int (length ok) - 1)" using assms w by (intro atOr0_mono) auto
  show "atOr0 ok (pctIndex p (length ok)) \<in> set ok" using assms w by (intro atOr0_mem) auto
qed

lemma sorted_ends:
  assumes "sorted xs" "xs \<noteq> []"
  shows "atOr0 xs 0 = Min (set xs)" "atOr0 xs (int (length xs) - 1) = Max (set xs)"
proof -
  have n: "0 < int (length xs)" using assms(2) by simp
  have b: "atOr0 xs 0 \<le> y \<and> y \<le> atOr0 xs (int (length xs) - 1)" if "y \<in> set xs" for y
  proof -
    from that obtain k where k: "k < length xs" "y = xs ! k" by (auto simp: in_set_conv_nth)
    then have "y = atOr0 xs (int k)" by (simp add: atOr0_def)
    with k show ?thesis
      using atOr0_mono [OF assms(1), of 0 "int k"] atOr0_mono [OF assms(1), of "int k" "int (length xs) - 1"] by simp
  qed
  show "atOr0 xs 0 = Min (set xs)" using b n by (intro Min_eqI [symmetric] atOr0_mem) auto
  show "atOr0 xs (int (length xs) - 1) = Max (set xs)" using b n by (intro Max_eqI [symmetric] atOr0_mem) auto
qed

text \<open>An interval that the page has lost sight of: it runs and is not the one in \<open>pollRef\<close>.\<close>

definition leaked :: "nat \<Rightarrow> sim_page \<Rightarrow> bool" where
  "leaked i p \<longleftrightarrow> intervalLive i p \<and> sp_pollRef p \<noteq> Some i"

lemma leaked_clearPoll: "leaked i p \<Longrightarrow> leaked i (clearPoll p)"
  by (auto simp: leaked_def intervalLive_def clearPoll_def split: option.split)

lemma leaked_frame: "sp_intervals q = sp_intervals p \<Longrightarrow> sp_pollRef q = sp_pollRef p \<Longrightarrow> leaked i q = leaked i p"
  by (simp add: leaked_def intervalLive_def)

lemma leaked_runAnswered: "leaked i p \<Longrightarrow> leaked i (fst (runAnswered sid res now now' p))"
  by (subst leaked_frame [of _ p]) (auto simp: runAnswered_def Let_def split: sum.split list.split)

lemma leaked_pollAnswered: "leaked i p \<Longrightarrow> leaked i (pollAnswered res now p)"
proof (cases res)
  case (Some v)
  assume "leaked i p"
  then have "leaked i (p\<lparr>sp_memory := Some v\<rparr>)" by (subst leaked_frame [of _ p]) simp_all
  moreover from leaked_clearPoll [OF this] have "leaked i (stopPolling (p\<lparr>sp_memory := Some v\<rparr>))"
    unfolding stopPolling_def by (subst leaked_frame [of _ "clearPoll (p\<lparr>sp_memory := Some v\<rparr>)"]) simp_all
  ultimately show ?thesis by (simp add: Some pollAnswered_def Let_def)
qed (simp add: pollAnswered_def)

lemma leaked_step: "leaked i p \<Longrightarrow> leaked i (simStep e p)"
proof (cases e)
  case (SelectScenario s)
  assume "leaked i p"
  then show ?thesis unfolding SelectScenario simStep.simps selectScenario_def
    by (intro leaked_clearPoll) (subst leaked_frame [of _ p], simp_all)
next
  case RunClicked
  assume "leaked i p"
  then have "leaked i (runBegin p)" unfolding runBegin_def by (intro leaked_clearPoll) (subst leaked_frame [of _ p], simp_all)
  with \<open>leaked i p\<close> show ?thesis by (simp add: RunClicked)
next
  case (PollSet t)
  assume "leaked i p"
  then show ?thesis by (auto simp: PollSet startInterval_def leaked_def intervalLive_def nth_append)
next
  case LeaveSim
  assume "leaked i p"
  then show ?thesis by (auto simp: LeaveSim unmountSim_def leaked_def intervalLive_def split: option.split)
qed (simp_all add: leaked_runAnswered leaked_pollAnswered)

interpretation leak: preserved simStep "\<lambda>_. True" "leaked i" for i
  by unfold_locales (rule leaked_step)

lemma startInterval_twice_leaks: "leaked (length (sp_intervals p)) (startInterval t' (startInterval t p))"
  by (simp add: leaked_def intervalLive_def startInterval_def nth_append)

section \<open>Facts about the metrics stream\<close>

interpretation load_backoff: backoff nextBackoff "3 / 2" 1000 30000
  by unfold_locales (simp_all add: nextBackoff_def)

text \<open>A mounted stream: only the newest socket may be other than closed, and exactly when it is closed the newest timer,
  and no other, is pending. A left stream: no timer is pending and every socket is closing or closed.\<close>

definition streamOk :: "load_ws \<Rightarrow> bool" where
  "streamOk w \<longleftrightarrow>
     (if lw_mounted w
      then lw_sockets w \<noteq> [] \<and> lw_wsRef w = Some (length (lw_sockets w) - 1) \<and> set (butlast (lw_sockets w)) \<subseteq> {SClosed} \<and>
        (lw_connected w \<longrightarrow> last (lw_sockets w) = SOpen) \<and>
        (if last (lw_sockets w) = SClosed
         then lw_timers w \<noteq> [] \<and> lw_timerRef w = Some (length (lw_timers w) - 1) \<and>
           (\<forall>t \<in> set (butlast (lw_timers w)). \<not> snd t) \<and> snd (last (lw_timers w))
         else \<forall>t \<in> set (lw_timers w). \<not> snd t)
      else (\<forall>t \<in> set (lw_timers w). \<not> snd t) \<and> set (lw_sockets w) \<subseteq> {SClosing, SClosed}) \<and>
     (\<forall>t \<in> set (lw_timers w). 1000 \<le> fst t \<and> fst t \<le> 30000) \<and> 1000 \<le> lw_backoff w \<and> lw_backoff w \<le> 30000"

lemma newest_socket:
  assumes "streamOk w" "lw_mounted w"
  obtains ss s where "lw_sockets w = ss @ [s]" "lw_wsRef w = Some (length ss)" "set ss \<subseteq> {SClosed}" "lw_connected w \<longrightarrow> s = SOpen"
  using assms by (cases "lw_sockets w" rule: rev_cases) (auto simp: streamOk_def)

lemma open_socket_newest:
  assumes "streamOk w" "lw_mounted w" "socketPhase i w \<noteq> SClosed"
  shows "Suc i = length (lw_sockets w)" "last (lw_sockets w) = socketPhase i w"
proof -
  from assms(1,2) obtain ss s where s: "lw_sockets w = ss @ [s]" "set ss \<subseteq> {SClosed}" by (rule newest_socket)
  have "i = length ss"
  proof (rule ccontr)
    assume "i \<noteq> length ss"
    then have "socketPhase i w \<in> set ss \<or> socketPhase i w = SClosed" by (auto simp: socketPhase_def s nth_append)
    with s assms(3) show False by auto
  qed
  with s show "Suc i = length (lw_sockets w)" "last (lw_sockets w) = socketPhase i w" by (simp_all add: socketPhase_def)
qed

lemma left_socket: "streamOk w \<Longrightarrow> \<not> lw_mounted w \<Longrightarrow> socketPhase i w \<in> {SClosing, SClosed}"
  by (cases "i < length (lw_sockets w)") (use nth_mem [of i "lw_sockets w"] in \<open>auto simp: streamOk_def socketPhase_def simp del: nth_mem\<close>)

lemma socketPhase_frame: "lw_sockets v = lw_sockets w \<Longrightarrow> socketPhase i v = socketPhase i w"
  by (simp add: socketPhase_def)

lemma update_newest: "Suc i = length xs \<Longrightarrow> xs[i := x] = butlast xs @ [x]"
  by (cases xs rule: rev_cases) simp_all

text \<open>One pending timer is the newest one, and firing or clearing it leaves none.\<close>

lemma pending_newest:
  assumes "streamOk w" "lw_mounted w" "j < length (lw_timers w)" "snd (lw_timers w ! j)"
  shows "last (lw_sockets w) = SClosed" "Suc j = length (lw_timers w)"
proof -
  show c: "last (lw_sockets w) = SClosed" using assms by (auto simp: streamOk_def split: if_splits)
  then have "lw_timers w \<noteq> []" "\<forall>t \<in> set (butlast (lw_timers w)). \<not> snd t" using assms(1,2) by (simp_all add: streamOk_def)
  then show "Suc j = length (lw_timers w)" using assms(3,4)
    by (cases "lw_timers w" rule: rev_cases) (auto simp: nth_append split: if_splits)
qed

lemma streamOk_opened: "streamOk w \<Longrightarrow> streamOk (loadWsStep (LoadOpened i) w)"
proof (cases "lw_mounted w \<and> socketPhase i w = SConnecting")
  case True
  assume ok: "streamOk w"
  note n = open_socket_newest [OF ok, of i]
  from ok True n show ?thesis by (auto simp: streamOk_def update_newest)
next
  case False
  assume ok: "streamOk w"
  show ?thesis
  proof (cases "lw_mounted w")
    case False
    then have "socketPhase i w \<noteq> SConnecting" using left_socket [OF ok, of i] by auto
    with ok show ?thesis by simp
  qed (use False ok in auto)
qed

lemma streamOk_closed: "streamOk w \<Longrightarrow> streamOk (loadWsStep (LoadClosed i) w)"
proof (cases "lw_mounted w \<and> socketPhase i w \<noteq> SClosed")
  case True
  assume ok: "streamOk w"
  note n = open_socket_newest [OF ok, of i]
  from ok True n show ?thesis by (auto simp: streamOk_def update_newest)
next
  case False
  assume ok: "streamOk w"
  with False show ?thesis by (auto simp: streamOk_def Let_def dest!: set_update_subset_insert [THEN subsetD])
qed

lemma streamOk_closeWs: "streamOk w \<Longrightarrow> streamOk (closeWs i (w\<lparr>lw_connected := False\<rparr>))"
proof (cases "socketPhase i w = SClosed")
  case True
  assume "streamOk w"
  with True show ?thesis by (simp add: closeWs_def streamOk_def socketPhase_frame [of "w\<lparr>lw_connected := False\<rparr>" w])
next
  case False
  assume ok: "streamOk w"
  note n = open_socket_newest [OF ok _ False]
  from ok False n show ?thesis
    by (auto simp: streamOk_def closeWs_def socketPhase_frame [of "w\<lparr>lw_connected := False\<rparr>" w] update_newest dest!: set_update_subset_insert [THEN subsetD])
qed

lemma streamOk_errored: "streamOk w \<Longrightarrow> streamOk (loadWsStep (LoadErrored i) w)"
proof (cases "lw_mounted w")
  case True
  assume "streamOk w"
  with True show ?thesis by (simp add: streamOk_closeWs)
next
  case False
  assume ok: "streamOk w"
  from streamOk_closeWs [OF ok, of i] False ok show ?thesis
    by (auto simp: streamOk_def closeWs_def socketPhase_frame [of "w\<lparr>lw_connected := False\<rparr>" w])
qed

lemma streamOk_timer: "streamOk w \<Longrightarrow> streamOk (loadWsStep (LoadTimer j) w)"
proof (cases "j < length (lw_timers w) \<and> snd (lw_timers w ! j)")
  case True
  assume ok: "streamOk w"
  then have m: "lw_mounted w" using True by (auto simp: streamOk_def split: if_splits)
  note n = pending_newest [OF ok m conjunct1 [OF True] conjunct2 [OF True]]
  obtain ss where s: "lw_sockets w = ss @ [SClosed]" "lw_wsRef w = Some (length ss)" "set ss \<subseteq> {SClosed}"
    using newest_socket [OF ok m] n(1) by (metis last_snoc)
  have b: "1000 \<le> lw_backoff w" "lw_backoff w \<le> 30000" using ok by (simp_all add: streamOk_def)
  have d: "\<forall>t \<in> set (lw_timers w). 1000 \<le> fst t \<and> fst t \<le> 30000" "\<forall>t \<in> set (butlast (lw_timers w)). \<not> snd t"
    "lw_connected w \<longrightarrow> last (lw_sockets w) = SOpen"
    using ok n(1) m by (simp_all add: streamOk_def)
  then have "\<not> lw_connected w" using n(1) by auto
  then show ?thesis using m n s d load_backoff.next_within [OF b] True
    by (auto simp: streamOk_def connectWs_def socketPhase_def update_newest butlast_append dest: in_set_butlastD)
next
  case False
  assume "streamOk w"
  moreover have "loadWsStep (LoadTimer j) w = w" using False by auto
  ultimately show ?thesis by simp
qed

lemma streamOk_message: "streamOk w \<Longrightarrow> streamOk (loadWsStep (LoadMessage i m) w)"
  by (cases m) (simp_all add: streamOk_def)

lemma clearReconnect_dead: "streamOk w \<Longrightarrow> \<forall>t \<in> set (lw_timers (clearReconnect w)). \<not> snd t"
  by (cases "lw_timers w" rule: rev_cases)
     (auto simp: streamOk_def clearReconnect_def split: if_splits option.splits dest!: set_update_subset_insert [THEN subsetD])

lemma clearReconnect_fst: "map fst (lw_timers (clearReconnect w)) = map fst (lw_timers w)"
  by (auto simp: clearReconnect_def map_update split: option.split) (metis list_update_id map_update nth_map list_update_beyond not_le length_map)

lemma clearReconnect_frame [simp]:
  "lw_sockets (clearReconnect w) = lw_sockets w" "lw_wsRef (clearReconnect w) = lw_wsRef w" "lw_backoff (clearReconnect w) = lw_backoff w"
  by (simp_all add: clearReconnect_def split: option.split)

lemma closeWs_frame [simp]: "lw_timers (closeWs i w) = lw_timers w" "lw_backoff (closeWs i w) = lw_backoff w"
  by (simp_all add: closeWs_def)

lemma closed_by_cleanup:
  assumes "streamOk w" "lw_wsRef w = Some i"
  shows "set (lw_sockets (closeWs i (clearReconnect w))) \<subseteq> {SClosing, SClosed}"
proof (cases "lw_mounted w")
  case True
  with assms(1) obtain ss s where "lw_sockets w = ss @ [s]" "lw_wsRef w = Some (length ss)" "set ss \<subseteq> {SClosed}" by (rule newest_socket)
  then show ?thesis using assms(2) by (auto simp: closeWs_def socketPhase_def)
next
  case False
  then show ?thesis using assms(1)
    by (auto simp: closeWs_def streamOk_def dest!: set_update_subset_insert [THEN subsetD])
qed

lemma streamOk_unmount: "streamOk w \<Longrightarrow> streamOk (loadWsStep LoadUnmount w)"
proof -
  assume ok: "streamOk w"
  have "\<forall>d \<in> set (map fst (lw_timers (clearReconnect w))). 1000 \<le> d \<and> d \<le> 30000"
    unfolding clearReconnect_fst using ok by (simp add: streamOk_def)
  then have d: "\<forall>t \<in> set (lw_timers (clearReconnect w)). 1000 \<le> fst t \<and> fst t \<le> 30000" by simp
  have b: "1000 \<le> lw_backoff w" "lw_backoff w \<le> 30000" using ok by (simp_all add: streamOk_def)
  show ?thesis
  proof (cases "lw_wsRef w")
    case None
    then have "set (lw_sockets w) \<subseteq> {SClosing, SClosed}" using ok by (auto simp: streamOk_def split: if_splits)
    with None d b clearReconnect_dead [OF ok] show ?thesis by (simp add: streamOk_def)
  next
    case (Some i)
    with closed_by_cleanup [OF ok Some] d b clearReconnect_dead [OF ok] show ?thesis by (simp add: streamOk_def)
  qed
qed

lemma streamOk_step: "streamOk w \<Longrightarrow> streamOk (loadWsStep e w)"
  by (cases e) (simp_all only: streamOk_opened streamOk_closed streamOk_errored streamOk_timer streamOk_message streamOk_unmount)

lemma streamOk_mount: "streamOk (mountLoad st)"
  by (simp add: mountLoad_def connectWs_def streamOk_def)

interpretation load_stream: preserved loadWsStep "\<lambda>_. True" streamOk
  by unfold_locales (rule streamOk_step)

lemma streamOk_run: "streamOk (loadWsRun es st)"
  unfolding loadWsRun_def by (rule load_stream.run_inv) (simp_all add: list_all_iff streamOk_mount)

lemma left_no_dial: "\<not> lw_mounted w \<Longrightarrow> \<not> lw_mounted (loadWsStep e w) \<and> length (lw_sockets (loadWsStep e w)) = length (lw_sockets w)"
  by (cases e) (auto simp: connectWs_def closeWs_def clearReconnect_def Let_def split: option.split)

interpretation left_stream: preserved loadWsStep "\<lambda>_. True" "\<lambda>w. \<not> lw_mounted w \<and> length (lw_sockets w) = n" for n
  by unfold_locales (simp add: left_no_dial)

lemma one_thread:
  assumes "streamOk w" "lw_mounted w"
  shows "length (filter (\<lambda>s. s \<noteq> SClosed) (lw_sockets w)) + length (filter snd (lw_timers w)) = 1"
proof -
  from assms obtain ss s where s: "lw_sockets w = ss @ [s]" "set ss \<subseteq> {SClosed}" by (rule newest_socket)
  then have "filter (\<lambda>s. s \<noteq> SClosed) ss = []" by (auto simp: filter_empty_conv)
  then show ?thesis using assms s
    by (cases "lw_timers w" rule: rev_cases) (auto simp: streamOk_def filter_empty_conv split: if_splits)
qed

section \<open>Properties\<close>

text \<open>The statistics of a batch are those of its sample: the five figures are in order, each is a latency that was
  measured, the first and the last are the least and the greatest, and the failed calls are counted
  apart; a batch in which every call fails shows zeros.\<close>

theorem batch_statistics:
  "let b = batchResult latencies; sample = filter (\<lambda>v. 0 \<le> v) latencies in
     br_min b \<le> br_p50 b \<and> br_p50 b \<le> br_p95 b \<and> br_p95 b \<le> br_p99 b \<and> br_p99 b \<le> br_max b \<and>
     br_errors b + length sample = length latencies \<and>
     (if sample = [] then br_min b = 0 \<and> br_max b = 0
      else br_min b = Min (set sample) \<and> br_max b = Max (set sample) \<and> {br_p50 b, br_p95 b, br_p99 b} \<subseteq> set sample)"
proof -
  let ?s = "filter (\<lambda>v. 0 \<le> v) latencies" and ?ok = "sort (filter (\<lambda>v. 0 \<le> v) latencies)"
  have n: "length (filter (\<lambda>v. v < 0) latencies) + length ?s = length latencies"
    using sum_length_filter_compl [of "\<lambda>v. v < 0" latencies] by (simp add: not_less)
  show ?thesis
  proof (cases "?s = []")
    case True
    with n show ?thesis by (simp add: batchResult_def Let_def atOr0_def)
  next
    case False
    then have ne: "?ok \<noteq> []" by (metis length_0_conv length_sort)
    note pb = percentile_between [OF sorted_sort ne]
    from pb(1) [of 50 50] pb(2) [of 50 95] pb(2) [of 95 99] pb(3) [of 99 99] pb(4) [of 50 50] pb(4) [of 95 95] pb(4) [of 99 99]
      sorted_ends [OF sorted_sort ne] n False
    show ?thesis by (simp add: batchResult_def Let_def)
  qed
qed

text \<open>C17: the metrics stream runs one connection and never floods or starves: over any events, while the page is open
  there is exactly one socket that is not closed or exactly one pending reconnect timer, never both, and
  the connected light is on only for an open socket; once the page is left no timer is pending, every
  socket is closing or closed, and no event ever opens another. Every wait is between 1 and 30 seconds.\<close>

theorem load_stream_single:
  "let w = loadWsRun es st in
     (\<forall>d \<in> fst ` set (lw_timers w). 1000 \<le> d \<and> d \<le> 30000) \<and>
     (if lw_mounted w
      then length (filter (\<lambda>s. s \<noteq> SClosed) (lw_sockets w)) + length (filter snd (lw_timers w)) = 1 \<and>
        (lw_connected w \<longrightarrow> SOpen \<in> set (lw_sockets w))
      else filter snd (lw_timers w) = [] \<and> set (lw_sockets w) \<subseteq> {SClosing, SClosed} \<and>
        length (lw_sockets (fold loadWsStep es' w)) = length (lw_sockets w))"
proof -
  let ?w = "loadWsRun es st"
  have ok: "streamOk ?w" by (rule streamOk_run)
  then have d: "\<forall>d \<in> fst ` set (lw_timers ?w). 1000 \<le> d \<and> d \<le> 30000" by (simp add: streamOk_def)
  show ?thesis
  proof (cases "lw_mounted ?w")
    case True
    from ok True obtain ss s where "lw_sockets ?w = ss @ [s]" "lw_connected ?w \<longrightarrow> s = SOpen" by (rule newest_socket)
    with d True one_thread [OF ok True] show ?thesis by (auto simp: Let_def)
  next
    case False
    then have "length (lw_sockets (fold loadWsStep es' ?w)) = length (lw_sockets ?w)"
      using left_stream.run_inv [of es' ?w "length (lw_sockets ?w)"] by (simp add: list_all_iff)
    with d False ok show ?thesis by (simp add: Let_def streamOk_def filter_empty_conv)
  qed
qed

theorem load_stream_single_witness:
  "let w = loadWsRun [LoadOpened 0, LoadErrored 0, LoadClosed 0, LoadTimer 0, LoadClosed 1] loadInitial in
     map fst (filter snd (lw_timers w)) = [1500] \<and> length (filter (\<lambda>s. s \<noteq> SClosed) (lw_sockets w)) + length (filter snd (lw_timers w)) = 1"
proof -
  let ?es = "[LoadOpened 0, LoadErrored 0, LoadClosed 0, LoadTimer 0, LoadClosed 1]"
  have "lw_mounted (loadWsRun ?es loadInitial)" "map fst (filter snd (lw_timers (loadWsRun ?es loadInitial))) = [1500]" by code_simp+
  then show ?thesis using load_stream_single [of ?es loadInitial "[]"] by (simp add: Let_def)
qed

text \<open>Two overlapping runs of the simulate page leave a poll behind that nothing stops: when the first polls of both
  come back the second interval takes the place of the first in \<open>pollRef\<close>, and whatever happens then \<dash>
  answers that would end the poll, another scenario, another run, leaving the page \<dash> the first one
  keeps polling.\<close>

theorem overlapping_runs_leak_poll:
  "intervalLive (length (sp_intervals p)) (fold simStep es (simStep (PollSet t') (simStep (PollSet t) p)))"
proof -
  have "leaked (length (sp_intervals p)) (fold simStep es (startInterval t' (startInterval t p)))"
    by (rule leak.run_inv) (simp_all add: list_all_iff startInterval_twice_leaks)
  then show ?thesis by (simp add: leaked_def)
qed

end
