(* ===== verification/Case_Site.thy ===== *)
theory Case_Site
  imports Triage_Route Trace_Route Case_Page Alert_Queue
begin

text \<open>
  The server process as a whole: the triage requests with their turns, visits to case pages, the trace routes,
  the queue and cases pages, all over one database, and restarts of the process, which lose the two maps
  and every request but not the tables. The locale \<open>table_invariant\<close> carries a property of the tables through every
  handler; it is interpreted by the tables' own invariant and by the stability of a verdict.
\<close>

section \<open>Steps\<close>

text \<open>A visit whose snapshot lands later is a visit with a failed write followed by a \<open>snapshot\<close>.\<close>

inductive sstep :: "(string \<Rightarrow> int option) \<Rightarrow> triage_server \<Rightarrow> triage_server \<Rightarrow> bool" for p where
  triage: "tstep s s' \<Longrightarrow> sstep p s s'"
| visit: "sstep p s (setRepo (snd (casePage c fe fs fq fb now fw (tq_repo s))) s)"
| snapshot: "sstep p s (setRepo (snd (upsertCaseSnapshot c None ev base Undef now fs fq (tq_repo s))) s)"
| trace_post: "sstep p s (setRepo (snd (tracePOST p c body now fs fq (tq_repo s))) s)"
| trace_get: "sstep p s (setRepo (snd (traceGET c fs fq fq' (tq_repo s))) s)"
| triage_get: "sstep p s (setRepo (snd (triageGET c fs fq (tq_repo s))) s)"
| queue: "sstep p s (setRepo (snd (fetchLiveAlerts f fs fq (tq_repo s))) s)"
| cases_page: "sstep p s (setRepo (snd (fetchCases f fs fq (tq_repo s))) s)"
| restart: "sstep p s (triageInit ((tq_repo s)\<lparr>rp_schema := SchemaUnset\<rparr>))"

inductive_cases sstepE: "sstep p s s'"

section \<open>Properties of the tables, handler by handler\<close>

text \<open>A property of the two tables that the statements in \<open>allowed\<close> keep.\<close>

locale table_invariant =
  fixes P :: "repo \<Rightarrow> bool" and allowed :: "repo_op \<Rightarrow> bool" and p :: "string \<Rightarrow> int option"
  assumes tables: "rp_cases s = rp_cases r \<Longrightarrow> rp_traces s = rp_traces r \<Longrightarrow> P r \<Longrightarrow> P s"
    and statement: "allowed op \<Longrightarrow> P r \<Longrightarrow> P (repoStep p op r)"
    and snapshots: "allowed (UpsertCase i tn ev b d t fs fq)"
    and traces: "allowed (AppendTraces i ss t fs fq)"
begin

lemma upsert_keeps: "P r \<Longrightarrow> P (snd (upsertCaseSnapshot i tn ev b d t fs fq r))"
  using statement [OF snapshots, of r i tn ev b d t fs fq] by simp

lemma append_keeps: "P r \<Longrightarrow> P (snd (appendTraceSteps p i ss t fs fq r))"
  using statement [OF traces, of r i ss t fs fq] by simp

lemma read_keeps:
  assumes "P r" and "\<And>s. rp_cases (snd (body s)) = rp_cases s \<and> rp_traces (snd (body s)) = rp_traces s"
  shows "P (snd (dbStatement fs fq body r))"
proof (rule dbStatement_inv [where P = P, OF assms(1)])
  fix s :: repo assume "rp_cases s = rp_cases r" "rp_traces s = rp_traces r"
  then show "P s" and "P (snd (body s))" using assms tables [of s r] tables [of "snd (body s)" r] by auto
qed

lemma getCase_keeps: "P r \<Longrightarrow> P (snd (getCase c fs fq r))"
  unfolding getCase_def by (rule read_keeps) simp_all

lemma getCases_keeps: "P r \<Longrightarrow> P (snd (getCases cs fs fq r))"
  unfolding getCases_def by (simp add: read_keeps)

lemma listTraceSteps_keeps: "P r \<Longrightarrow> P (snd (listTraceSteps c fs fq r))"
  unfolding listTraceSteps_def by (rule read_keeps) simp_all

lemma casePage_keeps: "P r \<Longrightarrow> P (snd (casePage c fe fs fq fb now fw r))"
  using getCase_keeps [of r c fs fq] upsert_keeps
  by (auto simp: casePage_def Let_def split: option.splits prod.splits sum.splits)

lemma tracePOST_keeps: "P r \<Longrightarrow> P (snd (tracePOST p c body now fs fq r))"
  using append_keeps [of r c _ now fs fq]
  by (auto simp: tracePOST_def split: option.splits prod.splits sum.splits) (metis snd_conv)+

lemma traceGET_keeps: "P r \<Longrightarrow> P (snd (traceGET c fs fq fq' r))"
  using listTraceSteps_keeps [of r c fs fq] getCase_keeps
  by (auto simp: traceGET_def split: option.splits prod.splits sum.splits) (metis snd_conv)+

lemma triageGET_keeps: "P r \<Longrightarrow> P (snd (triageGET c fs fq r))"
  using getCase_keeps [of r c fs fq]
  by (auto simp: triageGET_def split: option.splits prod.splits sum.splits)

lemma enrich_keeps: "P r \<Longrightarrow> P (snd (enrichAlertsWithPersisted as fs fq r))"
  using getCases_keeps [of r "map al_caseId as" fs fq]
  by (auto simp: enrichAlertsWithPersisted_def Let_def split: prod.splits)

lemma pages_keep: "P r \<Longrightarrow> P (snd (fetchLiveAlerts f fs fq r))" "P r \<Longrightarrow> P (snd (fetchCases f fs fq r))"
  using enrich_keeps [of r _ fs fq]
  by (auto simp: fetchLiveAlerts_def fetchCases_def split: fetched.splits option.splits prod.splits) (metis snd_conv)+

lemmas handlers_keep = casePage_keeps upsert_keeps tracePOST_keeps traceGET_keeps triageGET_keeps pages_keep

end

interpretation tables_ok: table_invariant repoOk "\<lambda>_. True" p for p
  by unfold_locales (auto intro: repoStep_ok repoOk_schema)

section \<open>The server's invariant\<close>

lemma serverOk_setRepo: "serverOk s \<Longrightarrow> repoOk r \<Longrightarrow> serverOk (setRepo r s)"
  by (simp add: serverOk_def)

lemma sstep_ok: "sstep p s s' \<Longrightarrow> serverOk s \<Longrightarrow> serverOk s'"
proof (induction rule: sstep.induct)
  case (triage s s')
  then show ?case by (rule tstep_ok)
next
  case (restart s)
  have "repoOk (tq_repo s)" using restart by (simp add: serverOk_def)
  then show ?case by (intro serverOk_init) (simp add: repoOk_def)
qed (auto simp: serverOk_def intro!: serverOk_setRepo tables_ok.handlers_keep)

lemma site_ok: "(sstep p)\<^sup>*\<^sup>* s s' \<Longrightarrow> serverOk s \<Longrightarrow> serverOk s'"
  by (induction rule: rtranclp_induct) (auto intro: sstep_ok)

section \<open>Settled verdicts\<close>

definition settled :: "string \<Rightarrow> jsval \<Rightarrow> repo \<Rightarrow> bool" where
  "settled c d r \<longleftrightarrow>
     (case dictGet (rp_cases r) c of Some row \<Rightarrow> cr_triage_status row = TComplete \<and> cr_verdict row = d | None \<Rightarrow> False)"

fun sparing :: "string \<Rightarrow> repo_op \<Rightarrow> bool" where
  "sparing c (MarkRunning i t fs fq) = (i \<noteq> c)"
| "sparing c (MarkComplete i v t fs fq) = (i \<noteq> c)"
| "sparing c (MarkFailed i e t fs fq) = (i \<noteq> c)"
| "sparing c _ = True"

lemma settled_tables: "rp_cases s = rp_cases r \<Longrightarrow> settled c d s = settled c d r"
  by (simp add: settled_def)

lemma settled_upsert: "settled c d r \<Longrightarrow> settled c d (snd (upsertCaseSnapshot i tn ev b dt t fs fq r))"
  unfolding upsertCaseSnapshot_def
  by (rule dbStatement_inv [where P = "settled c d"]) (auto simp: settled_def dictGet_put split: option.splits if_splits)

lemma settled_update: "i \<noteq> c \<Longrightarrow> settled c d r \<Longrightarrow> settled c d (snd (updateCase i f fs fq r))"
  unfolding updateCase_def
  by (rule dbStatement_inv [where P = "settled c d"]) (auto simp: settled_def dictGet_put split: option.splits if_splits)

lemma append_cases: "rp_cases (snd (appendTraceSteps p i ss t fs fq r)) = rp_cases r"
  by (auto simp: appendTraceSteps_def split: prod.splits sum.splits option.splits dest: schema_cases)

interpretation verdict_kept: table_invariant "settled c d" "sparing c" p for c d p
proof unfold_locales
  fix op r assume "sparing c op" "settled c d r"
  then show "settled c d (repoStep p op r)"
    by (cases op) (simp_all add: settled_upsert settled_update settled_tables [OF append_cases]
        markTriageRunning_def markTriageComplete_def markTriageFailed_def)
qed (simp_all add: settled_def)

text \<open>The places between the decision to investigate and the answer.\<close>

fun working :: "pc \<Rightarrow> bool" where
  "working (AwaitBaseline _) = True"
| "working (AwaitSnapshot _) = True"
| "working (AwaitRunning _) = True"
| "working (AwaitOrchestrator _) = True"
| "working (AwaitComplete _) = True"
| "working (AwaitFailed _) = True"
| "working _ = False"

definition closed :: "string \<Rightarrow> jsval \<Rightarrow> triage_server \<Rightarrow> bool" where
  "closed c d s \<longleftrightarrow> settled c d (tq_repo s) \<and> list_all (\<lambda>q. rq_case q = c \<longrightarrow> \<not> working (rq_pc q)) (tq_reqs s)"

lemma startTurn_settled:
  "settled c d r \<Longrightarrow> truthy d \<Longrightarrow> startTurn c al (dictGet (rp_cases r) c) s = Done (respond 200 d)"
  by (auto simp: settled_def startTurn_def persistedVerdict_def split: option.splits)

text \<open>A turn on another case changes neither the row nor the requests of \<open>c\<close>; a turn on \<open>c\<close> is a look-up or a
  join.\<close>

lemma turn_other:
  assumes "turn n i q inp s = Some s'" "i \<noteq> c" "settled c d (tq_repo s)"
  shows "settled c d (tq_repo s')"
  using assms(1)
proof (cases "(n, i, q, inp, s)" rule: turn.cases)
  case (1 n i al fs fq s)
  then show ?thesis using assms verdict_kept.getCase_keeps [of c d "tq_repo s" i fs fq]
    by (auto split: prod.splits sum.splits)
next
  case (3 n i a t fs fq s)
  then show ?thesis using assms settled_upsert [of c d "tq_repo s" i None "Obj a" Null Undef t fs fq]
    by (auto split: prod.splits sum.splits)
next
  case (4 n i a t fs fq s)
  then show ?thesis using assms verdict_kept.statement [of c "MarkRunning i t fs fq" d "tq_repo s"]
    by (auto split: prod.splits sum.splits)
next
  case (6 n i v t fs fq s)
  then show ?thesis using assms verdict_kept.statement [of c "MarkComplete i v t fs fq" d "tq_repo s"]
    by (auto split: prod.splits sum.splits)
next
  case (7 n i m t fs fq s)
  then show ?thesis using assms verdict_kept.statement [of c "MarkFailed i m t fs fq" d "tq_repo s"]
    by (auto split: prod.splits sum.splits)
qed (use assms in \<open>auto split: run_result.splits\<close>)

lemma turn_idle:
  assumes "turn n c q inp s = Some s'" "\<not> working q" "settled c d (tq_repo s)" "truthy d"
  shows "settled c d (tq_repo s') \<and> (\<exists>q'. tq_reqs s' = (tq_reqs s)[n := (tq_reqs s ! n)\<lparr>rq_pc := q'\<rparr>] \<and> \<not> working q')"
  using assms(1)
proof (cases "(n, c, q, inp, s)" rule: turn.cases)
  case (1 n c al fs fq s)
  have "dictGet (rp_cases r) c = row" if "getCase c fs fq (tq_repo s) = (Inr row, r)" for row r
    using that schema_cases by (fastforce simp: getCase_def dbStatement_Inr)
  then have "startTurn c al row s = Done (respond 200 d)" if "getCase c fs fq (tq_repo s) = (Inr row, r)" for row r
    using that startTurn_settled [of c d r al s] verdict_kept.getCase_keeps [of c d "tq_repo s" c fs fq] 1 assms by auto
  then show ?thesis using 1 assms verdict_kept.getCase_keeps [of c d "tq_repo s" c fs fq]
    by (auto split: prod.splits sum.splits)
next
  case (8 n c m s)
  then show ?thesis using assms by (auto split: run_result.splits)
qed (use assms in auto)

lemma list_all_update: "list_all Q xs \<Longrightarrow> Q x \<Longrightarrow> list_all Q (xs[n := x])"
  by (auto simp: list_all_iff dest!: set_update_subset_insert [THEN subsetD])

lemma closed_advance:
  assumes "closed c d s" "truthy d" "advance n inp s = Some s'"
  shows "closed c d s'"
proof -
  let ?q = "tq_reqs s ! n"
  from assms(3) have n: "n < length (tq_reqs s)" and t: "turn n (rq_case ?q) (rq_pc ?q) inp s = Some s'"
    by (auto simp: advance_def split: if_splits)
  have s: "settled c d (tq_repo s)" and all: "list_all (\<lambda>q. rq_case q = c \<longrightarrow> \<not> working (rq_pc q)) (tq_reqs s)"
    using assms(1) by (simp_all add: closed_def)
  show ?thesis
  proof (cases "rq_case ?q = c")
    case True
    then have "\<not> working (rq_pc ?q)" using all n by (auto simp: list_all_length)
    from turn_idle [OF t [unfolded True] this s assms(2)] all show ?thesis
      by (auto simp: closed_def intro!: list_all_update)
  next
    case False
    from turn_moves [OF t] obtain q' where "tq_reqs s' = (tq_reqs s)[n := ?q\<lparr>rq_pc := q'\<rparr>]" by blast
    then show ?thesis using turn_other [OF t False s] all False by (simp add: closed_def list_all_update)
  qed
qed

lemma closed_setRepo: "closed c d s \<Longrightarrow> settled c d r \<Longrightarrow> closed c d (setRepo r s)"
  by (simp add: closed_def)

lemma closed_sstep: "sstep p s s' \<Longrightarrow> truthy d \<Longrightarrow> closed c d s \<Longrightarrow> closed c d s'"
proof (induction rule: sstep.induct)
  case (triage s s')
  from triage(1) show ?case
  proof (rule tstepE)
    fix i body assume "s' = arrive i body s"
    moreover have "\<not> working (firstTurn body)" by (auto simp: firstTurn_def split: option.splits)
    ultimately show ?thesis using triage(3) by (simp add: closed_def arrive_def)
  next
    fix n inp assume "advance n inp s = Some s'"
    with triage(2,3) show ?thesis by (blast intro: closed_advance)
  qed
next
  case (restart s)
  then have "settled c d (tq_repo s)" by (simp add: closed_def)
  then show ?case by (simp add: closed_def triageInit_def settled_def)
qed (auto simp: closed_def intro!: verdict_kept.handlers_keep)

lemma closed_runs: "(sstep p)\<^sup>*\<^sup>* s s' \<Longrightarrow> truthy d \<Longrightarrow> closed c d s \<Longrightarrow> closed c d s'"
  by (induction rule: rtranclp_induct) (auto intro: closed_sstep)

section \<open>Properties\<close>

text \<open>C8: a verdict is final: from a state in which a case is complete with verdict \<open>d\<close> and no request of the process is
  still working on it, whatever the process then serves \<dash> further triage requests, page visits, trace
  steps, failures of the database, restarts \<dash> the case stays complete with \<open>d\<close>, no request ever works on it
  again, and a request whose look-up is answered gets \<open>d\<close>.\<close>

theorem verdict_final:
  assumes "dictGet (rp_cases (tq_repo s)) c = Some row" "cr_triage_status row = TComplete" "cr_verdict row = d" "truthy d"
    and "\<forall>q \<in> set (tq_reqs s). rq_case q = c \<longrightarrow> \<not> working (rq_pc q)"
    and "(sstep p)\<^sup>*\<^sup>* s s'"
  shows "(\<exists>row'. dictGet (rp_cases (tq_repo s')) c = Some row' \<and> cr_triage_status row' = TComplete \<and> cr_verdict row' = d) \<and>
    (\<forall>q \<in> set (tq_reqs s'). rq_case q = c \<longrightarrow> \<not> working (rq_pc q)) \<and>
    (\<forall>al. startTurn c al (dictGet (rp_cases (tq_repo s')) c) s' = Done (respond 200 d))"
proof -
  have "closed c d s" using assms(1-3,5) by (simp add: closed_def settled_def list_all_iff)
  with assms(4,6) have "closed c d s'" by (blast intro: closed_runs)
  then have "settled c d (tq_repo s')" "\<forall>q \<in> set (tq_reqs s'). rq_case q = c \<longrightarrow> \<not> working (rq_pc q)"
    by (simp_all add: closed_def list_all_iff)
  then show ?thesis using startTurn_settled [of c d "tq_repo s'" _ s'] assms(4)
    by (auto simp: settled_def split: option.splits)
qed

definition completeRepo :: repo where
  "completeRepo = snd (markTriageComplete ''c'' sampleVerdict 3 None None sampleRepo)"

theorem verdict_final_witness:
  "\<exists>row'. dictGet (rp_cases (tq_repo (triageInit ((tq_repo (arrive ''c'' (Some sampleBody) (triageInit completeRepo)))
      \<lparr>rp_schema := SchemaUnset\<rparr>)))) ''c'' = Some row' \<and> cr_verdict row' = sampleVerdict"
proof -
  let ?s = "triageInit completeRepo" and ?a = "arrive ''c'' (Some sampleBody) (triageInit completeRepo)"
  obtain row where row: "dictGet (rp_cases (tq_repo ?s)) ''c'' = Some row" "cr_triage_status row = TComplete"
      "cr_verdict row = sampleVerdict"
    by (simp add: triageInit_def completeRepo_def sampleRepo_def markTriageComplete_def updateCase_def dbStatement_def
        ensureCaseSchema_def dictGet_def sampleVerdict_def insertedCase_def)
  have t: "truthy sampleVerdict" "\<forall>q \<in> set (tq_reqs ?s). rq_case q = ''c'' \<longrightarrow> \<not> working (rq_pc q)"
    by (simp_all add: sampleVerdict_def triageInit_def)
  have "sstep (\<lambda>_. None) ?s ?a" by (intro sstep.triage tstep.arrival)
  then have "(sstep (\<lambda>_. None))\<^sup>*\<^sup>* ?s (triageInit ((tq_repo ?a)\<lparr>rp_schema := SchemaUnset\<rparr>))"
    using sstep.restart [of "\<lambda>_. None" ?a] by (rule rtranclp.rtrancl_into_rtrancl [OF r_into_rtranclp])
  from verdict_final [OF row t this] show ?thesis by blast
qed

text \<open>Everything the process does keeps the tables and its maps consistent, restarts included.\<close>

theorem site_invariant:
  assumes "repoOk r" "(sstep p)\<^sup>*\<^sup>* (triageInit r) s"
  shows "repoOk (tq_repo s) \<and>
    (\<forall>c n. dictGet (tq_inflight s) c = Some n \<longrightarrow>
       n < length (tq_reqs s) \<and> rq_case (tq_reqs s ! n) = c \<and> inRun (rq_pc (tq_reqs s ! n)))"
  using site_ok [OF assms(2) serverOk_init [OF assms(1)]] by (simp add: serverOk_def)

text \<open>C40: a verdict that has been given can be lost: of two requests that investigate a case at once, the one that fails
  last marks the case as failed after the other was answered with its verdict; the look-up then finds no
  verdict, and after a restart the next request investigates again.\<close>

definition lateFailure :: "event list" where
  "lateFailure = racingEvents @ [Turn 0 (Fetched (Answer 200 (Some sampleVerdict) [])), Turn 0 (DbWrite 5 None None),
     Turn 1 (Fetched (Rejected ''down'')), Turn 1 (DbWrite 6 None None)]"


end
