(* ===== verification/Triage_Loop.thy ===== *)
theory Triage_Loop
  imports Case_Site Triage_Hook
begin

text \<open>
  A browser page and the server process together: the requests that \<open>useTriage\<close> sends are the requests that the
  triage route serves, and the answers it reads are the route's responses. Messages travel on their own: a
  request may reach the server late or never, an answer may be delivered late, be lost, or arrive after
  the mount, the process or both have changed. The tab may be reloaded from what it wrote to \<open>sessionStorage\<close>; the
  process also serves other browsers. The history of the orchestrator's answers is kept beside the state.
\<close>

section \<open>Reading a response\<close>

text \<open>\<open>r.json() as Promise<TriageVerdict>\<close> is an unchecked cast: \<open>view\<close> is how the typed code sees the value.\<close>

definition postRead :: "(jsval \<Rightarrow> triage_verdict) \<Rightarrow> response \<Rightarrow> post_answer" where
  "postRead view r = (if okStatus (rs_status r) then PostVerdict (view (rs_body r)) else PostStatus (rs_status r))"

definition strField :: "string \<Rightarrow> jsval \<Rightarrow> string option" where
  "strField k b = (case jsField k b of Str x \<Rightarrow> Some x | _ \<Rightarrow> None)"

definition statusRead :: "(jsval \<Rightarrow> triage_verdict) \<Rightarrow> jsval \<Rightarrow> triage_status_response" where
  "statusRead view b =
     \<lparr>sr_status = strField ''status'' b,
      sr_verdict = (let v = jsField ''verdict'' b in if truthy v then Some (view v) else None),
      sr_error = strField ''error'' b\<rparr>"

text \<open>A handler that threw is answered by the framework with a page that is not JSON.\<close>

definition checkRead :: "(jsval \<Rightarrow> triage_verdict) \<Rightarrow> response option \<Rightarrow> triage_status_response option" where
  "checkRead view = map_option (\<lambda>r. statusRead view (rs_body r))"

section \<open>State and steps\<close>

text \<open>\<open>lp_wire\<close> says which request of the server carries which POST of the page; \<open>lp_replies\<close> and \<open>lp_gets\<close> are the
  answers under way; \<open>lp_log\<close> is the history of verdicts the orchestrator gave, each with the case it was asked
  about.\<close>

record loop =
  lp_site :: triage_server
  lp_page :: triage_page
  lp_disk :: case_store
  lp_wire :: "(nat \<times> nat) list"
  lp_replies :: "(nat \<times> post_answer) list"
  lp_gets :: "(nat \<times> triage_status_response option) list"
  lp_log :: "(string \<times> jsval) list"

definition loopInit :: "repo \<Rightarrow> loop" where
  "loopInit r = \<lparr>lp_site = triageInit r, lp_page = emptyPage, lp_disk = [], lp_wire = [], lp_replies = [], lp_gets = [], lp_log = []\<rparr>"

datatype loop_event =
    Local page_event
  | Persist
  | Reload
  | Rehydrate
  | SendPost nat "jsval option"
  | Server event
  | AnswerPost nat
  | DeliverPost nat int
  | LosePost nat "string option" int
  | ServeCheck nat fault fault
  | DeliverCheck nat int
  | LoseCheck nat int
  | Restart

text \<open>What happens in the page without the server: everything but hydration and answers. Only the hook calls
  \<open>setVerdict\<close>.\<close>

fun localEvent :: "page_event \<Rightarrow> bool" where
  "localEvent (Hydrate _) = False"
| "localEvent (CheckAnswers _ _ _) = False"
| "localEvent (PostAnswers _ _ _) = False"
| "localEvent (StoreAction (SetVerdict _ _ _)) = False"
| "localEvent _ = True"

fun givenBy :: "event \<Rightarrow> triage_server \<Rightarrow> (string \<times> jsval) list" where
  "givenBy (Turn n (Fetched f)) s =
     (if n < length (tq_reqs s)
      then case (rq_pc (tq_reqs s ! n), runResult f) of
             (AwaitOrchestrator _, RunData d) \<Rightarrow> [(rq_case (tq_reqs s ! n), d)]
           | _ \<Rightarrow> []
      else [])"
| "givenBy _ s = []"

text \<open>A POST answered with a falsy body is not delivered: such a value is outside the type the store is given.\<close>

definition answerOf :: "(jsval \<Rightarrow> triage_verdict) \<Rightarrow> pc \<Rightarrow> post_answer option" where
  "answerOf view q =
     (case q of
        Done r \<Rightarrow> if okStatus (rs_status r) \<and> \<not> truthy (rs_body r) then None else Some (postRead view r)
      | Crashed \<Rightarrow> Some (PostStatus 500)
      | _ \<Rightarrow> None)"

definition onPage :: "page_event \<Rightarrow> loop \<Rightarrow> loop" where
  "onPage e l = l\<lparr>lp_page := pageStep e (lp_page l)\<rparr>"

fun loopStep :: "(jsval \<Rightarrow> triage_verdict) \<Rightarrow> loop_event \<Rightarrow> loop \<Rightarrow> loop" where
  "loopStep view (Local e) l = (if localEvent e then onPage e l else l)"
| "loopStep view Persist l = l\<lparr>lp_disk := pg_store (lp_page l)\<rparr>"
| "loopStep view Reload l = l\<lparr>lp_page := emptyPage, lp_wire := [], lp_replies := [], lp_gets := []\<rparr>"
| "loopStep view Rehydrate l = onPage (Hydrate (lp_disk l)) l"
| "loopStep view (SendPost k body) l =
     (if k < length (pg_posts (lp_page l)) \<and> k \<notin> fst ` set (lp_wire l)
      then l\<lparr>lp_site := arrive (pq_case (pg_posts (lp_page l) ! k)) body (lp_site l),
             lp_wire := (k, length (tq_reqs (lp_site l))) # lp_wire l\<rparr>
      else l)"
| "loopStep view (Server ev) l =
     l\<lparr>lp_site := serve ev (lp_site l), lp_log := givenBy ev (lp_site l) @ lp_log l\<rparr>"
| "loopStep view (AnswerPost k) l =
     (case map_of (lp_wire l) k of
        None \<Rightarrow> l
      | Some n \<Rightarrow> (case answerOf view (rq_pc (tq_reqs (lp_site l) ! n)) of
            None \<Rightarrow> l
          | Some a \<Rightarrow> l\<lparr>lp_replies := (k, a) # lp_replies l\<rparr>))"
| "loopStep view (DeliverPost k now) l =
     (case map_of (lp_replies l) k of None \<Rightarrow> l | Some a \<Rightarrow> onPage (PostAnswers k a now) l)"
| "loopStep view (LosePost k m now) l = onPage (PostAnswers k (PostThrew m) now) l"
| "loopStep view (ServeCheck k fs fq) l =
     (if k < length (pg_checks (lp_page l))
      then case triageGET (cq_case (pg_checks (lp_page l) ! k)) fs fq (tq_repo (lp_site l)) of
             (resp, r) \<Rightarrow> l\<lparr>lp_site := setRepo r (lp_site l), lp_gets := (k, checkRead view resp) # lp_gets l\<rparr>
      else l)"
| "loopStep view (DeliverCheck k now) l =
     (case map_of (lp_gets l) k of None \<Rightarrow> l | Some d \<Rightarrow> onPage (CheckAnswers k d now) l)"
| "loopStep view (LoseCheck k now) l = onPage (CheckAnswers k None now) l"
| "loopStep view Restart l =
     l\<lparr>lp_site := triageInit ((tq_repo (lp_site l))\<lparr>rp_schema := SchemaUnset\<rparr>), lp_wire := []\<rparr>"

text \<open>The other handlers of the process change nothing but the tables.\<close>

inductive lstep :: "(string \<Rightarrow> int option) \<Rightarrow> (jsval \<Rightarrow> triage_verdict) \<Rightarrow> loop \<Rightarrow> loop \<Rightarrow> bool" for p view where
  event: "lstep p view l (loopStep view e l)"
| other: "sstep p (lp_site l) (setRepo r (lp_site l)) \<Longrightarrow> lstep p view l (l\<lparr>lp_site := setRepo r (lp_site l)\<rparr>)"

lemma loop_reach: "(lstep p view)\<^sup>*\<^sup>* l (fold (loopStep view) es l)"
proof (induction es arbitrary: l)
  case (Cons e es)
  show ?case using converse_rtranclp_into_rtranclp [OF lstep.event Cons.IH] by simp
qed simp

section \<open>Where the server's verdicts come from\<close>

text \<open>\<open>L\<close> is the set of verdicts the orchestrator gave. Every verdict in the tables, in the two maps, in a settled run
  or in a response is one of them, given for that case.\<close>

definition rowsFrom :: "(string \<times> jsval) set \<Rightarrow> repo \<Rightarrow> bool" where
  "rowsFrom L r \<longleftrightarrow> (\<forall>c row. dictGet (rp_cases r) c = Some row \<and> truthy (cr_verdict row) \<longrightarrow> (c, cr_verdict row) \<in> L)"

fun recorded :: "(string \<times> jsval) set \<Rightarrow> repo_op \<Rightarrow> bool" where
  "recorded L (MarkComplete i v t fs fq) = ((i, v) \<in> L)"
| "recorded L _ = True"

lemma rowsFrom_upsert: "rowsFrom L r \<Longrightarrow> rowsFrom L (snd (upsertCaseSnapshot i tn ev b dt t fs fq r))"
  unfolding upsertCaseSnapshot_def
  by (rule dbStatement_inv [where P = "rowsFrom L"]) (auto simp: rowsFrom_def dictGet_put insertedCase_def split: option.splits if_splits)

lemma rowsFrom_update:
  assumes "rowsFrom L r"
    and "\<And>row. truthy (cr_verdict (f row)) \<Longrightarrow> cr_verdict (f row) = cr_verdict row \<or> (i, cr_verdict (f row)) \<in> L"
  shows "rowsFrom L (snd (updateCase i f fs fq r))"
  unfolding updateCase_def
proof (rule dbStatement_inv [where P = "rowsFrom L", OF assms(1)])
  fix s :: repo assume "rp_cases s = rp_cases r"
  then show s: "rowsFrom L s" using assms(1) by (simp add: rowsFrom_def)
  show "rowsFrom L (snd (Inr (), case dictGet (rp_cases s) i of None \<Rightarrow> s
      | Some row \<Rightarrow> s\<lparr>rp_cases := dictPut i (f row) (rp_cases s)\<rparr>))"
    using s assms(2) by (fastforce simp: rowsFrom_def dictGet_put split: option.splits if_splits)
qed

lemma stored_from: "truthy (nullish v Null) \<Longrightarrow> (i, v) \<in> L \<Longrightarrow> (i, nullish v Null) \<in> L"
  by (cases v) simp_all

lemma rowsFrom_tables: "rp_cases s = rp_cases r \<Longrightarrow> rowsFrom L s = rowsFrom L r"
  by (simp add: rowsFrom_def)

interpretation verdict_rows: table_invariant "rowsFrom L" "recorded L" p for L p
proof unfold_locales
  fix op r assume "recorded L op" "rowsFrom L r"
  then show "rowsFrom L (repoStep p op r)"
    by (cases op) (auto simp: rowsFrom_upsert rowsFrom_tables [OF append_cases] markTriageRunning_def markTriageComplete_def
        markTriageFailed_def intro!: rowsFrom_update stored_from)
qed (simp_all add: rowsFrom_def)

fun pcFrom :: "(string \<times> jsval) set \<Rightarrow> string \<Rightarrow> pc \<Rightarrow> bool" where
  "pcFrom L c (AwaitComplete d) = ((c, d) \<in> L)"
| "pcFrom L c (Done r) = (okStatus (rs_status r) \<longrightarrow> (c, rs_body r) \<in> L)"
| "pcFrom L c _ = True"

definition siteFrom :: "(string \<times> jsval) set \<Rightarrow> triage_server \<Rightarrow> bool" where
  "siteFrom L s \<longleftrightarrow> rowsFrom L (tq_repo s) \<and> (\<forall>c d. dictGet (tq_cache s) c = Some d \<longrightarrow> (c, d) \<in> L) \<and>
     (\<forall>n d. tq_runs s n = RunData d \<longrightarrow> n < length (tq_reqs s) \<and> (rq_case (tq_reqs s ! n), d) \<in> L) \<and>
     list_all (\<lambda>q. pcFrom L (rq_case q) (rq_pc q)) (tq_reqs s)"

lemma pcFrom_mono: "pcFrom L c q \<Longrightarrow> L \<subseteq> M \<Longrightarrow> pcFrom M c q"
  by (cases q) auto

lemma siteFrom_mono: "siteFrom L s \<Longrightarrow> L \<subseteq> M \<Longrightarrow> siteFrom M s"
  unfolding siteFrom_def rowsFrom_def list_all_iff by (blast intro: pcFrom_mono)

lemma siteFrom_repo: "siteFrom L s \<Longrightarrow> rowsFrom L r \<Longrightarrow> siteFrom L (setRepo r s)"
  by (simp add: siteFrom_def)

lemma siteFrom_pc: "siteFrom L s \<Longrightarrow> pcFrom L (rq_case (tq_reqs s ! n)) q \<Longrightarrow> siteFrom L (setPc n q s)"
  by (cases "n < length (tq_reqs s)")
    (auto simp: siteFrom_def setPc_def list_all_update nth_list_update list_update_beyond)

lemma siteFrom_maps:
  "siteFrom L (registerRun c n s) = siteFrom L s" "siteFrom L (dropRun c s) = siteFrom L s"
  by (simp_all add: siteFrom_def registerRun_def dropRun_def)

lemma siteFrom_cache: "siteFrom L s \<Longrightarrow> (c, d) \<in> L \<Longrightarrow> siteFrom L (cacheResult c d s)"
  by (auto simp: siteFrom_def cacheResult_def dictGet_put)

lemma siteFrom_settle:
  assumes "siteFrom L s" "\<And>d. res = RunData d \<Longrightarrow> n < length (tq_reqs s) \<and> (rq_case (tq_reqs s ! n), d) \<in> L"
  shows "siteFrom L (settleRun n res s)"
  using assms by (auto simp: siteFrom_def settleRun_def)

lemma pcFrom_start:
  assumes "siteFrom L s" "\<And>r. row = Some r \<Longrightarrow> truthy (cr_verdict r) \<Longrightarrow> (c, cr_verdict r) \<in> L"
  shows "pcFrom L c (startTurn c al row s)"
  using assms
  by (auto simp: startTurn_def persistedVerdict_def cachedVerdict_def siteFrom_def respond_def Let_def split: option.splits if_splits)

lemma pcFrom_first: "pcFrom L c (firstTurn body)"
  by (auto simp: firstTurn_def respond_def okStatus_def split: option.splits)

lemma siteFrom_arrive: "siteFrom L s \<Longrightarrow> siteFrom L (arrive c body s)"
  by (auto simp: siteFrom_def arrive_def pcFrom_first nth_append intro: less_SucI)

lemmas siteFrom_intros = siteFrom_repo siteFrom_pc siteFrom_cache siteFrom_settle

text \<open>A turn keeps the provenance, given that an answer of the orchestrator is on record.\<close>

lemma siteFrom_turn:
  assumes t: "turn n c q inp s = Some s'" and ok: "serverOk s" and from_L: "siteFrom L s" and n: "n < length (tq_reqs s)"
    and c: "rq_case (tq_reqs s ! n) = c" and q: "rq_pc (tq_reqs s ! n) = q"
    and given: "\<And>a f d. q = AwaitOrchestrator a \<Longrightarrow> inp = Fetched f \<Longrightarrow> runResult f = RunData d \<Longrightarrow> (c, d) \<in> L"
  shows "siteFrom L s'"
proof -
  have rows: "rowsFrom L (tq_repo s)" and here: "pcFrom L c q"
    using from_L n c q by (auto simp: siteFrom_def list_all_length)
  have marks: "rowsFrom L (snd (markTriageRunning c t fs fq (tq_repo s)))" "rowsFrom L (snd (markTriageFailed c m t fs fq (tq_repo s)))"
    "(c, d) \<in> L \<Longrightarrow> rowsFrom L (snd (markTriageComplete c d t fs fq (tq_repo s)))" for t fs fq m d
    using verdict_rows.statement [OF _ rows, of "MarkRunning c t fs fq"] verdict_rows.statement [OF _ rows, of "MarkFailed c m t fs fq"]
      verdict_rows.statement [OF _ rows, of "MarkComplete c d t fs fq"] by simp_all
  from t show ?thesis
  proof (cases "(n, c, q, inp, s)" rule: turn.cases)
    case (1 n c al fs fq s)
    have "dictGet (rp_cases (tq_repo s)) c = row" if "getCase c fs fq (tq_repo s) = (Inr row, r)" for row r
      using that schema_cases by (fastforce simp: getCase_def dbStatement_Inr)
    then have "pcFrom L c (startTurn c al row s)" if "getCase c fs fq (tq_repo s) = (Inr row, r)" for row r
      using that rows from_L 1 by (intro pcFrom_start) (auto simp: rowsFrom_def)
    then show ?thesis using 1 t c from_L verdict_rows.getCase_keeps [OF rows, of c fs fq]
      by (auto intro!: siteFrom_intros split: prod.splits sum.splits)
  next
    case (3 n c a t fs fq s)
    then show ?thesis using assms verdict_rows.upsert_keeps [OF rows, of c None "Obj a" Null Undef t fs fq]
      by (auto simp: siteFrom_maps intro!: siteFrom_intros split: prod.splits sum.splits)
  next
    case (4 n c a t fs fq s)
    then show ?thesis using assms marks(1) [of t fs fq]
      by (auto intro!: siteFrom_intros split: prod.splits sum.splits)
  next
    case (6 n c d t fs fq s)
    then show ?thesis using assms marks(3) [of d t fs fq] here
      by (auto simp: siteFrom_maps respond_def intro!: siteFrom_intros split: prod.splits sum.splits)
  next
    case (7 n c m t fs fq s)
    then show ?thesis using assms marks(2) [of m t fs fq]
      by (auto simp: siteFrom_maps respond_def okStatus_def intro!: siteFrom_intros split: prod.splits sum.splits)
  next
    case (8 n c m s)
    have "m < length (tq_reqs s)" "rq_case (tq_reqs s ! m) = c"
      using ok n c q 8 by (auto simp: serverOk_def)
    then have "tq_runs s m = RunData d \<Longrightarrow> (c, d) \<in> L" for d using from_L 8 by (auto simp: siteFrom_def)
    then show ?thesis using assms 8
      by (auto simp: respond_def okStatus_def intro!: siteFrom_pc split: run_result.splits)
  qed (use assms in \<open>auto intro!: siteFrom_intros split: run_result.splits\<close>)
qed

lemma siteFrom_serve:
  assumes "serverOk s" "siteFrom L s"
  shows "siteFrom (set (givenBy ev s) \<union> L) (serve ev s)"
proof (cases ev)
  case (Turn n inp)
  let ?M = "set (givenBy ev s) \<union> L"
  show ?thesis
  proof (cases "advance n inp s")
    case (Some s')
    then have n: "n < length (tq_reqs s)" and t: "turn n (rq_case (tq_reqs s ! n)) (rq_pc (tq_reqs s ! n)) inp s = Some s'"
      by (auto simp: advance_def split: if_splits)
    have "siteFrom ?M s" using assms(2) by (rule siteFrom_mono) blast
    from siteFrom_turn [OF t assms(1) this n refl refl] show ?thesis using Some n by (simp add: Turn)
  qed (use siteFrom_mono [OF assms(2), of ?M] Turn in simp)
qed (use assms siteFrom_arrive in simp)

lemma serverOk_serve: "serverOk s \<Longrightarrow> serverOk (serve ev s)"
  using reach_ok [OF serve_reach [of s "[ev]"]] by simp

text \<open>Requests keep their case, and the table of requests only grows until a restart.\<close>

lemma map_prefix_nth:
  assumes "map f ys = map f xs @ zs"
  shows "length xs \<le> length ys \<and> (\<forall>n < length xs. f (ys ! n) = f (xs ! n))"
proof -
  have len: "length ys = length xs + length zs" using arg_cong [OF assms, of length] by simp
  moreover have "f (ys ! n) = f (xs ! n)" if "n < length xs" for n
    using arg_cong [OF assms, of "\<lambda>l. l ! n"] that len by (simp add: nth_append)
  ultimately show ?thesis by simp
qed

lemma serve_reqs:
  "length (tq_reqs s) \<le> length (tq_reqs (serve ev s)) \<and>
   (\<forall>n < length (tq_reqs s). rq_case (tq_reqs (serve ev s) ! n) = rq_case (tq_reqs s ! n))"
proof -
  have "\<exists>xs. map rq_case (tq_reqs (serve ev s)) = map rq_case (tq_reqs s) @ xs"
  proof (cases ev)
    case (Turn m inp)
    then show ?thesis
      by (auto simp: advance_def map_update_same split: option.splits if_splits dest!: turn_moves)
  qed (simp add: arrive_def)
  then show ?thesis by (blast dest: map_prefix_nth)
qed

lemma siteFrom_other:
  assumes "sstep p s (setRepo r s)" "siteFrom L s"
  shows "siteFrom L (setRepo r s)"
proof -
  have rows: "rowsFrom L (tq_repo s)" using assms(2) by (simp add: siteFrom_def)
  have same: "r = r'" if "setRepo r s = setRepo r' s" for r' using arg_cong [OF that, of tq_repo] by simp
  from assms(1) have "rowsFrom L r"
  proof (rule sstepE)
    assume "tstep s (setRepo r s)"
    then show ?thesis
    proof (rule tstepE)
      fix c body assume "setRepo r s = arrive c body s"
      then have "length (tq_reqs (setRepo r s)) = length (tq_reqs (arrive c body s))" by simp
      then show ?thesis by (simp add: arrive_def)
    next
      fix n inp assume a: "advance n inp s = Some (setRepo r s)"
      then have n: "n < length (tq_reqs s)" by (simp add: advance_def split: if_splits)
      then have "turn n (rq_case (tq_reqs s ! n)) (rq_pc (tq_reqs s ! n)) inp s = Some (setRepo r s)" using a by (simp add: advance_def)
      from turn_moves [OF this] obtain q where q: "tq_reqs (setRepo r s) = (tq_reqs s)[n := (tq_reqs s ! n)\<lparr>rq_pc := q\<rparr>]"
        "rank q < rank (rq_pc (tq_reqs s ! n))" by blast
      from arg_cong [OF q(1), of "\<lambda>xs. rq_pc (xs ! n)"] n have "rq_pc (tq_reqs s ! n) = q" by simp
      then show ?thesis using q(2) by simp
    qed
  next
    assume "setRepo r s = triageInit ((tq_repo s)\<lparr>rp_schema := SchemaUnset\<rparr>)"
    from arg_cong [OF this, of tq_repo] have "r = (tq_repo s)\<lparr>rp_schema := SchemaUnset\<rparr>" by (simp add: triageInit_def)
    then show ?thesis using rows by (simp add: rowsFrom_def)
  qed (auto dest!: same intro: verdict_rows.handlers_keep [OF rows])
  with assms(2) show ?thesis by (rule siteFrom_repo)
qed

section \<open>Where the page's verdicts come from\<close>

definition seen :: "(jsval \<Rightarrow> triage_verdict) \<Rightarrow> (string \<times> jsval) set \<Rightarrow> string \<Rightarrow> triage_verdict \<Rightarrow> bool" where
  "seen view L c v \<longleftrightarrow> (\<exists>d. (c, d) \<in> L \<and> v = view d)"

definition storeFrom :: "(jsval \<Rightarrow> triage_verdict) \<Rightarrow> (string \<times> jsval) set \<Rightarrow> case_store \<Rightarrow> bool" where
  "storeFrom view L cases \<longleftrightarrow> (\<forall>c v. selectVerdict c cases = Some v \<longrightarrow> seen view L c v)"

lemma storeFrom_less:
  "storeFrom view L s \<Longrightarrow> (\<And>c v. selectVerdict c s' = Some v \<Longrightarrow> selectVerdict c s = Some v) \<Longrightarrow> storeFrom view L s'"
  by (simp add: storeFrom_def)

lemma storeFrom_setVerdict: "storeFrom view L s \<Longrightarrow> seen view L c v \<Longrightarrow> storeFrom view L (setVerdict c v now s)"
  by (auto simp: storeFrom_def selectVerdict_def setVerdict_def updateEntry_get split: option.splits if_splits)

lemma selectVerdict_update:
  "(\<And>e. ce_verdict (f e) = ce_verdict e) \<Longrightarrow> selectVerdict c (updateEntry i f s) = selectVerdict c s"
  by (auto simp: selectVerdict_def updateEntry_get split: option.splits)

lemma selectVerdict_keeps:
  "selectVerdict c (startTriage i t t' s) = selectVerdict c s" "selectVerdict c (failTriage i m t s) = selectVerdict c s"
  "selectVerdict c (appendTraceStep i st t s) = selectVerdict c s" "selectVerdict c (clearTraceSteps i t s) = selectVerdict c s"
  "selectVerdict c (setApproved i t s) = selectVerdict c s" "selectVerdict c (setOverride i w t s) = selectVerdict c s"
  by (simp_all add: startTriage_def failTriage_def appendTraceStep_alt clearTraceSteps_def setApproved_def setOverride_def
      selectVerdict_update split: option.splits)

lemma selectVerdict_del: "selectVerdict c (dictDel k s) = Some v \<Longrightarrow> selectVerdict c s = Some v"
  by (auto simp: selectVerdict_def dictGet_del split: option.splits if_splits)

lemma selectVerdict_init: "selectVerdict c (initCase i ev b t s) = Some v \<Longrightarrow> selectVerdict c s = Some v"
proof -
  assume v: "selectVerdict c (initCase i ev b t s) = Some v"
  have "selectVerdict c (evictIfNeeded s i) = Some v \<Longrightarrow> selectVerdict c s = Some v"
    by (auto simp: evictIfNeeded_def dest: selectVerdict_del split: list.splits if_splits)
  with v show ?thesis
    by (auto simp: initCase_def Let_def selectVerdict_def dictGet_put initEntry_def split: option.splits if_splits)
qed

lemma storeFrom_caseStep: "localEvent (StoreAction op) \<Longrightarrow> storeFrom view L s \<Longrightarrow> storeFrom view L (caseStep op s)"
  by (cases op) (auto simp: selectVerdict_keeps evict_def elim!: storeFrom_less dest: selectVerdict_init selectVerdict_del)

lemma fireEffect_verdicts: "selectVerdict c (pg_store (fireEffect i now t1 t2 p)) = selectVerdict c (pg_store p)"
  by (auto simp: fireEffect_def fireBody_def Let_def selectVerdict_keeps)

lemma storeFrom_local: "localEvent e \<Longrightarrow> storeFrom view L (pg_store p) \<Longrightarrow> storeFrom view L (pg_store (pageStep e p))"
  by (cases e) (auto simp: storeFrom_caseStep fireEffect_verdicts elim: storeFrom_less)

text \<open>Requests of the page keep their case, and until a reload the list of requests only grows.\<close>

lemma detach_requests:
  "map pq_case (pg_posts (detachPost k p)) = map pq_case (pg_posts p)" "pg_checks (detachPost k p) = pg_checks p"
  "map cq_case (pg_checks (detachCheck k p)) = map cq_case (pg_checks p)"
  by (simp_all add: detachPost_def detachCheck_def map_update_same split: option.splits)

lemma fireEffect_requests:
  "\<exists>xs. map pq_case (pg_posts (fireEffect i now t1 t2 p)) = map pq_case (pg_posts p) @ xs"
  "pg_checks (fireEffect i now t1 t2 p) = pg_checks p"
  by (simp_all add: fireEffect_def fireBody_alt sendPost_def Let_def detach_requests)

lemma checkEffect_requests: "\<exists>xs. map cq_case (pg_checks (checkEffect i p)) = map cq_case (pg_checks p) @ xs"
  by (simp add: checkEffect_def detachCheck_def Let_def map_update_same split: option.splits)

lemma answered_requests:
  "map pq_case (pg_posts (checkAnswered k d now p)) = map pq_case (pg_posts p)"
  "map cq_case (pg_checks (checkAnswered k d now p)) = map cq_case (pg_checks p)"
  "map pq_case (pg_posts (postAnswered k a now p)) = map pq_case (pg_posts p)"
  "pg_checks (postAnswered k a now p) = pg_checks p"
  by (simp_all add: checkAnswered_def postAnswered_def Let_def map_update_same split: option.splits post_answer.splits)

lemma page_posts:
  "length (pg_posts p) \<le> length (pg_posts (pageStep e p)) \<and>
   (\<forall>k < length (pg_posts p). pq_case (pg_posts (pageStep e p) ! k) = pq_case (pg_posts p ! k))"
proof -
  have "\<exists>xs. map pq_case (pg_posts (pageStep e p)) = map pq_case (pg_posts p) @ xs"
  proof (cases e)
    case (Render i now t1 t2)
    then show ?thesis using fireEffect_requests(1) [of i now t1 t2 "checkEffect i p"] by simp
  qed (simp_all add: answered_requests detach_requests)
  then show ?thesis by (blast dest: map_prefix_nth)
qed

lemma page_checks:
  "length (pg_checks p) \<le> length (pg_checks (pageStep e p)) \<and>
   (\<forall>k < length (pg_checks p). cq_case (pg_checks (pageStep e p) ! k) = cq_case (pg_checks p ! k))"
proof -
  have "\<exists>xs. map cq_case (pg_checks (pageStep e p)) = map cq_case (pg_checks p) @ xs"
  proof (cases e)
    case (Render i now t1 t2)
    then show ?thesis using checkEffect_requests [of i p] by (simp add: fireEffect_requests)
  qed (simp_all add: answered_requests detach_requests)
  then show ?thesis by (blast dest: map_prefix_nth)
qed

section \<open>The joint invariant\<close>

text \<open>What is under way agrees with both ends: a POST is carried by a request for its own case, and an answer under
  way brings a verdict the orchestrator gave for the case that was asked about.\<close>

definition wireOk :: "triage_server \<Rightarrow> triage_page \<Rightarrow> (nat \<times> nat) list \<Rightarrow> bool" where
  "wireOk s p wire \<longleftrightarrow> (\<forall>(k, n) \<in> set wire. k < length (pg_posts p) \<and> n < length (tq_reqs s) \<and>
     pq_case (pg_posts p ! k) = rq_case (tq_reqs s ! n))"

definition repliesOk :: "(string \<Rightarrow> triage_verdict \<Rightarrow> bool) \<Rightarrow> triage_page \<Rightarrow> (nat \<times> post_answer) list \<Rightarrow> bool" where
  "repliesOk ok p replies \<longleftrightarrow> (\<forall>(k, a) \<in> set replies. k < length (pg_posts p) \<and>
     (\<forall>v. a = PostVerdict v \<longrightarrow> ok (pq_case (pg_posts p ! k)) v))"

definition getsOk :: "(string \<Rightarrow> triage_verdict \<Rightarrow> bool) \<Rightarrow> triage_page \<Rightarrow> (nat \<times> triage_status_response option) list \<Rightarrow> bool" where
  "getsOk ok p gets \<longleftrightarrow> (\<forall>(k, a) \<in> set gets. k < length (pg_checks p) \<and>
     (\<forall>d v. a = Some d \<and> sr_verdict d = Some v \<longrightarrow> ok (cq_case (pg_checks p ! k)) v))"

definition loopOk :: "(jsval \<Rightarrow> triage_verdict) \<Rightarrow> loop \<Rightarrow> bool" where
  "loopOk view l \<longleftrightarrow> serverOk (lp_site l) \<and> siteFrom (set (lp_log l)) (lp_site l) \<and>
     storeFrom view (set (lp_log l)) (pg_store (lp_page l)) \<and> storeFrom view (set (lp_log l)) (lp_disk l) \<and>
     wireOk (lp_site l) (lp_page l) (lp_wire l) \<and> repliesOk (seen view (set (lp_log l))) (lp_page l) (lp_replies l) \<and>
     getsOk (seen view (set (lp_log l))) (lp_page l) (lp_gets l)"

lemma wireOk_page: "wireOk s p wire \<Longrightarrow> wireOk s (pageStep e p) wire"
  using page_posts [of p e] by (fastforce simp: wireOk_def)

lemma wireOk_serve: "wireOk s p wire \<Longrightarrow> wireOk (serve ev s) p wire"
  using serve_reqs [of s ev] by (fastforce simp: wireOk_def)

lemma repliesOk_page: "repliesOk ok p replies \<Longrightarrow> repliesOk ok (pageStep e p) replies"
  using page_posts [of p e] by (fastforce simp: repliesOk_def)

lemma getsOk_page: "getsOk ok p gets \<Longrightarrow> getsOk ok (pageStep e p) gets"
  using page_checks [of p e] by (fastforce simp: getsOk_def)

lemma onPage_ok:
  assumes "loopOk view l" "storeFrom view (set (lp_log l)) (pg_store (pageStep e (lp_page l)))"
  shows "loopOk view (onPage e l)"
  using assms by (simp add: loopOk_def onPage_def wireOk_page repliesOk_page getsOk_page)

lemma seenI: "(c, d) \<in> L \<Longrightarrow> seen view L c (view d)"
  by (auto simp: seen_def)

lemma seen_mono: "seen view L c v \<Longrightarrow> L \<subseteq> M \<Longrightarrow> seen view M c v"
  by (auto simp: seen_def)

lemma views_mono:
  assumes "L \<subseteq> M"
  shows "storeFrom view L s \<Longrightarrow> storeFrom view M s" "repliesOk (seen view L) p rs \<Longrightarrow> repliesOk (seen view M) p rs"
    "getsOk (seen view L) p gs \<Longrightarrow> getsOk (seen view M) p gs"
  using seen_mono [OF _ assms] by (fastforce simp: storeFrom_def repliesOk_def getsOk_def)+

text \<open>Delivering an answer writes no verdict but the one it brings, and writes it to the case that was asked about.\<close>

lemma deliver_post:
  assumes "storeFrom view L (pg_store p)" "\<And>v. a = PostVerdict v \<Longrightarrow> seen view L (pq_case (pg_posts p ! k)) v"
  shows "storeFrom view L (pg_store (pageStep (PostAnswers k a now) p))"
  using assms by (cases a) (auto simp: postAnswered_def Let_def storeFrom_setVerdict selectVerdict_keeps elim: storeFrom_less)

lemma deliver_check:
  assumes "storeFrom view L (pg_store p)"
    and "\<And>d v. a = Some d \<Longrightarrow> sr_verdict d = Some v \<Longrightarrow> seen view L (cq_case (pg_checks p ! k)) v"
  shows "storeFrom view L (pg_store (pageStep (CheckAnswers k a now) p))"
  using assms
  by (auto simp: checkAnswered_def Let_def storeFrom_setVerdict selectVerdict_keeps elim: storeFrom_less split: option.splits)

text \<open>What the server answers.\<close>

lemma answerOf_from:
  assumes "pcFrom L c q" "answerOf view q = Some (PostVerdict v)"
  shows "seen view L c v"
  using assms by (cases q) (auto simp: answerOf_def postRead_def seen_def split: if_splits)

lemma triageGET_from:
  assumes "rowsFrom L r" "checkRead view (fst (triageGET c fs fq r)) = Some d" "sr_verdict d = Some v"
  shows "seen view L c v"
proof -
  have "dictGet (rp_cases r) c = row" if "getCase c fs fq r = (Inr row, r')" for row r'
    using that schema_cases by (fastforce simp: getCase_def dbStatement_Inr)
  with assms show ?thesis
    by (auto simp: triageGET_def checkRead_def statusRead_def respond_def rowsFrom_def Let_def dictGet_def intro!: seenI
        split: prod.splits sum.splits option.splits if_splits)
qed

lemma loopOk_parts:
  assumes "loopOk view l"
  shows "serverOk (lp_site l)" "siteFrom (set (lp_log l)) (lp_site l)" "storeFrom view (set (lp_log l)) (pg_store (lp_page l))"
    "storeFrom view (set (lp_log l)) (lp_disk l)" "wireOk (lp_site l) (lp_page l) (lp_wire l)"
    "repliesOk (seen view (set (lp_log l))) (lp_page l) (lp_replies l)" "getsOk (seen view (set (lp_log l))) (lp_page l) (lp_gets l)"
  using assms by (simp_all add: loopOk_def)

text \<open>The page's own steps and the deliveries.\<close>

lemma page_side_ok:
  assumes ok: "loopOk view l"
  shows "localEvent ev \<Longrightarrow> loopOk view (onPage ev l)" "loopOk view (onPage (Hydrate (lp_disk l)) l)"
    "map_of (lp_replies l) k = Some a \<Longrightarrow> loopOk view (onPage (PostAnswers k a now) l)"
    "loopOk view (onPage (PostAnswers k (PostThrew m) now) l)"
    "map_of (lp_gets l) k = Some d \<Longrightarrow> loopOk view (onPage (CheckAnswers k d now) l)"
    "loopOk view (onPage (CheckAnswers k None now) l)"
proof -
  note parts = loopOk_parts [OF ok]
  show "localEvent ev \<Longrightarrow> loopOk view (onPage ev l)" by (intro onPage_ok [OF ok] storeFrom_local parts(3))
  show "loopOk view (onPage (Hydrate (lp_disk l)) l)" using parts(3,4) by (intro onPage_ok [OF ok]) simp
  show "map_of (lp_replies l) k = Some a \<Longrightarrow> loopOk view (onPage (PostAnswers k a now) l)"
    using parts(3,6) by (auto intro!: onPage_ok [OF ok] deliver_post simp: repliesOk_def simp del: pageStep.simps dest!: map_of_SomeD)
  show "loopOk view (onPage (PostAnswers k (PostThrew m) now) l)"
    by (intro onPage_ok [OF ok] deliver_post parts(3)) simp
  show "map_of (lp_gets l) k = Some d \<Longrightarrow> loopOk view (onPage (CheckAnswers k d now) l)"
    using parts(3,7) by (auto intro!: onPage_ok [OF ok] deliver_check simp: getsOk_def simp del: pageStep.simps dest!: map_of_SomeD)
  show "loopOk view (onPage (CheckAnswers k None now) l)"
    by (intro onPage_ok [OF ok] deliver_check parts(3)) simp
qed

lemma answerPost_ok:
  assumes ok: "loopOk view l" and n: "map_of (lp_wire l) k = Some n" and a: "answerOf view (rq_pc (tq_reqs (lp_site l) ! n)) = Some a"
  shows "loopOk view (l\<lparr>lp_replies := (k, a) # lp_replies l\<rparr>)"
proof -
  note parts = loopOk_parts [OF ok]
  have w: "k < length (pg_posts (lp_page l))" "n < length (tq_reqs (lp_site l))"
    "pq_case (pg_posts (lp_page l) ! k) = rq_case (tq_reqs (lp_site l) ! n)"
    using parts(5) map_of_SomeD [OF n] by (auto simp: wireOk_def)
  have "pcFrom (set (lp_log l)) (rq_case (tq_reqs (lp_site l) ! n)) (rq_pc (tq_reqs (lp_site l) ! n))"
    using parts(2) w(2) by (simp add: siteFrom_def list_all_length)
  then have "seen view (set (lp_log l)) (pq_case (pg_posts (lp_page l) ! k)) v" if "a = PostVerdict v" for v
    using answerOf_from a that w(3) by auto
  then show ?thesis using ok w(1) by (simp add: loopOk_def repliesOk_def)
qed

lemma serveCheck_ok:
  assumes ok: "loopOk view l" and k: "k < length (pg_checks (lp_page l))"
    and g: "triageGET (cq_case (pg_checks (lp_page l) ! k)) fs fq (tq_repo (lp_site l)) = (resp, r)"
  shows "loopOk view (l\<lparr>lp_site := setRepo r (lp_site l), lp_gets := (k, checkRead view resp) # lp_gets l\<rparr>)"
proof -
  let ?s = "lp_site l" and ?c = "cq_case (pg_checks (lp_page l) ! k)"
  note parts = loopOk_parts [OF ok]
  then have rows: "rowsFrom (set (lp_log l)) (tq_repo ?s)" "repoOk (tq_repo ?s)" by (simp_all add: siteFrom_def serverOk_def)
  have "siteFrom (set (lp_log l)) (setRepo r ?s)" "serverOk (setRepo r ?s)"
    using verdict_rows.triageGET_keeps [OF rows(1), of ?c fs fq] tables_ok.triageGET_keeps [OF rows(2), of ?c fs fq]
      siteFrom_repo [OF parts(2)] serverOk_setRepo [OF parts(1)] g by simp_all
  then show ?thesis using ok k g triageGET_from [OF rows(1), of view ?c fs fq]
    by (auto simp: loopOk_def getsOk_def wireOk_def)
qed

lemma server_ok:
  assumes ok: "loopOk view l"
  shows "loopOk view (loopStep view (Server ev) l)"
proof -
  let ?L = "set (lp_log l)" and ?M = "set (givenBy ev (lp_site l) @ lp_log l)"
  have "?L \<subseteq> ?M" by auto
  from views_mono [OF this, of view] show ?thesis using ok siteFrom_serve [of "lp_site l" ?L ev]
    by (simp add: loopOk_def serverOk_serve wireOk_serve)
qed

lemma loopStep_ok:
  assumes ok: "loopOk view l"
  shows "loopOk view (loopStep view e l)"
proof (cases e)
  case (Server ev)
  then show ?thesis using server_ok [OF ok] by simp
next
  case Reload
  then show ?thesis using ok
    by (simp add: loopOk_def emptyPage_def wireOk_def repliesOk_def getsOk_def storeFrom_def selectVerdict_def dictGet_def)
next
  case (SendPost k body)
  then show ?thesis using ok
    by (auto simp: loopOk_def serverOk_arrive siteFrom_arrive wireOk_def) (auto simp: arrive_def nth_append less_SucI)
next
  case Restart
  have "serverOk (triageInit ((tq_repo (lp_site l))\<lparr>rp_schema := SchemaUnset\<rparr>))"
    by (intro serverOk_init) (use ok in \<open>simp add: loopOk_def serverOk_def repoOk_def\<close>)
  then show ?thesis using ok Restart
    by (simp add: loopOk_def siteFrom_def triageInit_def rowsFrom_def wireOk_def dictGet_def)
next
  case Persist
  then show ?thesis using ok by (simp add: loopOk_def)
qed (use ok in \<open>auto simp: page_side_ok answerPost_ok serveCheck_ok split: option.splits prod.splits\<close>)

lemma lstep_ok: "lstep p view l l' \<Longrightarrow> loopOk view l \<Longrightarrow> loopOk view l'"
proof (induction rule: lstep.induct)
  case (event l e)
  then show ?case by (rule loopStep_ok)
next
  case (other l r)
  then have "serverOk (setRepo r (lp_site l))" "siteFrom (set (lp_log l)) (setRepo r (lp_site l))"
    using sstep_ok siteFrom_other by (auto simp: loopOk_def)
  then show ?case using other by (simp add: loopOk_def wireOk_def)
qed

lemma loop_ok: "(lstep p view)\<^sup>*\<^sup>* l l' \<Longrightarrow> loopOk view l \<Longrightarrow> loopOk view l'"
  by (induction rule: rtranclp_induct) (auto intro: lstep_ok)

lemma loopInit_ok: "repoOk r \<Longrightarrow> (\<forall>c row. dictGet (rp_cases r) c = Some row \<longrightarrow> \<not> truthy (cr_verdict row)) \<Longrightarrow> loopOk view (loopInit r)"
  using serverOk_init [of r]
  by (simp add: loopOk_def loopInit_def siteFrom_def rowsFrom_def triageInit_def emptyPage_def wireOk_def repliesOk_def getsOk_def
      storeFrom_def selectVerdict_def dictGet_def)

section \<open>A case opened\<close>

text \<open>An analyst opens a case the server has not seen: the page asks for its state, hears that it is missing, sends
  the POST, and the server investigates.\<close>

definition openEvents :: "string \<Rightarrow> int \<Rightarrow> loop_event list" where
  "openEvents c t = [Rehydrate, Local (MountHook c (Some 0)), Local (StoreAction (InitCase c sampleEvent None t)),
     Local (Render 0 t t t), ServeCheck 0 None None, DeliverCheck 0 t, Local (Render 0 t t t), Local (Render 0 t t t)]"

definition investigateEvents :: "string \<Rightarrow> jsval \<Rightarrow> fetched \<Rightarrow> nat \<Rightarrow> jsval \<Rightarrow> string \<Rightarrow> int \<Rightarrow> loop_event list" where
  "investigateEvents c body fb st d txt t =
     SendPost 0 (Some body) # map Server (tl (startEvents 0 c (Some body) fb t t) @
       [Turn 0 (Fetched (Answer st (Some d) txt)), Turn 0 (DbWrite t None None)]) @ [AnswerPost 0, DeliverPost 0 t]"

lemma missing_check:
  "sr_verdict d = None \<Longrightarrow> sr_status d \<noteq> Some ''failed'' \<Longrightarrow> checkAnswered k (Some d) now p = checkAnswered k None now p"
  by (simp add: checkAnswered_def Let_def)

lemma open_first:
  "fold pageStep (take 4 (openCase c t)) emptyPage = p \<Longrightarrow> length (pg_checks p) = 1 \<and> cq_case (pg_checks p ! 0) = c \<and> cq_pending (pg_checks p ! 0)"
  by (auto simp: openCase_def page_eval numeral_eq_Suc)

lemma open_page:
  assumes "rp_schema r = SchemaReady" "dictGet (rp_cases r) c = None"
  shows "\<exists>gets. fold (loopStep view) (openEvents c t) (loopInit r) =
    (loopInit r)\<lparr>lp_page := pageRun (openCase c t), lp_gets := gets\<rparr>"
proof -
  define p where "p = fold pageStep (take 4 (openCase c t)) emptyPage"
  let ?d = "statusRead view (Obj [(''status'', Str ''missing''), (''verdict'', Null)])"
  have p: "length (pg_checks p) = 1" "cq_case (pg_checks p ! 0) = c" "cq_pending (pg_checks p ! 0)"
    using open_first [OF p_def [symmetric]] by simp_all
  have get: "triageGET c None None r = (Some (respond 200 (Obj [(''status'', Str ''missing''), (''verdict'', Null)])), r)"
    using assms by (simp add: triageGET_def ready_statements(1))
  have d: "checkAnswered 0 (Some ?d) t q = checkAnswered 0 None t q" for q
    by (rule missing_check) (simp_all add: statusRead_def strField_def dictGet_def)
  have run: "pageRun (openCase c t) = pageStep (Render 0 t t t) (pageStep (Render 0 t t t) (checkAnswered 0 None t p))"
    using p by (simp add: pageRun_def p_def openCase_def numeral_eq_Suc del: pageStep.simps(4))
  have "fold (loopStep view) (take 4 (openEvents c t)) (loopInit r) = (loopInit r)\<lparr>lp_page := p\<rparr>"
    by (simp add: openEvents_def onPage_def p_def openCase_def loopInit_def numeral_eq_Suc del: pageStep.simps)
  moreover have "fold (loopStep view) (drop 4 (openEvents c t)) ((loopInit r)\<lparr>lp_page := p\<rparr>) =
      (loopInit r)\<lparr>lp_page := pageRun (openCase c t), lp_gets := [(0, Some ?d)]\<rparr>"
    using p get d run
    by (simp add: openEvents_def onPage_def checkRead_def loopInit_def triageInit_def setRepo_def respond_def numeral_eq_Suc del: pageStep.simps(4))
  ultimately show ?thesis
    by (metis append_take_drop_id fold_append comp_apply)
qed

lemma fold_Server:
  "\<exists>new. fold (loopStep view) (map Server es) l = l\<lparr>lp_site := fold serve es (lp_site l), lp_log := new @ lp_log l\<rparr>"
proof (induction es arbitrary: l)
  case Nil
  show ?case by (rule exI [of _ "[]"]) simp
next
  case (Cons e es)
  obtain new where "fold (loopStep view) (map Server es) (loopStep view (Server e) l) =
      l\<lparr>lp_site := fold serve (e # es) (lp_site l), lp_log := new @ givenBy e (lp_site l) @ lp_log l\<rparr>"
    using Cons [of "loopStep view (Server e) l"] by auto
  then show ?case by (intro exI [of _ "new @ givenBy e (lp_site l)"]) simp
qed

lemma investigation_logged:
  assumes "rp_schema (tq_repo s) = SchemaReady" "jsFieldE ''alert'' body = Some al" "truthy al" "okStatus st"
    and "persistedVerdict (dictGet (rp_cases (tq_repo s)) c) = None" "cachedVerdict (tq_cache s) c = None" "dictGet (tq_inflight s) c = None"
  shows "givenBy (Turn (length (tq_reqs s)) (Fetched (Answer st (Some d) txt)))
    (fold serve (startEvents (length (tq_reqs s)) c (Some body) fb t1 t2) s) = [(c, d)]"
  using start_reaches_orchestrator [OF assms(1-3,5-7) refl, of fb t1 t2] assms(4) by (auto simp: atLast_def)

lemma investigate_site:
  assumes ready: "rp_schema r = SchemaReady" and fresh: "dictGet (rp_cases r) c = None"
    and body: "jsFieldE ''alert'' body = Some al" "truthy al" and upstream: "okStatus st" "truthy d"
    and posts: "pg_posts (lp_page l) = [q]" "pq_case q = c" and l: "lp_site l = triageInit r" "lp_wire l = []"
  shows "\<exists>new. fold (loopStep view) (butlast (butlast (investigateEvents c body fb st d txt t))) l =
      l\<lparr>lp_site := fold serve (startEvents 0 c (Some body) fb t t @
          [Turn 0 (Fetched (Answer st (Some d) txt)), Turn 0 (DbWrite t None None)]) (triageInit r),
        lp_wire := [(0, 0)], lp_log := new @ lp_log l\<rparr> \<and> (c, d) \<in> set new"
proof -
  let ?s = "triageInit r" and ?f = "Turn 0 (Fetched (Answer st (Some d) txt))" and ?w = "Turn 0 (DbWrite t None None)"
  let ?es = "startEvents 0 c (Some body) fb t t"
  let ?l = "l\<lparr>lp_site := arrive c (Some body) ?s, lp_wire := [(0, 0)]\<rparr>"
  have n: "length (tq_reqs ?s) = 0" by (simp add: triageInit_def)
  have send: "loopStep view (SendPost 0 (Some body)) l = ?l" using posts l n by simp
  have es: "fold serve (tl ?es) (arrive c (Some body) ?s) = fold serve ?es ?s" by (simp add: startEvents_def)
  have given: "givenBy ?f (fold serve ?es ?s) = [(c, d)]"
    using investigation_logged [of ?s body al st c d "txt" fb t t] ready fresh body upstream n
    by (simp add: triageInit_def persistedVerdict_def cachedVerdict_def dictGet_def)
  obtain new where new: "fold (loopStep view) (map Server (tl ?es)) ?l = ?l\<lparr>lp_site := fold serve ?es ?s, lp_log := new @ lp_log ?l\<rparr>"
    using fold_Server [of view "tl ?es" ?l] es by auto
  have "butlast (butlast (investigateEvents c body fb st d txt t)) = SendPost 0 (Some body) # map Server (tl ?es) @ [Server ?f, Server ?w]"
    by (simp add: investigateEvents_def butlast_append)
  then have "fold (loopStep view) (butlast (butlast (investigateEvents c body fb st d txt t))) l =
      l\<lparr>lp_site := fold serve (?es @ [?f, ?w]) ?s, lp_wire := [(0, 0)], lp_log := ((c, d) # new) @ lp_log l\<rparr>"
    using send new given by (simp del: loopStep.simps(5) serve.simps)
  then show ?thesis by (intro exI [of _ "(c, d) # new"]) simp
qed

text \<open>The server's side of it.\<close>

lemma fresh_post:
  assumes "rp_schema r = SchemaReady" "dictGet (rp_cases r) c = None" "jsFieldE ''alert'' body = Some al" "truthy al" "okStatus st" "truthy d"
    and s: "s = fold serve (startEvents 0 c (Some body) fb t t @ [Turn 0 (Fetched (Answer st (Some d) txt)), Turn 0 (DbWrite t None None)])
    (triageInit r)"
  shows "rq_pc (tq_reqs s ! 0) = Done (respond 200 d)" "persistedVerdict (dictGet (rp_cases (tq_repo s)) c) = Some d"
proof -
  let ?s = "triageInit r" and ?e = "Obj (enrichAlert fb (spreadObject al))"
  have n: "length (tq_reqs ?s) = 0" by (simp add: triageInit_def)
  have s0: "rp_schema (tq_repo ?s) = SchemaReady" "persistedVerdict (dictGet (rp_cases (tq_repo ?s)) c) = None"
    "cachedVerdict (tq_cache ?s) c = None" "dictGet (tq_inflight ?s) c = None"
    using assms(1,2) by (simp_all add: triageInit_def persistedVerdict_def cachedVerdict_def dictGet_def)
  from post_settles [OF s0(1) assms(3,4) s0(2-4) assms(5,6) refl, of fb t t "txt" t]
  obtain r1 r2 where pc: "rq_pc (tq_reqs s ! 0) = Done (respond 200 d)"
    and w: "upsertCaseSnapshot c None ?e Null Undef t None None (tq_repo ?s) = (Inr (), r1)"
      "markTriageRunning c t None None r1 = (Inr (), r2)" "markTriageComplete c d t None None r2 = (Inr (), tq_repo s)"
    unfolding n s by blast
  show "rq_pc (tq_reqs s ! 0) = Done (respond 200 d)" by (rule pc)
  show "persistedVerdict (dictGet (rp_cases (tq_repo s)) c) = Some d"
    using case_db.completed_row [of c ?e Null Undef t "(None, None)" "tq_repo ?s" r1 t "(None, None)" r2 d t "(None, None)"] w
      truthy_nullish [OF assms(6)] assms(6) by (fastforce simp: persistedVerdict_def)
qed

text \<open>Both ends when the last answer has been delivered.\<close>

lemma opened_ends:
  assumes "rp_schema r = SchemaReady" "dictGet (rp_cases r) c = None" "0 < t"
    and "jsFieldE ''alert'' body = Some al" "truthy al" and "okStatus st" "truthy d"
    and l: "l = fold (loopStep view) (openEvents c t @ investigateEvents c body fb st d txt t) (loopInit r)"
  shows "(\<exists>m e. pg_mounts (lp_page l) = [m] \<and> hm_caseId m = c \<and> pg_store (lp_page l) = setVerdict c (view d) t [(c, e)]) \<and>
    (c, d) \<in> set (lp_log l) \<and> persistedVerdict (dictGet (rp_cases (tq_repo (lp_site l))) c) = Some d"
proof -
  let ?p = "pageRun (openCase c t)" and ?s = "triageInit r"
  let ?es = "startEvents 0 c (Some body) fb t t @ [Turn 0 (Fetched (Answer st (Some d) txt)), Turn 0 (DbWrite t None None)]"
  obtain gets where open_l: "fold (loopStep view) (openEvents c t) (loopInit r) = (loopInit r)\<lparr>lp_page := ?p, lp_gets := gets\<rparr>"
    using open_page [OF assms(1,2)] by blast
  let ?l = "(loopInit r)\<lparr>lp_page := ?p, lp_gets := gets\<rparr>"
  note posts = openCase_posts [OF assms(3), of c]
  obtain m e where page: "pg_mounts ?p = [m]" "hm_caseId m = c" "pg_store ?p = [(c, e)]" using posts(2,3) by blast
  obtain new where inv: "fold (loopStep view) (butlast (butlast (investigateEvents c body fb st d txt t))) ?l =
      ?l\<lparr>lp_site := fold serve ?es ?s, lp_wire := [(0, 0)], lp_log := new @ lp_log ?l\<rparr>" and new: "(c, d) \<in> set new"
    using investigate_site [OF assms(1,2,4-7), of ?l _ view fb "txt" t] posts(1) by (auto simp: loopInit_def)
  note settled = fresh_post [OF assms(1,2,4-7) refl, of fb t "txt"]
  have "investigateEvents c body fb st d txt t = butlast (butlast (investigateEvents c body fb st d txt t)) @ [AnswerPost 0, DeliverPost 0 t]"
    by (simp add: investigateEvents_def butlast_append)
  then have "l = fold (loopStep view) [AnswerPost 0, DeliverPost 0 t]
      (?l\<lparr>lp_site := fold serve ?es ?s, lp_wire := [(0, 0)], lp_log := new @ lp_log ?l\<rparr>)"
    unfolding l fold_append comp_apply open_l using inv by (metis fold_append comp_apply)
  moreover have "okStatus 200" by (simp add: okStatus_def)
  ultimately have fin: "lp_page l = postAnswered 0 (PostVerdict (view d)) t ?p" "lp_site l = fold serve ?es ?s" "set new \<subseteq> set (lp_log l)"
    using settled(1) posts(1) assms(7) by (auto simp: answerOf_def postRead_def respond_def onPage_def loopInit_def simp del: fold_append)
  then have "pg_store (lp_page l) = setVerdict c (view d) t [(c, e)]" "pg_mounts (lp_page l) = [m]"
    using page posts(1) by (simp_all add: postAnswered_def Let_def)
  then show ?thesis using fin settled(2) new page(2) by auto
qed

section \<open>Properties\<close>

text \<open>C2: no verdict without an investigation, and none for the wrong case: however requests, turns, answers, losses,
  reloads, restarts and other browsers interleave, every verdict a page shows for a case is one the orchestrator
  gave when it was asked about that case, and so is the body of every successful answer of the triage route.\<close>

theorem verdicts_are_genuine:
  assumes "repoOk r" "\<forall>c row. dictGet (rp_cases r) c = Some row \<longrightarrow> \<not> truthy (cr_verdict row)"
    and "(lstep p view)\<^sup>*\<^sup>* (loopInit r) l"
  shows "(\<forall>c v. selectVerdict c (pg_store (lp_page l)) = Some v \<longrightarrow> (\<exists>d. (c, d) \<in> set (lp_log l) \<and> v = view d)) \<and>
    (\<forall>q \<in> set (tq_reqs (lp_site l)). \<forall>resp. rq_pc q = Done resp \<and> okStatus (rs_status resp) \<longrightarrow>
       (rq_case q, rs_body resp) \<in> set (lp_log l))"
proof -
  have ok: "loopOk view l" by (rule loop_ok [OF assms(3) loopInit_ok [OF assms(1,2)]])
  have "pcFrom (set (lp_log l)) (rq_case q) (rq_pc q)" if "q \<in> set (tq_reqs (lp_site l))" for q
    using ok that by (simp add: loopOk_def siteFrom_def list_all_iff)
  then show ?thesis using loopOk_parts(3) [OF ok] by (fastforce simp: storeFrom_def seen_def)
qed

text \<open>C6: an opened case gets its verdict: the page that opened a case unknown to the server, and whose messages arrive,
  ends with the orchestrator's verdict in its store, the triage complete and nothing loading, and the server's
  table holds the same verdict.\<close>

theorem opened_case_gets_verdict:
  assumes "rp_schema r = SchemaReady" "dictGet (rp_cases r) c = None" "0 < t"
    and "jsFieldE ''alert'' body = Some al" "truthy al" and "okStatus st" "truthy d"
    and l: "l = fold (loopStep view) (openEvents c t @ investigateEvents c body fb st d txt t) (loopInit r)"
  shows "selectVerdict c (pg_store (lp_page l)) = Some (view d) \<and> triageStatusOf c (pg_store (lp_page l)) = TComplete \<and>
    \<not> triageLoading (pg_mounts (lp_page l) ! 0) (pg_store (lp_page l)) \<and> (c, d) \<in> set (lp_log l) \<and>
    persistedVerdict (dictGet (rp_cases (tq_repo (lp_site l))) c) = Some d"
  using opened_ends [OF assms]
  by (auto simp: setVerdict_def updateEntry_def dictGet_def selectVerdict_def triageStatusOf_def triageLoading_def)

text \<open>A run in which a verdict is shown.\<close>

definition sampleView :: "jsval \<Rightarrow> triage_verdict" where
  "sampleView d = \<lparr>tv_action_id = [], tv_case_id = [], tv_verdict = (case jsField ''verdict'' d of Str w \<Rightarrow> w | _ \<Rightarrow> []),
     tv_execution_path = [], tv_calibrated_confidence = 0, tv_novelty_score = 0, tv_escalated = False,
     tv_escalation_reason = None, tv_latency_ms = 0, tv_classifier_evidence = None\<rparr>"

definition sampleLoop :: loop where
  "sampleLoop = fold (loopStep sampleView) (openEvents ''d'' 1 @ investigateEvents ''d'' sampleBody (Rejected []) 200 sampleVerdict [] 1)
     (loopInit sampleRepo)"

lemma sample_fresh:
  "rp_schema sampleRepo = SchemaReady" "dictGet (rp_cases sampleRepo) ''d'' = None"
  "\<forall>c row. dictGet (rp_cases sampleRepo) c = Some row \<longrightarrow> \<not> truthy (cr_verdict row)"
  "jsFieldE ''alert'' sampleBody = Some (Obj [(''severity'', Str ''High'')])" "truthy (Obj [(''severity'', Str ''High'')])"
  "okStatus 200" "truthy sampleVerdict"
  by (simp_all add: sampleRepo_def insertedCase_def sampleBody_def sampleVerdict_def jsFieldE_def dictGet_def okStatus_def)

theorem opened_case_gets_verdict_witness:
  "map_option tv_verdict (selectVerdict ''d'' (pg_store (lp_page sampleLoop))) = Some ''benign''"
  using opened_case_gets_verdict [OF sample_fresh(1,2) zero_less_one sample_fresh(4-7) sampleLoop_def]
  by (simp add: sampleView_def sampleVerdict_def dictGet_def)

theorem verdicts_are_genuine_witness:
  "\<exists>v d. selectVerdict ''d'' (pg_store (lp_page sampleLoop)) = Some v \<and> (''d'', d) \<in> set (lp_log sampleLoop) \<and> v = sampleView d"
proof -
  obtain v where v: "selectVerdict ''d'' (pg_store (lp_page sampleLoop)) = Some v"
    using opened_ends [OF sample_fresh(1,2) zero_less_one sample_fresh(4-7) sampleLoop_def]
    by (auto simp: selectVerdict_def setVerdict_def updateEntry_def dictGet_def)
  have "(lstep (\<lambda>_. None) sampleView)\<^sup>*\<^sup>* (loopInit sampleRepo) sampleLoop"
    unfolding sampleLoop_def by (rule loop_reach)
  from verdicts_are_genuine [OF sampleRepo_ok sample_fresh(3) this] v show ?thesis by blast
qed

end
