(* ===== verification/Trace_Flow.thy ===== *)
theory Trace_Flow
  imports Trace_Route Trace_Views
begin

text \<open>
  The way of a trace step: from the browser's store through the client's POST (\<open>case-investigation-client.tsx\<close>) and
  the trace route into the database, back through the route's GET, and into the timeline of a reloaded page.
\<close>

section \<open>The two ends of the request\<close>

text \<open>The body that the client posts: \<open>JSON.stringify(\{ steps: fresh \})\<close> as the route parses it.\<close>

definition kafkaJson :: "kafka_step \<Rightarrow> jsval" where
  "kafkaJson s = Obj [(''case_id'', Str (ks_case_id s)), (''tenant_id'', Str (ks_tenant_id s)),
     (''agent_action_id'', Str (ks_agent_action_id s)), (''agent_id'', Str (ks_agent_id s)),
     (''execution_path'', Str (ks_execution_path s)), (''step_kind'', Str (ks_step_kind s)),
     (''summary'', Str (ks_summary s)), (''ts'', Num (Fin (of_int (ks_ts s))))]"

definition persistBody :: "kafka_step list \<Rightarrow> jsval" where
  "persistBody fresh = Obj [(''steps'', Arr (map kafkaJson fresh))]"

text \<open>The steps of an answer as the views read them.\<close>

definition viewStep :: "trace_view \<Rightarrow> http_step" where
  "viewStep v = \<lparr>hs_kind = vw_kind v, hs_agent_action_id = vw_agent_action_id v, hs_agent_id = vw_agent_id v,
     hs_execution_path = vw_execution_path v, hs_verdict = vw_verdict v, hs_tool_call_count = vw_tool_call_count v,
     hs_belief_count = vw_belief_count v\<rparr>"

section \<open>Facts\<close>

subsection \<open>Posting\<close>

text \<open>The time a step is filed under: its own in milliseconds, or in seconds when it is that small.\<close>

definition filedAt :: "kafka_step \<Rightarrow> int" where
  "filedAt s = (if ks_ts s > 10000000000 then ks_ts s else ks_ts s * 1000)"

definition filedRow :: "string \<Rightarrow> int \<Rightarrow> kafka_step \<Rightarrow> trace_row" where
  "filedRow c now s = \<lparr>tr_id = traceId c (ks_agent_action_id s) (ks_step_kind s) (filedAt s), tr_case_id = c,
     tr_agent_action_id = ks_agent_action_id s, tr_agent_id = ks_agent_id s, tr_execution_path = ks_execution_path s,
     tr_step_kind = ks_step_kind s, tr_summary = ks_summary s, tr_ts = filedAt s, tr_created_at = now\<rparr>"

text \<open>What the route keeps: an action, a kind and a time that is neither zero nor out of the range of dates; the
  parts of an id are free of its separator.\<close>

definition storable :: "kafka_step \<Rightarrow> bool" where
  "storable s \<longleftrightarrow> ks_agent_action_id s \<noteq> [] \<and> ks_step_kind s \<noteq> [] \<and> ks_ts s \<noteq> 0 \<and> \<bar>filedAt s\<bar> \<le> 8640000000000000 \<and>
     CHR '':'' \<notin> set (ks_agent_action_id s) \<and> CHR '':'' \<notin> set (ks_step_kind s)"

definition slot :: "kafka_step \<Rightarrow> string \<times> string \<times> int" where
  "slot s = (ks_agent_action_id s, ks_step_kind s, filedAt s)"

lemma stepPosted_kafka: "storable s \<Longrightarrow> stepPosted (kafkaJson s)"
  by (simp add: storable_def stepPosted_def kafkaJson_def dictGet_def)

lemma truncRat_of_int: "truncRat (of_int n) = n"
  by (simp add: truncRat_def)

lemma traceRow_kafka: "storable s \<Longrightarrow> traceRow p c now (stepInput (kafkaJson s)) = Some (filedRow c now s)"
proof -
  assume "storable s"
  then have "\<bar>of_int (filedAt s) :: rat\<bar> \<le> of_int 8640000000000000"
    unfolding of_int_abs [symmetric] of_int_le_iff by (simp add: storable_def)
  moreover have "(if (of_int (ks_ts s) :: rat) > 10000000000 then of_int (ks_ts s) else of_int (ks_ts s) * 1000) = (of_int (filedAt s) :: rat)"
    by (simp add: filedAt_def)
  ultimately show ?thesis
    by (simp add: traceRow_def stepInput_def kafkaJson_def dictGet_def filedRow_def truncRat_of_int)
qed

lemma posted_kafka: "list_all storable ss \<Longrightarrow> postedSteps (Some (persistBody ss)) = Some (map (stepInput \<circ> kafkaJson) ss)"
proof -
  assume ss: "list_all storable ss"
  then have "filter stepPosted (map kafkaJson ss) = map kafkaJson ss"
    by (simp add: filter_id_conv list_all_iff stepPosted_kafka)
  moreover have "\<not> list_ex (\<lambda>v. v = Null \<or> v = Undef) (map kafkaJson ss)" by (auto simp: list_ex_iff kafkaJson_def)
  ultimately show ?thesis by (simp add: postedSteps_def persistBody_def jsFieldE_def dictGet_def)
qed

lemma rows_kafka:
  "list_all storable ss \<Longrightarrow> traverse (traceRow p c now) (map (stepInput \<circ> kafkaJson) ss) = Some (map (filedRow c now) ss)"
  unfolding traverse_Some by (simp add: traceRow_kafka list_all_iff)

text \<open>Fresh rows with distinct ids are appended in their order.\<close>

lemma insertTraces_fresh:
  assumes "keyed tab" "list_all spelled rows" "distinct (map tr_id rows)" "\<forall>row \<in> set rows. dictGet tab (tr_id row) = None"
  shows "insertTraces rows tab = Inr (tab @ map (\<lambda>row. (tr_id row, row)) rows)"
  using assms
proof (induction rows arbitrary: tab)
  case (Cons row rows)
  have free: "dictGet tab (tr_id row) = None" using Cons.prems by simp
  have "keyed (dictPut (tr_id row) row tab)" using Cons.prems by (intro keyed_put) simp_all
  moreover have "\<forall>x \<in> set rows. dictGet (dictPut (tr_id row) row tab) (tr_id x) = None"
    using Cons.prems by (simp add: dictGet_put) (metis imageI)
  ultimately show ?case
    using Cons.prems Cons.IH [of "dictPut (tr_id row) row tab"] keyed_no_violation [OF Cons.prems(1) _ free] free
    by (simp add: dictPut_fresh dictKeys_get)
qed simp

lemma slots_ids: "list_all storable ss \<Longrightarrow> distinct (map slot ss) \<Longrightarrow> distinct (map tr_id (map (filedRow c now) ss))"
proof -
  assume ss: "list_all storable ss" and d: "distinct (map slot ss)"
  let ?h = "\<lambda>(a, k, t). traceId c a k t"
  have "inj_on ?h (set (map slot ss))"
    using ss by (auto simp: inj_on_def slot_def list_all_iff storable_def traceId_separates)
  then have "distinct (map ?h (map slot ss))" using d by (simp only: distinct_map)
  moreover have "map ?h (map slot ss) = map tr_id (map (filedRow c now) ss)" by (simp add: slot_def filedRow_def)
  ultimately show ?thesis by (simp only:)
qed

text \<open>No step of the case is stored yet, and no id of a case contains the separator.\<close>

definition untraced :: "string \<Rightarrow> repo \<Rightarrow> bool" where
  "untraced c r \<longleftrightarrow> list_all (\<lambda>(_, row). tr_case_id row \<noteq> c) (rp_traces r) \<and> CHR '':'' \<notin> set c \<and>
     list_all (\<lambda>i. CHR '':'' \<notin> set i) (dictKeys (rp_cases r))"

lemma untraced_free:
  assumes "repoOk r" "untraced c r"
  shows "dictGet (rp_traces r) (traceId c a k t) = None"
proof (rule ccontr)
  assume "dictGet (rp_traces r) (traceId c a k t) \<noteq> None"
  then obtain row where row: "dictGet (rp_traces r) (traceId c a k t) = Some row" by blast
  then have "traceRowOk (rp_cases r) (traceId c a k t) row" using assms(1) by (simp add: repoOk_def)
  then have "traceId c a k t = traceId (tr_case_id row) (tr_agent_action_id row) (tr_step_kind row) (tr_ts row)"
    "CHR '':'' \<notin> set (tr_case_id row)"
    using assms(2) by (auto simp: traceRowOk_def dictKeys_get untraced_def list_all_iff)
  then have "tr_case_id row = c" using assms(2) by (simp add: traceId_def sep_inject untraced_def)
  moreover have "(traceId c a k t, row) \<in> set (rp_traces r)" using row by (simp add: dictGet_def map_of_SomeD)
  ultimately show False using assms(2) by (auto simp: untraced_def list_all_iff)
qed

lemma post_appends:
  assumes ok: "repoOk r" and ready: "rp_schema r = SchemaReady" and stored: "dictGet (rp_cases r) c \<noteq> None"
    and ss: "list_all storable ss" "ss \<noteq> []" "distinct (map slot ss)" and free: "untraced c r"
  shows "tracePOST p c (Some (persistBody ss)) now fs None r =
    (Some (length ss), r\<lparr>rp_traces := rp_traces r @ map (\<lambda>s. (tr_id (filedRow c now s), filedRow c now s)) ss\<rparr>)"
proof -
  let ?rows = "map (filedRow c now) ss"
  have "list_all spelled ?rows" by (simp add: list_all_iff spelled_def filedRow_def)
  moreover have "\<forall>row \<in> set ?rows. dictGet (rp_traces r) (tr_id row) = None"
    using untraced_free [OF ok free] by (simp add: filedRow_def)
  ultimately have ins: "insertTraces ?rows (rp_traces r) = Inr (rp_traces r @ map (\<lambda>s. (tr_id (filedRow c now s), filedRow c now s)) ss)"
    using insertTraces_fresh [OF keyed_repo [OF ok] _ slots_ids [OF ss(1,3)]] by (simp add: comp_def)
  have "dictGet (rp_traces r) k \<noteq> None" if "(k, row) \<in> set (rp_traces r)" for k row
    using weak_map_of_SomeI [OF that] by (auto simp: dictGet_def)
  then have "\<not> list_ex (\<lambda>(k, row). dictGet (rp_traces r) k = None \<and> dictGet (rp_cases r) (tr_case_id row) = None)
      (rp_traces r @ map (\<lambda>s. (tr_id (filedRow c now s), filedRow c now s)) ss)"
    using stored by (fastforce simp: list_ex_iff filedRow_def)
  then show ?thesis
    using ins ss(2) ready by (simp add: tracePOST_def posted_kafka [OF ss(1)] appendTraceSteps_def ensureCaseSchema_def rows_kafka [OF ss(1)])
qed

subsection \<open>Reading\<close>

text \<open>A stored step as the GET shows it.\<close>

definition stepView :: "kafka_step \<Rightarrow> trace_view" where
  "stepView s = \<lparr>vw_kind = ks_step_kind s, vw_agent_action_id = ks_agent_action_id s, vw_agent_id = ks_agent_id s,
     vw_execution_path = ks_execution_path s, vw_verdict = ks_summary s,
     vw_tool_call_count = (if ks_step_kind s = ''tool_call'' then 1 else 0),
     vw_belief_count = (if ks_step_kind s = ''intermediate_belief'' then 1 else 0)\<rparr>"

lemma insort_key_map: "insort_key f (g x) (map g xs) = map g (insort_key (\<lambda>x. f (g x)) x xs)"
  by (induction xs) auto

lemma sort_key_map: "sort_key f (map g xs) = map g (sort_key (\<lambda>x. f (g x)) xs)"
  by (induction xs) (simp_all add: insort_key_map)

lemma listed_rows:
  "sort_key tr_ts (map (filedRow c now) ss) = map (filedRow c now) (sort_key filedAt ss)"
  by (simp add: sort_key_map filedRow_def)

lemma get_lists:
  assumes ready: "rp_schema r = SchemaReady" and free: "untraced c r" and ne: "ss \<noteq> []"
    and r': "r' = r\<lparr>rp_traces := rp_traces r @ map (\<lambda>s. (tr_id (filedRow c now s), filedRow c now s)) ss\<rparr>"
  shows "traceGET c fs None fq r' = (TraceSteps (map stepView (sort_key filedAt ss)), r')"
proof -
  have "filter (\<lambda>row. tr_case_id row = c) (map snd (rp_traces r)) = []"
    using free by (auto simp: untraced_def list_all_iff filter_empty_conv)
  moreover have "filter (\<lambda>row. tr_case_id row = c) (map (filedRow c now) ss) = map (filedRow c now) ss"
    by (simp add: filter_id_conv filedRow_def)
  ultimately have f: "filter (\<lambda>row. tr_case_id row = c) (map snd (rp_traces r')) = map (filedRow c now) ss"
    by (simp add: r' comp_def)
  have "\<exists>row \<in> snd ` set (rp_traces r'). tr_case_id row = c"
    using ne by (cases ss) (simp_all add: r' filedRow_def)
  moreover have "rowView \<circ> filedRow c now = stepView" by (rule ext) (simp add: rowView_def filedRow_def stepView_def)
  ultimately show ?thesis
    using traceGET_nonempty [of r' c fs fq] ready f by (simp add: r' listed_rows)
qed

subsection \<open>The timeline\<close>

definition stepPrint :: "kafka_step \<Rightarrow> string" where
  "stepPrint s = ks_agent_action_id s @ '':'' @ ks_step_kind s @ '':'' @ ks_summary s"

definition shown :: "kafka_step list \<Rightarrow> kafka_step list" where
  "shown ss = filter (\<lambda>s. ks_step_kind s \<noteq> ''classifier_complete'') ss"

definition httpPrint :: "http_step \<Rightarrow> string" where
  "httpPrint h = hs_agent_action_id h @ '':'' @ hs_kind h @ '':'' @ hs_verdict h"

lemma print_live: "map fingerprint (map liveLine ss) = map stepPrint ss"
  by (simp add: fingerprint_def liveLine_def stepPrint_def)

lemma print_http: "map fingerprint (map httpLine (enumerate n hs)) = map httpPrint hs"
proof -
  have "fingerprint \<circ> httpLine = httpPrint \<circ> snd"
    by (rule ext) (simp add: fingerprint_def httpLine_def httpPrint_def split_beta)
  then have "map fingerprint (map httpLine (enumerate n hs)) = map httpPrint (map snd (enumerate n hs))"
    by (simp only: map_map)
  then show ?thesis by (simp only: map_snd_enumerate)
qed

lemma prints_timeline:
  "fingerprint ` set (timelineRows hs ss) =
     httpPrint ` set (filter (\<lambda>h. hs_kind h \<noteq> ''classifier_complete'') hs) \<union> stepPrint ` set (shown ss)"
proof -
  have "fingerprint ` set (map httpLine (enumerate 0 hs') @ map liveLine ss') = httpPrint ` set hs' \<union> stepPrint ` set ss'" for hs' ss'
  proof -
    have "fingerprint ` set (map httpLine (enumerate 0 hs') @ map liveLine ss') =
        set (map fingerprint (map httpLine (enumerate 0 hs'))) \<union> set (map fingerprint (map liveLine ss'))"
      by (simp add: image_Un image_image)
    then show ?thesis unfolding print_http print_live by simp
  qed
  then show ?thesis by (simp only: timelineRows_def keys_dedupBy shown_def) simp
qed

lemma print_stored:
  "httpPrint ` set (filter (\<lambda>h. hs_kind h \<noteq> ''classifier_complete'') (map (\<lambda>s. viewStep (stepView s)) ss)) = stepPrint ` set (shown ss)"
proof -
  have "hs_kind (viewStep (stepView s)) = ks_step_kind s" "httpPrint (viewStep (stepView s)) = stepPrint s" for s
    by (simp_all add: viewStep_def stepView_def httpPrint_def stepPrint_def)
  then show ?thesis by (simp only: filter_map shown_def comp_def set_map image_image)
qed

section \<open>Properties\<close>


definition flowStep :: kafka_step where
  "flowStep = \<lparr>ks_case_id = ''c'', ks_tenant_id = ''default'', ks_agent_action_id = ''a1'', ks_agent_id = ''triager'',
     ks_execution_path = ''llm'', ks_step_kind = ''tool_call'', ks_summary = ''lookup'', ks_ts = 1700000000\<rparr>"


text \<open>The case page counts a stored step twice: once it is stored, a live step stands in the merged list twice, under
  its own time and under the time zero that every stored step is given.\<close>

theorem stored_steps_doubled:
  assumes "ks_ts s \<noteq> 0"
  shows "mergeTraceSteps c [s] [viewStep (stepView s)] = [s, httpTraceToKafkaStep c (viewStep (stepView s))] \<and>
    stepPrint (httpTraceToKafkaStep c (viewStep (stepView s))) = stepPrint s"
proof -
  have "intStr (ks_ts s) \<noteq> intStr 0" using assms by (simp add: intStr_inject)
  then show ?thesis
    by (simp add: mergeTraceSteps_def mergeKey_def httpTraceToKafkaStep_def viewStep_def stepView_def stepPrint_def)
qed

theorem stored_steps_doubled_witness:
  "length (mergeTraceSteps ''c'' [flowStep] [viewStep (stepView flowStep)]) = 2"
  using stored_steps_doubled [of flowStep "''c''"] by (simp add: flowStep_def)

end
