(* ===== verification/Lab_Views.thy ===== *)
theory Lab_Views
  imports Lab_Pages
begin

text \<open>
  What the laboratory pages show and the controls they offer: the stage rows, panels, parameter fields and batches of
  \<open>app/workbench/simulate/page.tsx\<close>, and the fields, charts and totals of \<open>app/workbench/load/page.tsx\<close>, over the
  page states of \<open>Lab_Pages\<close>. A row carries its state, from which its colours follow; icons and layout are left out.
\<close>

section \<open>app/workbench/simulate/page.tsx: stages\<close>

text \<open>\<open>StageKey\<close>, in the halves that index the two answers.\<close>

datatype hot_key = KCollector | KOrchestrator | KCalibration | KAttestation

datatype memory_key = KRisingwave | KDetection | KIceberg | KMcp

record 'k stage_meta =
  mt_key :: 'k
  mt_label :: string
  mt_service :: string
  mt_proves :: string

definition HOT_PATH_STAGES :: "hot_key stage_meta list" where
  "HOT_PATH_STAGES =
     [\<lparr>mt_key = KCollector, mt_label = ''Collector'', mt_service = ''attest-collector :4000'',
        mt_proves = ''CloudTrail '' @ right_arrow @ '' OCSF normalized + published to Kafka''\<rparr>,
      \<lparr>mt_key = KOrchestrator, mt_label = ''Orchestrator'', mt_service = ''attest-orchestrator :4300'',
        mt_proves = ''Hybrid triage loop (XGBoost ONNX + Mahalanobis novelty)''\<rparr>,
      \<lparr>mt_key = KCalibration, mt_label = ''Calibration'', mt_service = ''calibration-sidecar :5001'',
        mt_proves = ''Isotonic regression '' @ em_dash @ '' raw score '' @ right_arrow @ '' calibrated probability''\<rparr>,
      \<lparr>mt_key = KAttestation, mt_label = ''Attestation'', mt_service = ''attest-attestation crate'',
        mt_proves = ''Ed25519 signed envelope appended to attestations.ndjson''\<rparr>]"

definition MEMORY_STAGES :: "memory_key stage_meta list" where
  "MEMORY_STAGES =
     [\<lparr>mt_key = KRisingwave, mt_label = ''RisingWave'', mt_service = ''risingwave :4566'',
        mt_proves = ''Streaming MV update '' @ em_dash @ '' user_baselines includes this event''\<rparr>,
      \<lparr>mt_key = KDetection, mt_label = ''Detection + ClickHouse'', mt_service = ''detection-runtime + clickhouse :8123'',
        mt_proves = ''Detection rule matched, fired alert stored in ClickHouse''\<rparr>,
      \<lparr>mt_key = KIceberg, mt_label = ''Iceberg / MinIO'', mt_service = ''storage-iceberg + minio :9000'',
        mt_proves = ''Event flushed to warm Parquet (s3://attest-warm)''\<rparr>,
      \<lparr>mt_key = KMcp, mt_label = ''MCP Gateway'', mt_service = ''attest-mcp-gateway :4242'',
        mt_proves = ''Attestation envelope queryable by external auditors''\<rparr>]"

fun hotStage :: "hot_key \<Rightarrow> simulate_response \<Rightarrow> stage_result" where
  "hotStage KCollector = sm_collector"
| "hotStage KOrchestrator = sm_orchestrator"
| "hotStage KCalibration = sm_calibration"
| "hotStage KAttestation = sm_attestation"

fun memoryStage :: "memory_key \<Rightarrow> verify_response \<Rightarrow> stage_result" where
  "memoryStage KRisingwave = vf_risingwave"
| "memoryStage KDetection = vf_detection"
| "memoryStage KIceberg = vf_iceberg"
| "memoryStage KMcp = vf_mcp"

record stage_row =
  rw_state :: stage_view
  rw_label :: string
  rw_aside :: string
  rw_service :: string
  rw_text :: string

definition latencyMs :: "stage_result option \<Rightarrow> string" where
  "latencyMs result = intStr (case result of None \<Rightarrow> 0 | Some r \<Rightarrow> sg_latency_ms r) @ '' ms''"

definition stageRow :: "'k stage_meta \<Rightarrow> stage_view \<Rightarrow> stage_result option \<Rightarrow> string option \<Rightarrow> stage_row" where
  "stageRow meta st result pendingLabel =
     (let waiting = (if st = StRunning then ''Verifying '' @ em_dash @ '' '' @ mt_proves meta @ ellipsis
                     else case pendingLabel of Some l \<Rightarrow> if l = [] then mt_proves meta else l | None \<Rightarrow> mt_proves meta)
      in \<lparr>rw_state = st, rw_label = mt_label meta,
          rw_aside = (if st \<in> {StOk, StFail} then latencyMs result
            else if st = StRunning then ellipsis else last (splitChar CHR '' '' (mt_service meta))),
          rw_service = mt_service meta,
          rw_text = (case result of Some r \<Rightarrow> if st \<in> {StOk, StFail} then sg_artifact r else waiting | None \<Rightarrow> waiting)\<rparr>)"

definition hotRows :: "sim_page \<Rightarrow> stage_row list" where
  "hotRows p = map (\<lambda>m. stageRow m (hotState (hotStage (mt_key m)) p) (map_option (hotStage (mt_key m)) (sp_hot p)) None)
     HOT_PATH_STAGES"

definition memoryRows :: "sim_page \<Rightarrow> stage_row list" where
  "memoryRows p =
     map (\<lambda>m. stageRow m (memoryState (memoryStage (mt_key m)) p) (map_option (memoryStage (mt_key m)) (sp_memory p))
           (Some (''Awaiting hot-path completion before verifying '' @ mt_label m @ ellipsis))) MEMORY_STAGES"

fun severityColor :: "severity \<Rightarrow> string" where
  "severityColor Critical = ''bg-red-500/15 text-red-400 border-red-500/30''"
| "severityColor High = ''bg-orange-500/15 text-orange-400 border-orange-500/30''"
| "severityColor Medium = ''bg-yellow-500/15 text-yellow-400 border-yellow-500/30''"
| "severityColor Low = ''bg-blue-500/15 text-blue-400 border-blue-500/30''"

text \<open>The bar of a confidence: its width in percent and its colour. What is not a number is shown as \<open>NaN%\<close>.\<close>

fun roundedPct :: "jsnum \<Rightarrow> string" where
  "roundedPct (Fin x) = intStr (mathRound (x * 100))"
| "roundedPct n = numStr n"

fun numAbove :: "jsnum \<Rightarrow> rat \<Rightarrow> bool" where
  "numAbove (Fin x) y \<longleftrightarrow> y < x"
| "numAbove PInf y \<longleftrightarrow> True"
| "numAbove _ y \<longleftrightarrow> False"

definition confidenceMeter :: "jsval \<Rightarrow> string \<times> string" where
  "confidenceMeter v =
     (roundedPct (jsNumber v) @ ''%'',
      if numAbove (jsNumber v) (7 / 10) then ''bg-severity-high''
      else if numAbove (jsNumber v) (4 / 10) then ''bg-yellow-500'' else ''bg-signal-good'')"

section \<open>app/workbench/simulate/page.tsx: panels and controls\<close>

definition showsHint :: "sim_page \<Rightarrow> bool" where
  "showsHint p \<longleftrightarrow> sp_runState p = RsIdle"

definition errorPanel :: "sim_page \<Rightarrow> string option" where
  "errorPanel p = (case sp_error p of
       Some m \<Rightarrow> if sp_runState p = RsError \<and> m \<noteq> [] then Some m else None | None \<Rightarrow> None)"

definition showsResults :: "sim_page \<Rightarrow> bool" where
  "showsResults p \<longleftrightarrow> sp_runState p \<in> {RsRunning, RsDone} \<or> sp_runState p = RsError \<and> sp_hot p \<noteq> None"

definition showsVerdict :: "sim_page \<Rightarrow> bool" where
  "showsVerdict p \<longleftrightarrow> showsResults p \<and> (case sp_hot p of None \<Rightarrow> False | Some h \<Rightarrow> sg_ok (sm_orchestrator h))"

definition verifiedCount :: "verify_response \<Rightarrow> nat" where
  "verifiedCount m = length (filter sg_ok [vf_risingwave m, vf_detection m, vf_iceberg m, vf_mcp m])"

definition memoryNote :: "sim_page \<Rightarrow> string option" where
  "memoryNote p =
     (case sp_memory p of
        None \<Rightarrow> None
      | Some m \<Rightarrow>
          (case sp_pollState p of
             PollPolling \<Rightarrow> Some (''polling'' @ ellipsis)
           | PollFinished \<Rightarrow> Some (''verified '' @ natStr (verifiedCount m) @ ''/4 '' @ middle_dot @ '' polling stopped'')
           | PollIdle \<Rightarrow> None))"

text \<open>The parameter fields; a range input yields the text of a decimal number between its bounds.\<close>

datatype param_edit = EditUsername string | EditSourceIp string | EditRegion string | EditSeverity string

fun editParam :: "param_edit \<Rightarrow> scenario_params \<Rightarrow> scenario_params" where
  "editParam (EditUsername v) ps = ps\<lparr>sp_username := v\<rparr>"
| "editParam (EditSourceIp v) ps = ps\<lparr>sp_source_ip := v\<rparr>"
| "editParam (EditRegion v) ps = ps\<lparr>sp_region := v\<rparr>"
| "editParam (EditSeverity v) ps = (case parseFloat v of Fin x \<Rightarrow> ps\<lparr>sp_severity := x\<rparr> | _ \<Rightarrow> ps)"

text \<open>The batch: fifty requests of one click, gathered by \<open>Promise.all\<close>. \<open>None\<close> is a request that failed or whose
  answer is not JSON; an error body of the route has no latency and counts as zero.\<close>

datatype batch_state = BatchIdle | BatchRunning | BatchDone

record sim_lab =
  sl_page :: sim_page
  sl_batchState :: batch_state
  sl_batchResult :: "batch_result option"

fun jobLatency :: "(simulate_response + 'e) option \<Rightarrow> rat" where
  "jobLatency None = - 1"
| "jobLatency (Some (Inl d)) = of_int (sm_total_latency_ms d)"
| "jobLatency (Some (Inr e)) = 0"

definition batchEnabled :: "sim_lab \<Rightarrow> bool" where
  "batchEnabled l \<longleftrightarrow> sp_runState (sl_page l) \<noteq> RsRunning \<and> sl_batchState l \<noteq> BatchRunning"

definition runBatchBegin :: "sim_lab \<Rightarrow> sim_lab" where
  "runBatchBegin l = l\<lparr>sl_batchState := BatchRunning, sl_batchResult := None\<rparr>"

definition runBatchEnd :: "(simulate_response + 'e) option list \<Rightarrow> sim_lab \<Rightarrow> sim_lab" where
  "runBatchEnd answers l = l\<lparr>sl_batchResult := Some (batchResult (map jobLatency answers)), sl_batchState := BatchDone\<rparr>"

definition batchHeadline :: "batch_result \<Rightarrow> string" where
  "batchHeadline b = ''Batch latency '' @ middle_dot @ '' '' @ intStr (int (br_n b) - int (br_errors b)) @ ''/''
     @ natStr (br_n b) @ '' ok''"

definition showsErrors :: "batch_result \<Rightarrow> bool" where
  "showsErrors b \<longleftrightarrow> br_errors b > 0"

section \<open>app/workbench/load/page.tsx\<close>

fun statusStyle :: "load_status \<Rightarrow> string" where
  "statusStyle LIdle = ''bg-secondary text-muted-foreground''"
| "statusStyle LStarting = ''bg-blue-500/20 text-blue-400 animate-pulse''"
| "statusStyle LRunning = ''bg-emerald-500/20 text-emerald-400''"
| "statusStyle LStopping = ''bg-yellow-500/20 text-yellow-400''"
| "statusStyle LCompleted = ''bg-primary/20 text-primary''"
| "statusStyle LError = ''bg-red-500/20 text-red-400''"

text \<open>\<open>parseInt(s)\<close>: white space, a sign, the digits up to the first other character, hexadecimal after \<open>0x\<close>.\<close>

definition hexDigitVal :: "char \<Rightarrow> nat option" where
  "hexDigitVal c =
     (if is_digit c then Some (code c - 48)
      else if char_between 97 102 (lower_char c) then Some (code (lower_char c) - 87) else None)"

fun scanHex :: "rat \<Rightarrow> string \<Rightarrow> rat" where
  "scanHex n [] = n"
| "scanHex n (c # cs) = (case hexDigitVal c of None \<Rightarrow> n | Some d \<Rightarrow> scanHex (16 * n + of_nat d) cs)"

definition parseInt :: "string \<Rightarrow> jsnum" where
  "parseInt s =
     (let (sg, u) = scanSign (dropWhile is_space s); ds = takeWhile is_digit u in
      if startsWith u ''0x'' \<or> startsWith u ''0X''
      then (if drop 2 u = [] \<or> hexDigitVal (u ! 2) = None then NaN else Fin (sg * scanHex 0 (drop 2 u)))
      else if ds = [] then NaN else Fin (sg * digitsVal ds))"

text \<open>\<open>parseInt(v) || d\<close>: zero and what is no number become the default.\<close>

definition parseIntOr :: "string \<Rightarrow> rat \<Rightarrow> rat" where
  "parseIntOr v d = (case parseInt v of Fin x \<Rightarrow> if x = 0 then d else x | _ \<Rightarrow> d)"

definition noPatch :: load_config_patch where
  "noPatch = \<lparr>lp_rate = None, lp_duration_secs = None, lp_scenario = None, lp_tenants = None, lp_seed_baselines = None,
     lp_sampled_triage_pct = None\<rparr>"

datatype config_edit =
    EditRate string
  | EditDuration string
  | EditTenants string
  | ChooseScenario load_scenario
  | CheckBaselines bool
  | SlideSampled string

fun configPatch :: "config_edit \<Rightarrow> load_config_patch" where
  "configPatch (EditRate v) = noPatch\<lparr>lp_rate := Some (parseIntOr v 1000)\<rparr>"
| "configPatch (EditDuration v) = noPatch\<lparr>lp_duration_secs := Some (parseIntOr v 30)\<rparr>"
| "configPatch (EditTenants v) = noPatch\<lparr>lp_tenants := Some (parseIntOr v 1)\<rparr>"
| "configPatch (ChooseScenario sc) = noPatch\<lparr>lp_scenario := Some sc\<rparr>"
| "configPatch (CheckBaselines b) = noPatch\<lparr>lp_seed_baselines := Some b\<rparr>"
| "configPatch (SlideSampled v) = (case parseInt v of Fin x \<Rightarrow> noPatch\<lparr>lp_sampled_triage_pct := Some x\<rparr> | _ \<Rightarrow> noPatch)"

text \<open>A field acts unless it is disabled; the preset buttons are disabled while a run starts too.\<close>

definition editConfig :: "config_edit \<Rightarrow> load_state \<Rightarrow> load_state" where
  "editConfig e s = (if ls_status s = LRunning then s else setConfig (configPatch e) s)"

definition choosePreset :: "load_config \<Rightarrow> load_state \<Rightarrow> load_state" where
  "choosePreset c s = (if ls_status s \<in> {LRunning, LStarting} then s
     else setConfig \<lparr>lp_rate = Some (lc_rate c), lp_duration_secs = Some (lc_duration_secs c), lp_scenario = Some (lc_scenario c),
       lp_tenants = Some (lc_tenants c), lp_seed_baselines = Some (lc_seed_baselines c),
       lp_sampled_triage_pct = Some (lc_sampled_triage_pct c)\<rparr> s)"

definition sampledLabel :: "load_config \<Rightarrow> string" where
  "sampledLabel c = (if lc_sampled_triage_pct c = 0 then ''off'' else ratStr (lc_sampled_triage_pct c) @ ''%'')"

definition elapsedText :: "load_state \<Rightarrow> string option" where
  "elapsedText s = map_option (\<lambda>m. fmt (ms_total_events m) @ '' events'') (ls_current s)"

definition currentOr0 :: "(metrics_snapshot \<Rightarrow> rat) \<Rightarrow> load_state \<Rightarrow> rat" where
  "currentOr0 key s = (case ls_current s of None \<Rightarrow> 0 | Some m \<Rightarrow> key m)"

definition chartData :: "(metrics_snapshot \<Rightarrow> rat) \<Rightarrow> metrics_snapshot list \<Rightarrow> (nat \<times> rat) list" where
  "chartData key history = map (\<lambda>(i, s). (i, key s)) (enumerate 0 history)"

record metric_chart =
  mc_title :: string
  mc_data :: "(nat \<times> rat) list"
  mc_latest :: string

definition metricChart :: "string \<Rightarrow> (metrics_snapshot \<Rightarrow> rat) \<Rightarrow> string \<Rightarrow> load_state \<Rightarrow> metric_chart" where
  "metricChart title key unit s =
     \<lparr>mc_title = title, mc_data = chartData key (ls_history s), mc_latest = fmt (currentOr0 key s) @ unit\<rparr>"

definition loadCharts :: "load_state \<Rightarrow> metric_chart list" where
  "loadCharts s = (if ls_history s = [] then [] else
     [metricChart ''Events / sec'' ms_events_per_sec [] s, metricChart ''Consumer lag'' ms_consumer_lag '' msg'' s,
      metricChart ''Detections / sec'' ms_detections_per_sec [] s,
      metricChart ''Storage rows / sec'' ms_clickhouse_rows_per_sec '' rows'' s])"

definition sessionTotals :: "load_state \<Rightarrow> (string \<times> string) list" where
  "sessionTotals s =
     [(''Events sent'', fmt (currentOr0 ms_total_events s)), (''Detections fired'', fmt (currentOr0 ms_total_detections s)),
      (''Actual rate'', fmt (currentOr0 ms_current_load_gen_rate s) @ ''/s''),
      (''Consumer lag'', fmt (currentOr0 ms_consumer_lag s) @ '' msg'')]"

definition triageP95 :: "load_state \<Rightarrow> string option" where
  "triageP95 s =
     (if lc_sampled_triage_pct (ls_config s) > 0 \<and> currentOr0 ms_triage_p95_ms s > 0
      then Some (toFixed 1 (currentOr0 ms_triage_p95_ms s) @ '' ms'')
      else if lc_sampled_triage_pct (ls_config s) > 0 \<and> currentOr0 ms_triage_p95_ms s = 0 \<and> ls_status s = LRunning
      then Some (''Triage p95 '' @ em_dash @ '' accumulating samples ('' @ ratStr (lc_sampled_triage_pct (ls_config s))
        @ ''% of events routed to orchestrator)'' @ ellipsis)
      else None)"

definition showsNoData :: "load_state \<Rightarrow> bool" where
  "showsNoData s \<longleftrightarrow> ls_history s = [] \<and> (case ls_errorMsg s of None \<Rightarrow> True | Some m \<Rightarrow> m = [])"

section \<open>Facts about the simulate page\<close>

lemma rw_state_row [simp]: "rw_state (stageRow m st result l) = st"
  by (simp add: stageRow_def Let_def)

lemma memory_states: "map rw_state (memoryRows p) = map (\<lambda>k. memoryState (memoryStage k) p) [KRisingwave, KDetection, KIceberg, KMcp]"
  by (simp add: memoryRows_def MEMORY_STAGES_def)

lemma settled_states:
  assumes "sp_runState p \<noteq> RsIdle" "sp_hot p \<noteq> None" "sp_memory p = Some v" "sp_pollState p = PollFinished"
  shows "memoryState key p = (if sg_ok (key v) then StOk else StFail)"
  using assms by (simp add: memoryState_def)

lemma verifiedCount_rows:
  "verifiedCount v = length (filter (\<lambda>k. sg_ok (memoryStage k v)) [KRisingwave, KDetection, KIceberg, KMcp])"
  by (simp add: verifiedCount_def)

lemma clearPoll_keeps [simp]:
  "sp_runState (clearPoll p) = sp_runState p" "sp_hot (clearPoll p) = sp_hot p" "sp_memory (clearPoll p) = sp_memory p"
  "sp_pollState (clearPoll p) = sp_pollState p" "sp_error (clearPoll p) = sp_error p" "sp_selected (clearPoll p) = sp_selected p"
  "sp_pollRef (clearPoll p) = None"
  by (simp_all add: clearPoll_def split: option.split)

text \<open>Something is shown: the page is idle, works or has an answer or a message.\<close>

definition shownPage :: "sim_page \<Rightarrow> bool" where
  "shownPage p \<longleftrightarrow> showsHint p \<or> errorPanel p \<noteq> None \<or> showsResults p"

definition tellsWhy :: "sim_event \<Rightarrow> bool" where
  "tellsWhy e \<longleftrightarrow> (case e of RunAnswered _ (Inl m) _ _ \<Rightarrow> m \<noteq> [] | _ \<Rightarrow> True)"

lemmas panel_defs = shownPage_def showsHint_def errorPanel_def showsResults_def

lemma shownPage_frame:
  "sp_runState q = sp_runState p \<Longrightarrow> sp_hot q = sp_hot p \<Longrightarrow> sp_error q = sp_error p \<Longrightarrow> shownPage q = shownPage p"
  by (simp add: panel_defs cong: option.case_cong)

lemma shownPage_step: "tellsWhy e \<Longrightarrow> shownPage p \<Longrightarrow> shownPage (simStep e p)"
proof (cases e)
  case (RunAnswered sid res now now')
  assume "tellsWhy e"
  then show ?thesis
    by (cases res) (auto simp: RunAnswered tellsWhy_def panel_defs runAnswered_def Let_def split: list.split)
next
  case (PollAnswer res now)
  assume "shownPage p"
  then show ?thesis unfolding PollAnswer simStep.simps
    by (subst shownPage_frame [of _ p]) (simp_all add: pollAnswered_def stopPolling_def Let_def split: option.split)
next
  case (PollSet t)
  assume "shownPage p"
  then show ?thesis unfolding PollSet simStep.simps
    by (subst shownPage_frame [of _ p]) (simp_all add: startInterval_def)
next
  case LeaveSim
  assume "shownPage p"
  then show ?thesis unfolding LeaveSim simStep.simps
    by (subst shownPage_frame [of _ p]) (simp_all add: unmountSim_def split: option.split)
qed (simp_all add: panel_defs selectScenario_def runBegin_def)

interpretation panels: preserved simStep tellsWhy shownPage
  by unfold_locales (rule shownPage_step)

lemma simulatePOST_ids:
  assumes "simulatePOST body fCol fTri ms1 ms2 msAll = Some (Inl r)" "\<not> sg_ok (sm_collector r)"
  shows "sm_event_ids r = []"
proof -
  from assms(1) obtain ids col where "collectorRun fCol ms1 = Some (ids, col)" "sm_event_ids r = ids" "sm_collector r = col"
    by (auto simp: simulatePOST_def Let_def split: option.splits if_splits prod.splits)
  then show ?thesis using assms(2) collectorRun_ids by blast
qed

section \<open>Facts about the load page\<close>

lemma parseIntOr_nonzero: "d \<noteq> 0 \<Longrightarrow> parseIntOr v d \<noteq> 0"
  by (simp add: parseIntOr_def split: jsnum.split)

lemma takeWhile_natStr: "takeWhile is_digit (natStr n) = natStr n"
  using natStr_digits by (simp add: takeWhile_eq_all_conv)

lemma digits_plain:
  assumes "is_digit c" shows "c \<noteq> CHR ''-''" "c \<noteq> CHR ''+''" "c \<noteq> CHR ''x''" "c \<noteq> CHR ''X''" "\<not> is_space c"
  using assms by (auto simp: char_between_def code_def is_space_def)

lemma parseInt_natStr: "parseInt (natStr n) = Fin (of_nat n)"
proof -
  obtain c cs where n: "natStr n = c # cs" by (cases "natStr n") simp_all
  have d: "is_digit c" and ds: "\<And>x. x \<in> set cs \<Longrightarrow> is_digit x" using natStr_digits [of _ n] n by auto
  have sp: "dropWhile is_space (natStr n) = natStr n" using n digits_plain(5) [OF d] by simp
  have sg: "scanSign (natStr n) = (1, natStr n)" using n digits_plain(1,2) [OF d] by (simp add: scanSign_def)
  have x: "\<not> startsWith (natStr n) ''0x''" "\<not> startsWith (natStr n) ''0X''"
    using n ds [THEN digits_plain(3)] ds [THEN digits_plain(4)] by (cases cs; force simp: startsWith_def)+
  show ?thesis by (simp add: parseInt_def sp sg x takeWhile_natStr digitsVal_def)
qed

lemma field_reads_back: "0 < n \<Longrightarrow> parseIntOr (natStr n) d = of_nat n"
  by (simp add: parseIntOr_def parseInt_natStr)

definition fieldsSet :: "load_state \<Rightarrow> bool" where
  "fieldsSet s \<longleftrightarrow> lc_rate (ls_config s) \<noteq> 0 \<and> lc_duration_secs (ls_config s) \<noteq> 0 \<and> lc_tenants (ls_config s) \<noteq> 0"

lemma fieldsSet_edit: "fieldsSet s \<Longrightarrow> fieldsSet (editConfig e s)"
  by (cases e) (auto simp: editConfig_def fieldsSet_def setConfig_def Let_def patched_def noPatch_def parseIntOr_nonzero split: jsnum.split)

interpretation config_fields: preserved editConfig "\<lambda>_. True" fieldsSet
  by unfold_locales (rule fieldsSet_edit)

section \<open>Properties\<close>


definition labPage :: sim_page where
  "labPage = \<lparr>sp_selected = ''s3_exfil'', sp_params = sc_defaultParams s3_exfil, sp_runState = RsIdle, sp_hot = None, sp_memory = None,
     sp_pollState = PollIdle, sp_error = None, sp_pollRef = None, sp_intervals = [], sp_pollStart = 0, sp_history = []\<rparr>"

definition labAnswer :: simulate_response where
  "labAnswer = \<lparr>sm_event_ids = [''e1''], sm_username = ''u'', sm_action_id = Str ''a1'', sm_collector = passed 1 ''p'',
     sm_orchestrator = passed 2 ''o'', sm_calibration = passed 2 ''c'', sm_attestation = passed 3 ''t'', sm_verdict = Str ''benign'',
     sm_execution_path = Str ''llm'', sm_calibrated_confidence = Num (Fin (1 / 2)), sm_raw_prediction = Null,
     sm_novelty_score = Null, sm_escalated = Bool False, sm_classifier_evidence = Null, sm_total_latency_ms = 9\<rparr>"


text \<open>The page never goes blank: from its first state on, whatever is clicked and answered, it shows its hint, an error
  or the results, as long as every failure has a message.\<close>

theorem simulate_page_never_blank:
  assumes "sp_runState p = RsIdle" "list_all tellsWhy es"
  shows "showsHint (fold simStep es p) \<or> errorPanel (fold simStep es p) \<noteq> None \<or> showsResults (fold simStep es p)"
proof -
  have "shownPage p" using assms(1) by (simp add: panel_defs)
  from panels.run_inv [OF assms(2) this] show ?thesis by (simp add: shownPage_def)
qed

text \<open>A simulation whose event the collector did not accept never ends on the page: the route's answer carries no
  event, so nothing is polled, and although polling counts as finished all four memory rows keep saying that they are
  being verified.\<close>

theorem memory_rows_spin_without_event:
  assumes "simulatePOST body fCol fTri ms1 ms2 msAll = Some (Inl r)" "\<not> sg_ok (sm_collector r)"
    and p': "runAnswered sid (Inr r) now now' (runBegin p) = (p', target)"
  shows "target = None \<and> sp_pollState p' = PollFinished \<and> sp_pollRef p' = None \<and> showsResults p' \<and>
    map rw_state (memoryRows p') = replicate 4 StRunning"
proof -
  have "sm_event_ids r = []" by (rule simulatePOST_ids [OF assms(1,2)])
  then have "target = None" "sp_pollState p' = PollFinished" "sp_pollRef p' = None" "sp_hot p' = Some r" "sp_memory p' = None"
    "sp_runState p' = RsError"
    using p' assms(2) by (auto simp: runAnswered_def Let_def runBegin_def)
  then show ?thesis by (simp add: memory_states memoryState_def showsResults_def numeral_eq_Suc)
qed

theorem memory_rows_spin_without_event_witness:
  "\<exists>r. simulatePOST (Some sampleRun) (Rejected ''down'') (Answer 200 (Some (Obj [])) []) 1 2 3 = Some (Inl r) \<and>
     map rw_state (memoryRows (fst (runAnswered ''s3_exfil'' (Inr r) 1 2 (runBegin labPage)))) = replicate 4 StRunning"
proof -
  have sc: "getScenario ''s3_exfil'' = Some s3_exfil"
    by (simp add: getScenario_def SCENARIOS_def geo_anomaly_def brute_force_def root_account_def s3_exfil_def)
  obtain r where r: "simulatePOST (Some sampleRun) (Rejected ''down'') (Answer 200 (Some (Obj [])) []) 1 2 3 = Some (Inl r)"
    by (simp add: simulatePOST_def sampleRun_def dictGet_def sc asParams_def collectorRun_def triageRun_def okStatus_def Let_def)
  then have "\<not> sg_ok (sm_collector r)"
    by (auto simp: simulatePOST_def sampleRun_def dictGet_def sc asParams_def collectorRun_def triageRun_def okStatus_def
        stagesUp_def Let_def)
  from memory_rows_spin_without_event [OF r this surjective_pairing] r show ?thesis by blast
qed

text \<open>An answer is shown under the scenario that is selected when it arrives, also when the run was started for another
  one; the history keeps the right one.\<close>

theorem stale_answer_shown:
  assumes "sp_runState p \<noteq> RsRunning"
    and "p' = fold simStep [RunClicked, SelectScenario s, RunAnswered sid (Inr d) now now'] p"
  shows "sp_selected p' = sc_id s \<and> sp_params p' = sc_defaultParams s \<and> sp_hot p' = Some d \<and> showsResults p' \<and>
    (\<exists>run \<in> set (sp_history p'). sr_scenarioId run = sid)"
proof -
  have *: "sp_selected (clearPoll q) = sp_selected q" "sp_params (clearPoll q) = sp_params q" for q
    by (simp_all add: clearPoll_def split: option.split)
  show ?thesis unfolding assms(2)
    by (auto simp: assms(1) selectScenario_def runAnswered_def Let_def showsResults_def * pushRun_def slice_def split: list.split)
qed

text \<open>A batch counts an error body of the route as a success that took no time; only requests that fail count as errors.\<close>

theorem batch_counts_failures:
  "br_errors (batchResult (map jobLatency answers)) = length (filter (\<lambda>a. jobLatency a < 0) answers) \<and>
   jobLatency (Some (Inr e)) = 0 \<and> jobLatency None < 0"
  by (simp add: batchResult_def Let_def filter_map comp_def)

text \<open>The number fields of the load page: no sequence of edits leaves a rate, a duration or a number of tenants of zero,
  and a positive number is read back as it is shown. A negative one is accepted too.\<close>

theorem load_fields_nonzero:
  assumes "fieldsSet s"
  shows "fieldsSet (fold editConfig es s) \<and> (\<forall>n > 0. parseIntOr (natStr n) 1000 = of_nat n) \<and> parseIntOr ''-5'' 1000 = - 5"
proof -
  have "parseIntOr ''-5'' 1000 = - 5" by code_simp
  then show ?thesis using config_fields.run_inv [of es s] assms field_reads_back by (simp add: list_all_iff)
qed

text \<open>A preset is marked as active once it has been chosen.\<close>

lemma preset_chosen_active: "ls_status s \<notin> {LRunning, LStarting} \<Longrightarrow> ls_config (choosePreset c s) = c"
  by (simp add: choosePreset_def setConfig_def Let_def patched_def)

text \<open>A chart has one point for each snapshot of the history, at its position.\<close>

lemma chartData_points: "map snd (chartData key h) = map key h \<and> map fst (chartData key h) = [0..<length h]"
  by (auto simp: chartData_def nth_enumerate_eq intro!: nth_equalityI)

end
