(* ===== verification/Ui_State.thy ===== *)
theory Ui_State
  imports Trace_Views
begin

text \<open>
  The components of the interface library that keep a state of their own: the stepper (\<open>components/reui/stepper.tsx\<close>),
  which the trace pipeline is drawn with, the sidebar (\<open>components/ui/sidebar.tsx\<close>) and the media query
  (\<open>hooks/use-mobile.tsx\<close>). Button nodes are numbered; markup and styling are left out.
\<close>

section \<open>components/reui/stepper.tsx\<close>

datatype item_state = StepActive | StepCompleted | StepInactive

record 'n step_indicators =
  si_active :: "'n option"
  si_completed :: "'n option"
  si_inactive :: "'n option"
  si_loading :: "'n option"

definition itemState :: "bool \<Rightarrow> int \<Rightarrow> int \<Rightarrow> item_state" where
  "itemState completed step activeStep =
     (if completed \<or> step < activeStep then StepCompleted else if activeStep = step then StepActive else StepInactive)"

definition isLoading :: "bool \<Rightarrow> int \<Rightarrow> int \<Rightarrow> bool" where
  "isLoading loading step activeStep \<longleftrightarrow> loading \<and> step = activeStep"

text \<open>\<open>a || b\<close> on indicators that may be missing; without any, the children are shown.\<close>

fun firstGiven :: "'n option list \<Rightarrow> 'n \<Rightarrow> 'n" where
  "firstGiven [] own = own"
| "firstGiven (Some n # ns) own = n"
| "firstGiven (None # ns) own = firstGiven ns own"

definition stepperIndicator :: "'n step_indicators \<Rightarrow> item_state \<Rightarrow> bool \<Rightarrow> 'n \<Rightarrow> 'n" where
  "stepperIndicator inds st loading own =
     firstGiven [if loading then si_loading inds else None, if st = StepCompleted then si_completed inds else None,
       if st = StepActive then si_active inds else None, if st = StepInactive then si_inactive inds else None] own"

text \<open>A stepper: its own step and the one it may be given, the registered buttons, and of the document the buttons that
  can take the focus and the one that has it. \<open>sx_reported\<close> are the calls of \<open>onValueChange\<close>, newest first.\<close>

record stepper =
  sx_activeStep :: int
  sx_value :: "int option"
  sx_triggerNodes :: "nat list"
  sx_focusable :: "nat list"
  sx_focus :: "nat option"
  sx_reported :: "int list"

definition currentStep :: "stepper \<Rightarrow> int" where
  "currentStep s = (case sx_value s of Some v \<Rightarrow> v | None \<Rightarrow> sx_activeStep s)"

fun registerTrigger :: "nat option \<Rightarrow> stepper \<Rightarrow> stepper" where
  "registerTrigger None s = s"
| "registerTrigger (Some node) s =
     (if node \<in> set (sx_triggerNodes s) then s else s\<lparr>sx_triggerNodes := sx_triggerNodes s @ [node]\<rparr>)"

definition handleSetActiveStep :: "int \<Rightarrow> stepper \<Rightarrow> stepper" where
  "handleSetActiveStep step s =
     (let s' = (if sx_value s = None then s\<lparr>sx_activeStep := step\<rparr> else s) in s'\<lparr>sx_reported := step # sx_reported s\<rparr>)"

definition focusTrigger :: "int \<Rightarrow> stepper \<Rightarrow> stepper" where
  "focusTrigger idx s =
     (if 0 \<le> idx \<and> idx < int (length (sx_triggerNodes s)) \<and> sx_triggerNodes s ! nat idx \<in> set (sx_focusable s)
      then s\<lparr>sx_focus := Some (sx_triggerNodes s ! nat idx)\<rparr> else s)"

definition focusNext :: "int \<Rightarrow> stepper \<Rightarrow> stepper" where
  "focusNext i s = focusTrigger ((i + 1) mod int (length (sx_triggerNodes s))) s"

definition focusPrev :: "int \<Rightarrow> stepper \<Rightarrow> stepper" where
  "focusPrev i s = focusTrigger ((i - 1 + int (length (sx_triggerNodes s))) mod int (length (sx_triggerNodes s))) s"

definition focusFirst :: "stepper \<Rightarrow> stepper" where
  "focusFirst s = focusTrigger 0 s"

definition focusLast :: "stepper \<Rightarrow> stepper" where
  "focusLast s = focusTrigger (int (length (sx_triggerNodes s)) - 1) s"

fun indexOf :: "'a \<Rightarrow> 'a list \<Rightarrow> int option" where
  "indexOf x [] = None"
| "indexOf x (y # ys) = (if x = y then Some 0 else map_option (\<lambda>i. i + 1) (indexOf x ys))"

text \<open>A key on the button \<open>node\<close> of the item \<open>step\<close>.\<close>

definition handleKeyDown :: "string \<Rightarrow> nat \<Rightarrow> int \<Rightarrow> stepper \<Rightarrow> stepper" where
  "handleKeyDown key node step s =
     (if key \<in> {''ArrowRight'', ''ArrowDown''} then (case indexOf node (sx_triggerNodes s) of None \<Rightarrow> s | Some i \<Rightarrow> focusNext i s)
      else if key \<in> {''ArrowLeft'', ''ArrowUp''} then (case indexOf node (sx_triggerNodes s) of None \<Rightarrow> s | Some i \<Rightarrow> focusPrev i s)
      else if key = ''Home'' then focusFirst s
      else if key = ''End'' then focusLast s
      else if key \<in> {''Enter'', '' ''} then handleSetActiveStep step s
      else s)"

definition tabIndex :: "int option \<Rightarrow> int \<Rightarrow> stepper \<Rightarrow> int" where
  "tabIndex given step s = (case given of Some t \<Rightarrow> t | None \<Rightarrow> if currentStep s = step then 0 else - 1)"

text \<open>What a panel of content shows: nothing, itself, or itself hidden.\<close>

datatype content_view = NotMounted | ContentShown | ContentHidden

definition stepperContent :: "int \<Rightarrow> bool \<Rightarrow> stepper \<Rightarrow> content_view" where
  "stepperContent v forceMount s =
     (if v = currentStep s then ContentShown else if forceMount then ContentHidden else NotMounted)"

text \<open>What reaches a stepper: buttons that come, change or go, keys on the focused button, and clicks. A button that goes
  away or is disabled can no longer take the focus and loses it; React calls the ref with \<open>null\<close> when it goes.\<close>

datatype stepper_event =
    ButtonMounted nat
  | ButtonGone nat
  | TriggerDisabled nat
  | KeyOnFocus string int
  | ButtonClicked nat int

definition lose :: "nat \<Rightarrow> stepper \<Rightarrow> stepper" where
  "lose node s = s\<lparr>sx_focusable := filter (\<lambda>n. n \<noteq> node) (sx_focusable s),
     sx_focus := (if sx_focus s = Some node then None else sx_focus s)\<rparr>"

fun stepperStep :: "stepper_event \<Rightarrow> stepper \<Rightarrow> stepper" where
  "stepperStep (ButtonMounted node) s = registerTrigger (Some node) (s\<lparr>sx_focusable := node # sx_focusable s\<rparr>)"
| "stepperStep (ButtonGone node) s = registerTrigger None (lose node s)"
| "stepperStep (TriggerDisabled node) s = lose node s"
| "stepperStep (KeyOnFocus key step) s = (case sx_focus s of None \<Rightarrow> s | Some node \<Rightarrow> handleKeyDown key node step s)"
| "stepperStep (ButtonClicked node step) s =
     (if node \<in> set (sx_focusable s) then handleSetActiveStep step (s\<lparr>sx_focus := Some node\<rparr>) else s)"

section \<open>components/workbench/investigator-trace-stepper.tsx: the pipeline drawn\<close>

datatype pipeline_icon = CheckIcon | LoaderIcon | StepIcon

definition pipelineIndicators :: "pipeline_icon step_indicators" where
  "pipelineIndicators = \<lparr>si_active = None, si_completed = Some CheckIcon, si_inactive = None, si_loading = Some LoaderIcon\<rparr>"

definition pipelineItems :: "int \<Rightarrow> int option \<Rightarrow> bool list \<Rightarrow> (item_state \<times> pipeline_icon) list" where
  "pipelineItems active loading doneFlags =
     map (\<lambda>(index, flag). let n = int index + 1; st = itemState flag n active
          in (st, stepperIndicator pipelineIndicators st (isLoading (loading = Some n) n active) StepIcon))
       (enumerate 0 doneFlags)"

section \<open>components/ui/sidebar.tsx and hooks/use-mobile.tsx\<close>

definition SIDEBAR_COOKIE_MAX_AGE :: nat where
  "SIDEBAR_COOKIE_MAX_AGE = 60 * 60 * 24 * 7"

definition MOBILE_BREAKPOINT :: nat where
  "MOBILE_BREAKPOINT = 768"

text \<open>\<open>getSnapshot\<close>: the media query on the width of the window in pixels.\<close>

definition isMobileWidth :: "rat \<Rightarrow> bool" where
  "isMobileWidth width \<longleftrightarrow> width \<le> of_nat MOBILE_BREAKPOINT - 1"

text \<open>The provider: its own flag and the one it may be given, with the handler that then takes changes
  (\<open>sb_reported\<close>, newest first, when there is one), the sheet of small screens, and the cookie.\<close>

record sidebar =
  sb_own :: bool
  sb_openProp :: "bool option"
  sb_hasHandler :: bool
  sb_reported :: "bool list"
  sb_openMobile :: bool
  sb_width :: rat
  sb_cookie :: "string option"

definition sidebarOpen :: "sidebar \<Rightarrow> bool" where
  "sidebarOpen s = (case sb_openProp s of Some b \<Rightarrow> b | None \<Rightarrow> sb_own s)"

definition boolStr :: "bool \<Rightarrow> string" where
  "boolStr b = (if b then ''true'' else ''false'')"

definition sidebarCookie :: "bool \<Rightarrow> string" where
  "sidebarCookie b = ''sidebar_state='' @ boolStr b @ ''; path=/; max-age='' @ natStr SIDEBAR_COOKIE_MAX_AGE"

definition setOpen :: "(bool \<Rightarrow> bool) \<Rightarrow> sidebar \<Rightarrow> sidebar" where
  "setOpen f s =
     (let openState = f (sidebarOpen s);
          s' = (if sb_hasHandler s then s\<lparr>sb_reported := openState # sb_reported s\<rparr> else s\<lparr>sb_own := openState\<rparr>)
      in s'\<lparr>sb_cookie := Some (sidebarCookie openState)\<rparr>)"

definition toggleSidebar :: "sidebar \<Rightarrow> sidebar" where
  "toggleSidebar s = (if isMobileWidth (sb_width s) then s\<lparr>sb_openMobile := \<not> sb_openMobile s\<rparr> else setOpen Not s)"

definition sidebarKey :: "string \<Rightarrow> bool \<Rightarrow> bool \<Rightarrow> sidebar \<Rightarrow> sidebar" where
  "sidebarKey key meta ctrl s = (if key = ''b'' \<and> (meta \<or> ctrl) then toggleSidebar s else s)"

definition sidebarState :: "sidebar \<Rightarrow> string" where
  "sidebarState s = (if sidebarOpen s then ''expanded'' else ''collapsed'')"

datatype collapsible = Offcanvas | IconOnly | NeverCollapsed

datatype sidebar_view = FixedColumn | MobileSheet bool | DesktopColumn string "collapsible option"

definition sidebarView :: "collapsible \<Rightarrow> sidebar \<Rightarrow> sidebar_view" where
  "sidebarView c s =
     (if c = NeverCollapsed then FixedColumn
      else if isMobileWidth (sb_width s) then MobileSheet (sb_openMobile s)
      else DesktopColumn (sidebarState s) (if sidebarState s = ''collapsed'' then Some c else None))"

definition tooltipHidden :: "sidebar \<Rightarrow> bool" where
  "tooltipHidden s \<longleftrightarrow> sidebarState s \<noteq> ''collapsed'' \<or> isMobileWidth (sb_width s)"

definition skeletonWidth :: "string \<Rightarrow> nat" where
  "skeletonWidth skeletonId = 50 + fold (\<lambda>c h. (h + code c) mod 40) skeletonId 0"

datatype sidebar_event = Toggled | Shortcut string bool bool | Resized rat | SheetChanged bool

fun sidebarStep :: "sidebar_event \<Rightarrow> sidebar \<Rightarrow> sidebar" where
  "sidebarStep Toggled s = toggleSidebar s"
| "sidebarStep (Shortcut key meta ctrl) s = sidebarKey key meta ctrl s"
| "sidebarStep (Resized w) s = s\<lparr>sb_width := w\<rparr>"
| "sidebarStep (SheetChanged b) s = s\<lparr>sb_openMobile := b\<rparr>"

section \<open>Facts about the stepper\<close>

lemma indexOf_nth: "distinct xs \<Longrightarrow> i < length xs \<Longrightarrow> indexOf (xs ! i) xs = Some (int i)"
  by (induction xs arbitrary: i) (auto simp: nth_Cons split: nat.split)

lemma indexOf_range: "indexOf x xs = Some i \<Longrightarrow> 0 \<le> i \<and> i < int (length xs) \<and> xs ! nat i = x"
proof (induction xs arbitrary: i)
  case (Cons y ys)
  show ?case
  proof (cases "x = y")
    case False
    with Cons.prems obtain j where j: "indexOf x ys = Some j" "i = j + 1" by auto
    with Cons.IH [OF j(1)] show ?thesis by (simp add: nat_add_distrib)
  qed (use Cons.prems in auto)
qed simp

definition stepperOk :: "stepper \<Rightarrow> bool" where
  "stepperOk s \<longleftrightarrow> distinct (sx_triggerNodes s) \<and> set (sx_focusable s) \<subseteq> set (sx_triggerNodes s) \<and>
     (\<forall>n. sx_focus s = Some n \<longrightarrow> n \<in> set (sx_focusable s))"

lemma stepperOk_focusTrigger: "stepperOk s \<Longrightarrow> stepperOk (focusTrigger i s)"
  by (auto simp: stepperOk_def focusTrigger_def)

lemma stepperOk_setActive: "stepperOk s \<Longrightarrow> stepperOk (handleSetActiveStep step s)"
  by (simp add: stepperOk_def handleSetActiveStep_def Let_def)

lemma stepperOk_key: "stepperOk s \<Longrightarrow> stepperOk (handleKeyDown key node step s)"
  by (simp add: handleKeyDown_def focusNext_def focusPrev_def focusFirst_def focusLast_def stepperOk_focusTrigger stepperOk_setActive
      split: option.split)

lemma stepperOk_step: "stepperOk s \<Longrightarrow> stepperOk (stepperStep e s)"
proof (cases e)
  case (KeyOnFocus key step)
  assume "stepperOk s" then show ?thesis by (simp add: KeyOnFocus stepperOk_key split: option.split)
next
  case (ButtonClicked node step)
  assume "stepperOk s"
  then show ?thesis by (auto simp: ButtonClicked stepperOk_def handleSetActiveStep_def Let_def)
qed (auto simp: stepperOk_def lose_def)

interpretation stepper_machine: preserved stepperStep "\<lambda>_. True" stepperOk
  by unfold_locales (rule stepperOk_step)

lemma focusTrigger_at:
  assumes "i < length (sx_triggerNodes s)" "set (sx_triggerNodes s) \<subseteq> set (sx_focusable s)"
  shows "focusTrigger (int i) s = s\<lparr>sx_focus := Some (sx_triggerNodes s ! i)\<rparr>"
proof -
  have "sx_triggerNodes s ! i \<in> set (sx_focusable s)" using nth_mem [OF assms(1)] assms(2) by blast
  with assms(1) show ?thesis by (simp add: focusTrigger_def)
qed

lemma arrow_keys:
  assumes "distinct (sx_triggerNodes s)" "set (sx_triggerNodes s) \<subseteq> set (sx_focusable s)"
    and "i < length (sx_triggerNodes s)" "sx_focus s = Some (sx_triggerNodes s ! i)"
  shows "stepperStep (KeyOnFocus ''ArrowRight'' st) s =
      s\<lparr>sx_focus := Some (sx_triggerNodes s ! (Suc i mod length (sx_triggerNodes s)))\<rparr>"
    and "stepperStep (KeyOnFocus ''ArrowLeft'' st) s =
      s\<lparr>sx_focus := Some (sx_triggerNodes s ! ((i + length (sx_triggerNodes s) - 1) mod length (sx_triggerNodes s)))\<rparr>"
proof -
  let ?n = "length (sx_triggerNodes s)"
  have n: "0 < ?n" using assms(3) by (cases ?n) simp_all
  have ix: "indexOf (sx_triggerNodes s ! i) (sx_triggerNodes s) = Some (int i)" by (rule indexOf_nth [OF assms(1,3)])
  have r: "(int i + 1) mod int ?n = int (Suc i mod ?n)" by (simp add: zmod_int add.commute)
  have "int i - 1 + int ?n = int (i + ?n - 1)" using n by linarith
  then have l: "(int i - 1 + int ?n) mod int ?n = int ((i + ?n - 1) mod ?n)" by (simp only: zmod_int)
  show "stepperStep (KeyOnFocus ''ArrowRight'' st) s = s\<lparr>sx_focus := Some (sx_triggerNodes s ! (Suc i mod ?n))\<rparr>"
    using focusTrigger_at [OF mod_less_divisor [OF n] assms(2)] by (simp add: assms(4) handleKeyDown_def ix focusNext_def r)
  show "stepperStep (KeyOnFocus ''ArrowLeft'' st) s = s\<lparr>sx_focus := Some (sx_triggerNodes s ! ((i + ?n - 1) mod ?n))\<rparr>"
  proof -
    have "stepperStep (KeyOnFocus ''ArrowLeft'' st) s = focusPrev (int i) s" by (simp add: assms(4) handleKeyDown_def ix)
    then show ?thesis unfolding focusPrev_def l using focusTrigger_at [OF mod_less_divisor [OF n] assms(2)] by simp
  qed
qed

section \<open>Properties\<close>

text \<open>The triage pipeline draws progress: whatever steps have arrived and however long it runs, the four items are
  completed up to some point, then one is active and drawn as loading, and the rest are inactive; when all are
  completed nothing is drawn as loading.\<close>

theorem pipeline_draws_progress:
  "\<exists>k \<le> 4. pipelineItems (ps_activeStep (triagePipeline ss elapsed)) (ps_loadingStep (triagePipeline ss elapsed))
      (ps_done (triagePipeline ss elapsed)) =
    replicate k (StepCompleted, CheckIcon) @
      (if k = 4 then [] else (StepActive, LoaderIcon) # replicate (3 - k) (StepInactive, StepIcon))"
proof -
  have ex: "(\<exists>k \<le> 4. P k) \<longleftrightarrow> P 0 \<or> P 1 \<or> P 2 \<or> P 3 \<or> P (4::nat)" for P
    by (auto simp: le_Suc_eq numeral_eq_Suc)
  have "hasKind [''envelope'', ''triage_complete''] ss \<or> \<not> hasKind [''envelope'', ''triage_complete''] ss" by blast
  then show ?thesis unfolding ex
    by (auto simp: triagePipeline_def Let_def pipelineItems_def itemState_def isLoading_def stepperIndicator_def
        pipelineIndicators_def numeral_eq_Suc)
qed

text \<open>The arrow keys walk the ring of buttons: with every button able to take the focus, \<open>k\<close> presses of the right arrow
  move it \<open>k\<close> places on, around the end, and the left arrow undoes the right one.\<close>

theorem arrow_keys_walk_ring:
  assumes "distinct (sx_triggerNodes s)" "set (sx_triggerNodes s) \<subseteq> set (sx_focusable s)"
    and "i < length (sx_triggerNodes s)" "sx_focus s = Some (sx_triggerNodes s ! i)"
  shows "sx_focus ((stepperStep (KeyOnFocus ''ArrowRight'' st) ^^ k) s) =
      Some (sx_triggerNodes s ! ((i + k) mod length (sx_triggerNodes s))) \<and>
    stepperStep (KeyOnFocus ''ArrowLeft'' st) (stepperStep (KeyOnFocus ''ArrowRight'' st) s) = s"
proof -
  let ?ns = "sx_triggerNodes s" and ?right = "stepperStep (KeyOnFocus ''ArrowRight'' st)"
  have n: "0 < length ?ns" using assms(3) by (cases "length ?ns") simp_all
  have walk: "(?right ^^ k) s = s\<lparr>sx_focus := Some (?ns ! ((i + k) mod length ?ns))\<rparr>" for k
  proof (induction k)
    case (Suc k)
    let ?s = "s\<lparr>sx_focus := Some (?ns ! ((i + k) mod length ?ns))\<rparr>"
    have "?right ?s = ?s\<lparr>sx_focus := Some (?ns ! (Suc ((i + k) mod length ?ns) mod length ?ns))\<rparr>"
      using arrow_keys(1) [of ?s "(i + k) mod length ?ns" st] assms(1,2) n by simp
    with Suc show ?case by (simp add: mod_Suc_eq)
  qed (use assms(3,4) in simp)
  have "(Suc i mod length ?ns + length ?ns - 1) mod length ?ns = i"
  proof (cases "Suc i = length ?ns")
    case False
    with assms(3) show ?thesis by simp
  qed simp
  with arrow_keys(2) [of "?right s" "Suc i mod length ?ns" st] arrow_keys(1) [OF assms, of st] assms n
  have "stepperStep (KeyOnFocus ''ArrowLeft'' st) (?right s) = s" by simp
  with walk [of k] show ?thesis by simp
qed

text \<open>A button that has gone stays registered, and the right arrow on the one before it no longer moves the focus: the
  ref of a button that goes is called with \<open>null\<close>, which leaves the list as it is.\<close>

theorem gone_button_blocks_arrow:
  "let s = fold stepperStep [ButtonMounted 1, ButtonMounted 2, ButtonMounted 3, ButtonClicked 1 1, ButtonGone 2] s0
   in sx_triggerNodes s0 = [] \<and> sx_focusable s0 = [] \<longrightarrow>
      sx_triggerNodes s = [1, 2, 3] \<and> sx_focus s = Some 1 \<and> stepperStep (KeyOnFocus ''ArrowRight'' 1) s = s"
  by (simp add: Let_def handleSetActiveStep_def lose_def handleKeyDown_def focusNext_def focusTrigger_def)

text \<open>Of a stepper that is given its value only the owner moves the step: every change is reported and none is made.\<close>

lemma controlled_step:
  "sx_value s = Some v \<Longrightarrow> currentStep (stepperStep e s) = v"
  by (cases e) (auto simp: currentStep_def handleSetActiveStep_def handleKeyDown_def focusNext_def focusPrev_def focusFirst_def
      focusLast_def focusTrigger_def lose_def Let_def split: option.split)

text \<open>Nobody but a registered button that can take it ever has the focus.\<close>

theorem stepper_focus_safe:
  assumes "stepperOk s"
  shows "sx_focus (fold stepperStep es s) = Some n \<longrightarrow>
    n \<in> set (sx_triggerNodes (fold stepperStep es s)) \<and> n \<in> set (sx_focusable (fold stepperStep es s))"
  using stepper_machine.run_inv [of es s] assms by (auto simp: list_all_iff stepperOk_def)

section \<open>Facts about the sidebar\<close>

definition cookieTells :: "sidebar \<Rightarrow> bool" where
  "cookieTells s \<longleftrightarrow> sb_openProp s = None \<and> \<not> sb_hasHandler s \<and> (\<forall>c. sb_cookie s = Some c \<longrightarrow> c = sidebarCookie (sidebarOpen s))"

lemma cookieTells_toggle: "cookieTells s \<Longrightarrow> cookieTells (toggleSidebar s)"
  by (auto simp: cookieTells_def toggleSidebar_def setOpen_def sidebarOpen_def Let_def)

lemma cookieTells_step: "cookieTells s \<Longrightarrow> cookieTells (sidebarStep e s)"
  by (cases e) (auto simp: sidebarKey_def cookieTells_toggle, auto simp: cookieTells_def sidebarOpen_def)

interpretation sidebar_machine: preserved sidebarStep "\<lambda>_. True" cookieTells
  by unfold_locales (rule cookieTells_step)

text \<open>A sidebar that keeps its own flag: after any events the cookie, once set, tells whether it is open; two toggles at
  one width restore it; and on a small screen a toggle moves the sheet only.\<close>

theorem sidebar_consistent:
  assumes "cookieTells s" "s' = fold sidebarStep es s"
  shows "(\<forall>c. sb_cookie s' = Some c \<longrightarrow> c = sidebarCookie (sidebarOpen s')) \<and>
    sidebarOpen (toggleSidebar (toggleSidebar s')) = sidebarOpen s' \<and>
    sb_openMobile (toggleSidebar (toggleSidebar s')) = sb_openMobile s' \<and>
    (isMobileWidth (sb_width s') \<longrightarrow> sb_cookie (toggleSidebar s') = sb_cookie s' \<and> sidebarOpen (toggleSidebar s') = sidebarOpen s')"
proof -
  have "cookieTells s'" using sidebar_machine.run_inv [of es s] assms by (simp add: list_all_iff)
  then show ?thesis
    by (auto simp: cookieTells_def toggleSidebar_def setOpen_def sidebarOpen_def Let_def)
qed

text \<open>The width of a placeholder is between fifty and eighty-nine percent.\<close>

lemma skeletonWidth_range: "50 \<le> skeletonWidth i \<and> skeletonWidth i \<le> 89"
proof -
  have "fold (\<lambda>c h. (h + code c) mod 40) i h < 40" if "h < 40" for h
    using that by (induction i arbitrary: h) simp_all
  from this [of 0] show ?thesis by (simp add: skeletonWidth_def)
qed

end
