(* ===== verification/Public_Site.thy ===== *)
theory Public_Site
  imports Stack_Data Workbench_Pages
begin

text \<open>
  The public site: the text for language models made from the stack tables (\<open>lib/llms.ts\<close>), the stack page, the
  deployment picker, the menu and the quick start of \<open>components/marketing\<close>, and its three carousels: the diagrams of
  \<open>flow-diagram.tsx\<close>, the guards of \<open>agent-guards-section.tsx\<close> and the verify demo of \<open>Workbench_Pages\<close>. The locale
  \<open>carousel\<close> carries what they share.
\<close>

section \<open>lib/llms.ts and the stack page\<close>

definition groupStr :: "plane_group \<Rightarrow> string" where
  "groupStr g = (case g of ControlGroup \<Rightarrow> ''control'' | DataGroup \<Rightarrow> ''data'')"

definition cloudStr :: "cloud \<Rightarrow> string" where
  "cloudStr c = (case c of AttestCloud \<Rightarrow> ''attest'' | CustomerCloud \<Rightarrow> ''customer'')"

definition linkText :: "plane_component \<Rightarrow> string" where
  "linkText c = (case pc_path c of
       Some p \<Rightarrow> if p = [] then pc_name c else ''['' @ pc_name c @ '']('' @ repoLink p @ '')'' | None \<Rightarrow> pc_name c)"

definition componentLine :: "bool \<Rightarrow> plane_component \<Rightarrow> string" where
  "componentLine detailed c =
     (let tag = (if isPlanned c then '' [planned]'' else [])
      in if detailed then ''- '' @ linkText c @ '' ('' @ pc_tech c @ '')'' @ tag @ '': '' @ pc_role c
         else ''- '' @ pc_name c @ '' ('' @ pc_tech c @ '')'' @ tag)"

definition planeLines :: "bool \<Rightarrow> plane \<Rightarrow> string list" where
  "planeLines detailed p =
     [''### '' @ pl_name p @ '' ('' @ groupStr (pl_group p) @ '' plane)'', [], pl_summary p, []]
       @ map (componentLine detailed) (pl_components p) @ [[]]"

definition deploymentLine :: "deployment \<Rightarrow> string" where
  "deploymentLine d = ''- '' @ dp_name d @ (if dp_status d = Planned then '' [planned]'' else '' [live]'') @ '': control in ''
     @ cloudStr (dp_controlIn d) @ '' cloud, data in '' @ cloudStr (dp_dataIn d) @ '' cloud. '' @ dp_note d"

definition stackLines :: "bool \<Rightarrow> string list" where
  "stackLines detailed =
     [''## Logical architecture (six planes)'', [],
      ''The agentic plane never reaches into the storage plane directly. It calls the detection plane and a governed query API.'', []]
       @ concat (map (planeLines detailed) planes) @ [''## Deployments'', []] @ map deploymentLine deployments @ [[]]"

definition stackSection :: "bool \<Rightarrow> string" where
  "stackSection detailed = joinWith newline (stackLines detailed)"

definition totalComponents :: nat where
  "totalComponents = fold (\<lambda>p n. n + length (pl_components p)) planes 0"

definition ordinal :: "nat \<Rightarrow> string" where
  "ordinal i = padStart 2 (natStr (i + 1))"

definition planeAnchors :: "(string \<times> string) list" where
  "planeAnchors = map (\<lambda>(i, p). (''#'' @ pl_id p, ordinal i @ '' '' @ pl_name p)) (enumerate 0 planes)"

section \<open>components/marketing/deployment-section.tsx\<close>

definition controlPlanes :: "plane list" where
  "controlPlanes = filter (\<lambda>p. pl_group p = ControlGroup) planes"

definition dataPlanes :: "plane list" where
  "dataPlanes = filter (\<lambda>p. pl_group p = DataGroup) planes"

definition activeModel :: "string \<Rightarrow> deployment" where
  "activeModel active = (case find (\<lambda>d. dp_id d = active) deployments of Some d \<Rightarrow> d | None \<Rightarrow> hd deployments)"

datatype cloud_box = BoxUnused string | BoxPlanes "(string \<times> plane list) list"

definition cloudBox :: "deployment \<Rightarrow> cloud \<Rightarrow> cloud_box" where
  "cloudBox sides place =
     (let controlHere = (dp_controlIn sides = place); dataHere = (dp_dataIn sides = place)
      in if \<not> controlHere \<and> \<not> dataHere
         then BoxUnused (if place = CustomerCloud then ''Not used '' @ em_dash @ '' we host all six planes.''
                else ''Not used '' @ em_dash @ '' everything runs on your hardware.'')
         else BoxPlanes ((if controlHere then [(''Control plane'', controlPlanes)] else []) @
                (if dataHere then [(''Data plane'', dataPlanes)] else [])))"

fun boxPlanes :: "cloud_box \<Rightarrow> plane list" where
  "boxPlanes (BoxUnused note) = []"
| "boxPlanes (BoxPlanes groups) = concat (map snd groups)"

section \<open>components/marketing/marketing-nav.tsx and quickstart-section.tsx\<close>

definition navLinks :: "(string \<times> string) list" where
  "navLinks = [(''/#try'', ''Try''), (''/#verify'', ''Verify''), (''/#pipeline'', ''Pipeline''), (''/#guards'', ''Guards''),
     (''/#detections'', ''Detections''), (''/stack'', ''Stack''), (''https://github.com/mhomaid/attest'', ''GitHub'')]"

datatype nav_event = MenuClicked | LinkClicked

fun navStep :: "nav_event \<Rightarrow> bool \<Rightarrow> bool" where
  "navStep MenuClicked opened = (\<not> opened)"
| "navStep LinkClicked opened = False"

text \<open>The copy button: a flag and the times at which the pending timeouts take it back.\<close>

record copy_button =
  cb_copied :: bool
  cb_timeouts :: "int list"

definition copyDone :: "int \<Rightarrow> copy_button \<Rightarrow> copy_button" where
  "copyDone now b = b\<lparr>cb_copied := True, cb_timeouts := cb_timeouts b @ [now + 1500]\<rparr>"

definition copyTimeout :: "int \<Rightarrow> copy_button \<Rightarrow> copy_button" where
  "copyTimeout due b = (if due \<in> set (cb_timeouts b) then b\<lparr>cb_copied := False, cb_timeouts := remove1 due (cb_timeouts b)\<rparr> else b)"

section \<open>components/marketing/flow-diagram.tsx\<close>

text \<open>\<open>useCycledIndex\<close>: the index, whether the element is in view, and the generation that restarts the interval.\<close>

record cycled =
  cy_length :: nat
  cy_enabled :: bool
  cy_inView :: bool
  cy_active :: nat
  cy_generation :: nat

datatype cycle_event = CycleTick | CycleView bool | CycleSelect nat

definition cycling :: "cycled \<Rightarrow> bool" where
  "cycling s \<longleftrightarrow> cy_enabled s \<and> cy_inView s \<and> \<not> cy_length s < 2"

fun cycleStep :: "cycle_event \<Rightarrow> cycled \<Rightarrow> cycled" where
  "cycleStep CycleTick s = (if cycling s then s\<lparr>cy_active := (cy_active s + 1) mod cy_length s\<rparr> else s)"
| "cycleStep (CycleView b) s = s\<lparr>cy_inView := b\<rparr>"
| "cycleStep (CycleSelect i) s = (if i < cy_length s then s\<lparr>cy_active := i, cy_generation := cy_generation s + 1\<rparr> else s)"

definition branchNodes :: "'s \<Rightarrow> 's \<Rightarrow> 's \<Rightarrow> 's \<Rightarrow> 's option \<Rightarrow> 's list" where
  "branchNodes start left right join final =
     (case final of Some e \<Rightarrow> [start, left, right, join, e] | None \<Rightarrow> [start, left, right, join])"

definition edgeActive :: "nat \<Rightarrow> cycled \<Rightarrow> bool" where
  "edgeActive i s \<longleftrightarrow> i + 1 < cy_length s \<and> cy_active s = i"

section \<open>components/marketing/agent-guards-section.tsx\<close>

definition ATTACK_MS :: int where
  "ATTACK_MS = 3400"

definition BLOCK_AFTER_MS :: int where
  "BLOCK_AFTER_MS = 1300"

record guards =
  gd_active :: nat
  gd_blockedFor :: "nat option"
  gd_paused :: bool
  gd_block :: "int option"
  gd_next :: "int option"

text \<open>The effect, which runs again, after its clean-up, when the active attack or the pause has changed.\<close>

definition guardsEffect :: "bool \<Rightarrow> int \<Rightarrow> guards \<Rightarrow> guards" where
  "guardsEffect reduceMotion now s =
     (if reduceMotion then s\<lparr>gd_block := None, gd_next := None\<rparr>
      else s\<lparr>gd_block := Some (now + BLOCK_AFTER_MS), gd_next := (if gd_paused s then None else Some (now + ATTACK_MS))\<rparr>)"

definition mountGuards :: "bool \<Rightarrow> int \<Rightarrow> guards" where
  "mountGuards reduceMotion now = guardsEffect reduceMotion now
     \<lparr>gd_active = 0, gd_blockedFor = None, gd_paused = False, gd_block = None, gd_next = None\<rparr>"

definition guardBlocked :: "bool \<Rightarrow> guards \<Rightarrow> bool" where
  "guardBlocked reduceMotion s \<longleftrightarrow> reduceMotion \<or> gd_blockedFor s = Some (gd_active s)"

datatype guards_event = GuardBlockTimer | GuardNextTimer int | GuardPause bool int | GuardPick nat int

fun guardsStep :: "bool \<Rightarrow> guards_event \<Rightarrow> guards \<Rightarrow> guards" where
  "guardsStep r GuardBlockTimer s =
     (if gd_block s = None then s else s\<lparr>gd_blockedFor := Some (gd_active s), gd_block := None\<rparr>)"
| "guardsStep r (GuardNextTimer now) s =
     (if gd_next s = None then s else guardsEffect r now (s\<lparr>gd_active := (gd_active s + 1) mod length attacks\<rparr>))"
| "guardsStep r (GuardPause b now) s = (if gd_paused s = b then s else guardsEffect r now (s\<lparr>gd_paused := b\<rparr>))"
| "guardsStep r (GuardPick i now) s =
     (if i < length attacks \<and> gd_active s \<noteq> i then guardsEffect r now (s\<lparr>gd_active := i\<rparr>) else s)"

section \<open>components/marketing/stack-diagram-section.tsx\<close>

definition GATE_MS :: int where
  "GATE_MS = 3600"

definition DENY_AFTER_MS :: int where
  "DENY_AFTER_MS = 1400"

definition gateDelay :: "nat \<Rightarrow> int" where
  "gateDelay cycle = (if cycle mod 2 = 0 then DENY_AFTER_MS else GATE_MS - DENY_AFTER_MS)"

definition gateBlocked :: "bool \<Rightarrow> nat \<Rightarrow> bool" where
  "gateBlocked reduceMotion cycle \<longleftrightarrow> reduceMotion \<or> cycle mod 2 = 1"

definition gateText :: "bool \<Rightarrow> string" where
  "gateText blocked = (if blocked then ''DENIED agentic '' @ right_arrow @ '' storage (direct)'' else ''agent tries storage.query()'')"

section \<open>Facts\<close>

subsection \<open>Carousels\<close>

text \<open>What a carousel's timer does to its position while it runs.\<close>

locale carousel =
  fixes advance :: "'s \<Rightarrow> 's" and running :: "'s \<Rightarrow> bool" and position :: "'s \<Rightarrow> nat" and size :: "'s \<Rightarrow> nat"
  assumes advances: "running s \<Longrightarrow> running (advance s) \<and> size (advance s) = size s \<and> position (advance s) = (position s + 1) mod size s"
begin

lemma walks:
  assumes "running s"
  shows "running ((advance ^^ k) s) \<and> size ((advance ^^ k) s) = size s \<and>
    position ((advance ^^ k) s) mod size s = (position s + k) mod size s"
proof (induction k)
  case (Suc k)
  let ?s = "(advance ^^ k) s"
  from Suc have "running ?s" by simp
  note a = advances [OF this]
  have "position (advance ?s) mod size s = (position ?s + 1) mod size s" using a Suc by simp
  also have "\<dots> = (position ?s mod size s + 1) mod size s" by (simp only: mod_add_left_eq)
  also have "\<dots> = (position s + Suc k) mod size s" using Suc by (simp add: mod_Suc_eq)
  finally show ?case using a Suc by simp
qed (use assms in simp)

lemma reaches:
  assumes "running s" "position s < size s" "j < size s"
  shows "\<exists>k < size s. position ((advance ^^ k) s) mod size s = j"
proof -
  let ?k = "(j + size s - position s) mod size s"
  have n: "0 < size s" using assms(2) by simp
  have "position ((advance ^^ ?k) s) mod size s = (position s + (j + size s - position s)) mod size s"
    using walks [OF assms(1), of ?k] by (simp add: mod_add_right_eq)
  also have "\<dots> = j" using assms(2,3) by simp
  finally show ?thesis using n by (intro exI [of _ ?k]) simp
qed

end

interpretation flow_carousel: carousel "cycleStep CycleTick" cycling cy_active cy_length
  by unfold_locales (simp add: cycling_def)

interpretation verify_carousel: carousel "verifyStep False VdTick" "\<lambda>p. \<not> vd_paused p" vd_phase "\<lambda>_. length verifySteps"
  by unfold_locales simp

interpretation guards_carousel: carousel "guardsStep False (GuardNextTimer now)" "\<lambda>s. gd_next s \<noteq> None \<and> \<not> gd_paused s" gd_active
    "\<lambda>_. length attacks" for now
  by unfold_locales (auto simp: guardsEffect_def)

lemma attacks_count [simp]: "length attacks = 5"
  by (simp add: attacks_def)

text \<open>The guards: what is pending follows from the pause, and an attack whose timer has fired is shown as denied.\<close>

definition guardsOk :: "bool \<Rightarrow> guards \<Rightarrow> bool" where
  "guardsOk r s \<longleftrightarrow> gd_active s < length attacks \<and>
     (if r then gd_block s = None \<and> gd_next s = None
      else (gd_next s = None \<longleftrightarrow> gd_paused s) \<and> (gd_block s = None \<longrightarrow> gd_blockedFor s = Some (gd_active s)))"

lemma guardsOk_effect: "gd_active s < length attacks \<Longrightarrow> guardsOk r (guardsEffect r now s)"
  by (simp add: guardsOk_def guardsEffect_def)

lemma guardsOk_step: "guardsOk r s \<Longrightarrow> guardsOk r (guardsStep r e s)"
proof (cases e)
  case GuardBlockTimer
  assume "guardsOk r s" then show ?thesis by (auto simp: GuardBlockTimer guardsOk_def)
qed (auto simp: guardsOk_def [of r s] intro: guardsOk_effect)

interpretation guards_machine: preserved "guardsStep r" "\<lambda>_. True" "guardsOk r" for r
  by unfold_locales (rule guardsOk_step)

subsection \<open>Tables\<close>

lemmas plane_defs = planes_def workbenchPlane_def agenticPlane_def detectionPlane_def storagePlane_def streamingPlane_def controlPlane_def

lemma starts_dash [simp]: "startsWith (componentLine detailed c) ''- ''" "startsWith (deploymentLine d) ''- ''"
  by (simp_all add: componentLine_def deploymentLine_def startsWith_def Let_def)

definition plainSummary :: "plane \<Rightarrow> bool" where
  "plainSummary p \<longleftrightarrow> \<not> startsWith (pl_summary p) ''- ''"

lemma bullets_plane:
  "plainSummary p \<Longrightarrow> filter (\<lambda>l. startsWith l ''- '') (planeLines detailed p) = map (componentLine detailed) (pl_components p)"
  by (simp add: planeLines_def plainSummary_def startsWith_def filter_map comp_def)
     (simp add: starts_dash [unfolded startsWith_def, simplified])

lemma bullets_planes:
  "list_all plainSummary ps \<Longrightarrow> filter (\<lambda>l. startsWith l ''- '') (concat (map (planeLines detailed) ps)) =
     map (componentLine detailed) (concat (map pl_components ps))"
  by (induction ps) (simp_all add: bullets_plane)

lemma plain_planes: "list_all plainSummary planes"
  by (simp add: plane_defs plainSummary_def startsWith_def)

section \<open>Properties\<close>

text \<open>The text for language models lists the whole stack: its bullet lines are exactly one for every component of the six
  planes and then one for every deployment, in the order of the tables, brief or detailed.\<close>

theorem llms_lists_stack:
  "filter (\<lambda>l. startsWith l ''- '') (stackLines detailed) =
     map (componentLine detailed) (concat (map pl_components planes)) @ map deploymentLine deployments"
proof -
  have "filter (\<lambda>l. startsWith l ''- '') (map deploymentLine ds) = map deploymentLine ds" for ds by (induction ds) simp_all
  moreover have "\<not> startsWith [] ''- ''" "\<not> startsWith ''## Deployments'' ''- ''" by (simp_all add: startsWith_def)
  ultimately show ?thesis
    by (simp add: stackLines_def bullets_planes [OF plain_planes]) (simp add: startsWith_def)
qed

text \<open>Of every deployment, named or not, the two boxes show each of the six planes exactly once between them.\<close>

theorem deployment_places_every_plane:
  "mset (boxPlanes (cloudBox d AttestCloud) @ boxPlanes (cloudBox d CustomerCloud)) = mset planes \<and>
   (\<forall>place. boxPlanes (cloudBox d place) = [] \<longleftrightarrow> (\<exists>note. cloudBox d place = BoxUnused note))"
proof -
  have d: "dataPlanes = filter (\<lambda>p. \<not> pl_group p = ControlGroup) planes"
    unfolding dataPlanes_def by (rule filter_cong [OF refl]) (metis plane_group.exhaust plane_group.distinct(1))
  have "mset controlPlanes + mset dataPlanes = mset planes"
    unfolding d controlPlanes_def mset_filter by (rule multiset_partition [symmetric])
  moreover have "controlPlanes \<noteq> []" "dataPlanes \<noteq> []" by (simp_all add: controlPlanes_def dataPlanes_def plane_defs)
  ultimately show ?thesis
    by (cases "dp_controlIn d"; cases "dp_dataIn d") (auto simp: cloudBox_def Let_def add.commute split: cloud.split if_splits)
qed

text \<open>A component is planned exactly when it has no place in the repository.\<close>

theorem planned_components_unlinked:
  "list_all (\<lambda>c. isPlanned c \<longleftrightarrow> pc_path c = None) (concat (map pl_components planes)) \<and> totalComponents = 30"
  by (simp add: plane_defs planeComponent_def isPlanned_def totalComponents_def)

text \<open>The rules of the public catalogue and those of the workbench do not agree: of ten rules each, six of the catalogue's
  ids name no rule of the workbench.\<close>

theorem catalog_ids_unknown:
  "filter (\<lambda>i. i \<notin> set (map rm_id RULES)) (map ct_id catalogRules) =
     [''aws_iam_excessive_privilege'', ''aws_new_iam_user_then_keys'', ''aws_s3_bucket_made_public'', ''okta_brute_force'',
      ''okta_mfa_bypass'', ''m365_inbox_auto_forward'']"
  by code_simp

text \<open>Every attack of the guards section is shown as denied or about to be, whatever the visitor does; the section moves on
  by itself unless the pointer is over it; and running, it comes to every attack.\<close>

theorem guards_always_deny:
  assumes "s = fold (guardsStep r) es (mountGuards r now)"
  shows "gd_active s < length attacks \<and> (guardBlocked r s \<or> gd_block s \<noteq> None) \<and>
    (\<not> r \<longrightarrow> (gd_next s = None \<longleftrightarrow> gd_paused s)) \<and>
    (\<not> r \<and> \<not> gd_paused s \<longrightarrow> (\<forall>j < length attacks. \<exists>k < length attacks.
      gd_active ((guardsStep False (GuardNextTimer t) ^^ k) s) mod length attacks = j))"
proof -
  have "guardsOk r (mountGuards r now)" unfolding mountGuards_def by (rule guardsOk_effect) simp
  then have ok: "guardsOk r s" using guards_machine.run_inv [of es r] assms by (simp add: list_all_iff)
  have "\<exists>k < length attacks. gd_active ((guardsStep False (GuardNextTimer t) ^^ k) s) mod length attacks = j"
    if "\<not> r" "\<not> gd_paused s" "j < length attacks" for j
    using guards_carousel.reaches [of s j t] ok that by (simp add: guardsOk_def)
  with ok show ?thesis by (auto simp: guardsOk_def guardBlocked_def split: if_splits)
qed

text \<open>A second copy within a second and a half of the first loses its mark early: the first timeout takes it back.\<close>

theorem copied_mark_cut_short:
  assumes "t1 \<le> t2" "t2 < t1 + 1500" "cb_timeouts b = []"
  shows "\<not> cb_copied (copyTimeout (t1 + 1500) (copyDone t2 (copyDone t1 b))) \<and> t1 + 1500 < t2 + 1500 \<or> t1 = t2"
  using assms by (auto simp: copyDone_def copyTimeout_def)

end
