(* ===== verification/Trace_Tables.thy ===== *)
theory Trace_Tables
  imports Trace_Views
begin

text \<open>
  The tables of a case: the columns, filters and table of \<open>attestation-trace-panel.tsx\<close> and the rows of
  \<open>classifier-evidence-panel.tsx\<close>, over the rows that \<open>Trace_Views\<close> computes. The table engine (tanstack) is a parameter:
  it is given a predicate and the rows, and yields those that satisfy it in the order of the sorting state.
\<close>

definition delta_sign :: string where
  "delta_sign = [CHR 0xCE, CHR 0x94]"

section \<open>components/workbench/attestation-trace-panel.tsx: columns\<close>

datatype trace_column = ColIndex | ColKind | ColSummary | ColAgent | ColTools | ColAction

definition traceColumns :: "(trace_column \<times> nat \<times> string) list" where
  "traceColumns = [(ColIndex, 44, ''#''), (ColKind, 170, ''Kind''), (ColSummary, 340, ''Summary / Verdict''), (ColAgent, 160, ''Agent''),
     (ColTools, 90, ''Tools''), (ColAction, 120, ''Action ID'')]"

definition orDash :: "string \<Rightarrow> string" where
  "orDash s = (if s = [] then em_dash else s)"

text \<open>The lines of a cell, from top to bottom; \<open>index\<close> is the row's place in the unfiltered data.\<close>

fun traceCell :: "trace_column \<Rightarrow> nat \<Rightarrow> panel_row \<Rightarrow> string list" where
  "traceCell ColIndex index r = [natStr (index + 1)]"
| "traceCell ColKind index r = [prettyKind_panel (pr_kind r)]"
| "traceCell ColSummary index r = [orDash (pr_summary r)]"
| "traceCell ColAgent index r = [orDash (pr_agent_id r), formatPath_panel (pr_execution_path r)]"
| "traceCell ColTools index r = [natStr (pr_tool_call_count r), natStr (pr_belief_count r) @ '' beliefs'']"
| "traceCell ColAction index r = [slice 0 8 (pr_agent_action_id r), slice 8 16 (pr_agent_action_id r) @ ellipsis]"

definition lowerIncludes :: "string \<Rightarrow> string \<Rightarrow> bool" where
  "lowerIncludes s q \<longleftrightarrow> str_includes (toLowerCase s) (toLowerCase q)"

fun traceColumnFilter :: "trace_column \<Rightarrow> string \<Rightarrow> panel_row \<Rightarrow> bool" where
  "traceColumnFilter ColIndex q r = True"
| "traceColumnFilter ColKind q r = lowerIncludes (pr_kind r) q"
| "traceColumnFilter ColSummary q r = lowerIncludes (pr_summary r) q"
| "traceColumnFilter ColAgent q r = (lowerIncludes (pr_agent_id r) q \<or> lowerIncludes (pr_execution_path r) q)"
| "traceColumnFilter ColTools q r = str_includes (natStr (pr_tool_call_count r)) q"
| "traceColumnFilter ColAction q r = lowerIncludes (pr_agent_action_id r) q"

definition pathTone :: "string \<Rightarrow> string" where
  "pathTone path = (if path = ''llm'' then ''text-primary/70'' else if path = ''hybrid'' then ''text-severity-medium/70''
     else ''text-muted-foreground'')"

section \<open>components/workbench/attestation-trace-panel.tsx: the table\<close>

record trace_table =
  tt_globalFilter :: string
  tt_kindFilter :: string

definition rowMatches :: "trace_table \<Rightarrow> panel_row \<Rightarrow> bool" where
  "rowMatches t r \<longleftrightarrow> traceGlobalFilter (tt_globalFilter t) r \<and> (tt_kindFilter t = [] \<or> traceColumnFilter ColKind (tt_kindFilter t) r)"

definition stepWord :: "nat \<Rightarrow> string" where
  "stepWord n = ''step'' @ (if n \<noteq> 1 then ''s'' else [])"

datatype table_body = NoMatch string | TableRows "panel_row list"

definition traceTable :: "((panel_row \<Rightarrow> bool) \<Rightarrow> panel_row list \<Rightarrow> panel_row list) \<Rightarrow> trace_table \<Rightarrow> panel_row list \<Rightarrow>
    string \<times> table_body \<times> string" where
  "traceTable rowModel t rows =
     (let visible = rowModel (rowMatches t) rows in
      (natStr (length visible) @ '' '' @ stepWord (length visible),
       if visible = [] then NoMatch ''No trace steps match the current filter.'' else TableRows visible,
       natStr (length visible) @ '' / '' @ natStr (length rows) @ '' '' @ stepWord (length rows)))"

section \<open>components/workbench/attestation-trace-panel.tsx: loading\<close>

record trace_panel =
  tn_data :: "trace_response option"
  tn_loading :: bool

datatype panel_event = PanelRefresh | PanelAnswer "trace_response option"

fun panelStep :: "panel_event \<Rightarrow> trace_panel \<Rightarrow> trace_panel" where
  "panelStep PanelRefresh p = p\<lparr>tn_loading := True\<rparr>"
| "panelStep (PanelAnswer a) p = p\<lparr>tn_data := Some (panelLoaded a), tn_loading := False\<rparr>"

definition panelShown :: "trace_panel \<Rightarrow> kafka_step list \<Rightarrow> panel_view" where
  "panelShown p live = attestationPanel (tn_data p) (tn_loading p) live"

section \<open>components/workbench/classifier-evidence-panel.tsx\<close>

definition isPositive :: "feature_impact \<Rightarrow> bool" where
  "isPositive f \<longleftrightarrow> fi_impact f \<ge> 0"

definition impactLabel :: "rat \<Rightarrow> string" where
  "impactLabel impact = (if impact = 0 then ''0.00'' else (if impact \<ge> 0 then ''+'' else []) @ toFixed 2 impact)"

record evidence_row =
  er_name :: string
  er_value :: string
  er_label :: string
  er_width :: rat
  er_tone :: string

definition evidenceRow :: "feature_impact list \<Rightarrow> feature_impact \<Rightarrow> evidence_row" where
  "evidenceRow features f = \<lparr>er_name = fi_name f, er_value = ''value '' @ fi_value f, er_label = impactLabel (fi_impact f),
     er_width = barWidth features f, er_tone = (if isPositive f then ''bg-severity-high'' else ''bg-signal-good'')\<rparr>"

record evidence_view =
  vw_empty :: bool
  vw_note :: "string option"
  vw_rows :: "evidence_row list"
  vw_chart :: "(string \<times> rat \<times> string) list option"

definition evidencePanel :: "feature_impact list \<Rightarrow> evidence_view" where
  "evidencePanel features =
     \<lparr>vw_empty = (features = []),
      vw_note = (if allNearZero features
        then Some (''max '' @ delta_sign @ '' '' @ toFixed 4 (Max (set (map (\<lambda>f. \<bar>fi_impact f\<bar>) features)))) else None),
      vw_rows = map (evidenceRow features) features,
      vw_chart = (if allNearZero features \<or> features = [] then None
        else Some (map (\<lambda>f. (fi_name f, absNorm features f,
          if isPositive f then ''hsl(var(--severity-high))'' else ''hsl(var(--signal-good))'')) features))\<rparr>"

section \<open>Facts\<close>

lemma maxImpact_pos: "0 < maxImpact fs"
proof -
  have "(1 / 1000000 :: rat) \<le> maxImpact fs" unfolding maxImpact_def by (intro Max_ge) simp_all
  then show ?thesis by (rule less_le_trans [rotated]) simp
qed

lemma impact_le_max: "f \<in> set fs \<Longrightarrow> \<bar>fi_impact f\<bar> \<le> maxImpact fs"
  unfolding maxImpact_def by (intro Max_ge) auto

lemma barWidth_range: "f \<in> set fs \<Longrightarrow> 8 \<le> barWidth fs f \<and> barWidth fs f \<le> 100"
  using impact_le_max [of f fs] maxImpact_pos [of fs] by (simp add: barWidth_def divide_le_eq)

lemma barWidth_mono: "\<bar>fi_impact f\<bar> \<le> \<bar>fi_impact g\<bar> \<Longrightarrow> barWidth fs f \<le> barWidth fs g"
  unfolding barWidth_def using maxImpact_pos [of fs] by (intro max.mono mult_right_mono divide_right_mono) simp_all

lemma maxImpact_attained:
  assumes "g \<in> set fs" "\<forall>f \<in> set fs. \<bar>fi_impact f\<bar> \<le> \<bar>fi_impact g\<bar>" "1 / 1000000 \<le> \<bar>fi_impact g\<bar>"
  shows "maxImpact fs = \<bar>fi_impact g\<bar>"
  unfolding maxImpact_def using assms by (intro Max_eqI) auto

lemma toFixed_sign: "x < 0 \<Longrightarrow> hd (toFixed d x) = CHR ''-''"
  by (simp add: toFixed_def)

section \<open>Properties\<close>

text \<open>The evidence rows: every bar is between eight and a hundred percent wide, wider for a stronger feature, full for the
  strongest; the sign in front of the number and the colour tell whether the feature raises the risk.\<close>

theorem evidence_rows_faithful:
  assumes "f \<in> set fs"
  shows "8 \<le> er_width (evidenceRow fs f) \<and> er_width (evidenceRow fs f) \<le> 100 \<and>
    (\<forall>g. \<bar>fi_impact f\<bar> \<le> \<bar>fi_impact g\<bar> \<longrightarrow> er_width (evidenceRow fs f) \<le> er_width (evidenceRow fs g)) \<and>
    (1 / 1000000 \<le> \<bar>fi_impact f\<bar> \<and> (\<forall>g \<in> set fs. \<bar>fi_impact g\<bar> \<le> \<bar>fi_impact f\<bar>) \<longrightarrow> er_width (evidenceRow fs f) = 100) \<and>
    (fi_impact f < 0 \<longleftrightarrow> er_tone (evidenceRow fs f) = ''bg-signal-good'') \<and>
    (fi_impact f > 0 \<longrightarrow> hd (er_label (evidenceRow fs f)) = CHR ''+'') \<and>
    (fi_impact f < 0 \<longrightarrow> hd (er_label (evidenceRow fs f)) = CHR ''-'')"
proof -
  have "er_width (evidenceRow fs f) = 100"
    if "1 / 1000000 \<le> \<bar>fi_impact f\<bar>" "\<forall>g \<in> set fs. \<bar>fi_impact g\<bar> \<le> \<bar>fi_impact f\<bar>"
  proof -
    have "fi_impact f \<noteq> 0" using that(1) by auto
    then show ?thesis by (simp add: evidenceRow_def barWidth_def maxImpact_attained [OF assms that(2,1)])
  qed
  then show ?thesis using barWidth_range [OF assms] barWidth_mono [of f _ fs]
    by (auto simp: evidenceRow_def isPositive_def impactLabel_def toFixed_sign)
qed

text \<open>The trace table shows what it is asked for: given an engine whose row model holds the rows that satisfy the filter, the
  table lists exactly the rows that match the search and the kind, says so when there are none, and its two
  counts are right.\<close>

theorem trace_table_shows_matches:
  assumes engine: "\<forall>p rs. mset (rowModel p rs) = mset (filter p rs)" and k: "k = length (filter (rowMatches t) rows)"
  shows "fst (traceTable rowModel t rows) = natStr k @ '' '' @ stepWord k \<and>
    snd (snd (traceTable rowModel t rows)) = natStr k @ '' / '' @ natStr (length rows) @ '' '' @ stepWord (length rows) \<and>
    (case fst (snd (traceTable rowModel t rows)) of
       NoMatch _ \<Rightarrow> \<not> list_ex (rowMatches t) rows
     | TableRows vs \<Rightarrow> vs \<noteq> [] \<and> set vs = {r \<in> set rows. rowMatches t r})"
proof -
  let ?v = "rowModel (rowMatches t) rows"
  have m: "mset ?v = mset (filter (rowMatches t) rows)" using engine by blast
  have "set ?v = {r \<in> set rows. rowMatches t r}" using mset_eq_setD [OF m] by auto
  moreover have "length ?v = k" using mset_eq_length [OF m] k by simp
  ultimately show ?thesis by (auto simp: traceTable_def Let_def list_ex_iff)
qed

text \<open>With nothing typed the table lists every row.\<close>

lemma unfiltered_matches: "rowMatches \<lparr>tt_globalFilter = [], tt_kindFilter = []\<rparr> r"
  by (simp add: rowMatches_def traceGlobalFilter_def toLowerCase_def)

text \<open>While the stored trace cannot be loaded the panel shows the error and hides the live steps it has; a refresh that
  works brings them back.\<close>

theorem panel_error_hides_live:
  "panelShown (panelStep (PanelAnswer None) p) live = PanelError ''Failed to load trace'' \<and>
   (live \<noteq> [] \<longrightarrow> (\<exists>rows. rows \<noteq> [] \<and>
      panelShown (fold panelStep [PanelAnswer None, PanelRefresh, PanelAnswer (Some \<lparr>tp_steps = None, tp_error = None\<rparr>)] p) live = PanelTable rows))"
proof -
  have "panelRows None live \<noteq> []" if "live \<noteq> []"
    using that by (cases live) (simp_all add: panelRows_def)
  then show ?thesis by (auto simp: panelShown_def attestationPanel_def panelLoaded_def orElse_def Let_def)
qed

end
