(* ===== verification/Table_Engine.thy ===== *)
theory Table_Engine
  imports Js_Value
begin

text \<open>
  What the tables of the workbench rely on of the table engine (\<open>@tanstack/react-table\<close>, not part of the sources): the
  row model for a predicate and an order, and pagination. The engine is a parameter; \<open>documented\<close> collects what
  its documentation promises. The lemmas are the ones on pages that every table shares.
\<close>

section \<open>The engine\<close>

text \<open>\<open>en_rows\<close> is \<open>getFilteredRowModel\<close> followed by \<open>getSortedRowModel\<close>, the sorting state as the engine's own
  value; \<open>en_reset\<close> is the page after a change of the data, a filter or the order (\<open>autoResetPageIndex\<close>).\<close>

record ('r, 'o) engine =
  en_rows :: "('r \<Rightarrow> bool) \<Rightarrow> 'o \<Rightarrow> 'r list \<Rightarrow> 'r list"
  en_pageCount :: "nat \<Rightarrow> nat \<Rightarrow> nat"
  en_pageRows :: "nat \<Rightarrow> nat \<Rightarrow> 'r list \<Rightarrow> 'r list"
  en_canPrevious :: "nat \<Rightarrow> bool"
  en_canNext :: "nat \<Rightarrow> nat \<Rightarrow> bool"
  en_reset :: "nat \<Rightarrow> nat"

definition pagesOf :: "nat \<Rightarrow> nat \<Rightarrow> nat" where
  "pagesOf n k = (n + k - 1) div k"

definition pageAt :: "nat \<Rightarrow> nat \<Rightarrow> 'r list \<Rightarrow> 'r list" where
  "pageAt i k rs = take k (drop (i * k) rs)"

definition documented :: "('r, 'o) engine \<Rightarrow> bool" where
  "documented e \<longleftrightarrow>
     (\<forall>p so rs. mset (en_rows e p so rs) = mset (filter p rs)) \<and>
     (\<forall>n k. 0 < k \<longrightarrow> en_pageCount e n k = pagesOf n k) \<and>
     (\<forall>i k rs. en_pageRows e i k rs = pageAt i k rs) \<and>
     (\<forall>i. en_canPrevious e i \<longleftrightarrow> 0 < i) \<and>
     (\<forall>i c. en_canNext e i c \<longleftrightarrow> Suc i < c) \<and>
     (\<forall>i. en_reset e i = 0)"

text \<open>An engine that does what is documented, keeping the order of the rows.\<close>

definition plainEngine :: "('r, 'o) engine" where
  "plainEngine = \<lparr>en_rows = (\<lambda>p so rs. filter p rs), en_pageCount = pagesOf, en_pageRows = pageAt,
     en_canPrevious = (\<lambda>i. 0 < i), en_canNext = (\<lambda>i c. Suc i < c), en_reset = (\<lambda>i. 0)\<rparr>"

lemma plainEngine_documented: "documented plainEngine"
  by (simp add: documented_def plainEngine_def)

lemma documentedD:
  assumes "documented e"
  shows "mset (en_rows e p so rs) = mset (filter p rs)" "0 < k \<Longrightarrow> en_pageCount e n k = pagesOf n k"
    "en_pageRows e i k rs = pageAt i k rs" "en_canPrevious e i \<longleftrightarrow> 0 < i" "en_canNext e i c \<longleftrightarrow> Suc i < c" "en_reset e i = 0"
  using assms by (simp_all add: documented_def)

lemma engine_rows:
  assumes "documented e"
  shows "set (en_rows e p so rs) = {r \<in> set rs. p r}" "length (en_rows e p so rs) = length (filter p rs)"
  using mset_eq_setD [OF documentedD(1) [OF assms]] mset_eq_length [OF documentedD(1) [OF assms]] by auto

section \<open>Pages\<close>

lemma pagesOf_0 [simp]: "0 < k \<Longrightarrow> pagesOf 0 k = 0"
  by (simp add: pagesOf_def)

lemma pagesOf_enough: "0 < k \<Longrightarrow> n \<le> pagesOf n k * k"
  using dividend_less_div_times [of k "n + k - 1"] by (simp add: pagesOf_def)

lemma pagesOf_tight: "0 < k \<Longrightarrow> i < pagesOf n k \<Longrightarrow> i * k < n"
proof -
  assume k: "0 < k" and i: "i < pagesOf n k"
  then have "Suc i * k \<le> pagesOf n k * k" by (intro mult_le_mono1) simp
  also have "\<dots> \<le> n + k - 1" by (simp add: pagesOf_def)
  finally show ?thesis using k by simp
qed

lemma pages_prefix: "concat (map (\<lambda>i. pageAt i k rs) [0..<m]) = take (m * k) rs"
proof (induction m)
  case (Suc m)
  have "take (m * k + k) rs = take (m * k) rs @ take k (drop (m * k) rs)" by (rule take_add)
  then show ?case using Suc by (simp add: pageAt_def add.commute)
qed simp

text \<open>The pages of a table, one after the other, are its rows; none of them is empty.\<close>

lemma pages_cover: "0 < k \<Longrightarrow> concat (map (\<lambda>i. pageAt i k rs) [0..<pagesOf (length rs) k]) = rs"
  by (simp add: pages_prefix pagesOf_enough)

lemma page_nonempty: "0 < k \<Longrightarrow> i < pagesOf (length rs) k \<Longrightarrow> pageAt i k rs \<noteq> []"
  using pagesOf_tight [of k i "length rs"] by (simp add: pageAt_def)

lemma page_size: "length (pageAt i k rs) \<le> k"
  by (simp add: pageAt_def)

lemma on_some_page: "0 < k \<Longrightarrow> r \<in> set rs \<Longrightarrow> \<exists>i < pagesOf (length rs) k. r \<in> set (pageAt i k rs)"
proof -
  assume k: "0 < k" and "r \<in> set rs"
  then have "r \<in> set (concat (map (\<lambda>i. pageAt i k rs) [0..<pagesOf (length rs) k]))" by (simp only: pages_cover)
  then show ?thesis by auto
qed

end
