(* ===== verification/Queue_Table.thy ===== *)
theory Queue_Table
  imports Alert_Queue Table_Engine
begin

text \<open>
  The components of \<open>alert-queue.tsx\<close> around the rows and columns of \<open>Alert_Queue\<close>: the data table with its filters and
  pages, the queue with its tabs and its group of auto-closed alerts, and the live header. The state of each
  component is a record, its handlers are functions on it, and what it shows is computed from it. The table
  engine is a parameter (\<open>Table_Engine\<close>).
\<close>

section \<open>AlertDataTable\<close>

subsection \<open>State and handlers\<close>

record 'o alert_table =
  at_alerts :: "alert list"
  at_sorting :: 'o
  at_columnFilters :: "(column \<times> string) list"
  at_hidden :: "column list"
  at_globalFilter :: string
  at_pageIndex :: nat
  at_pageSize :: nat

definition newTable :: "'o \<Rightarrow> alert list \<Rightarrow> 'o alert_table" where
  "newTable unsorted alerts = \<lparr>at_alerts = alerts, at_sorting = unsorted, at_columnFilters = [], at_hidden = [], at_globalFilter = [],
     at_pageIndex = 0, at_pageSize = 25\<rparr>"

definition getFilterValue :: "column \<Rightarrow> 'o alert_table \<Rightarrow> string" where
  "getFilterValue c t = (case map_of (at_columnFilters t) c of None \<Rightarrow> [] | Some v \<Rightarrow> v)"

definition alertMatches :: "(string \<Rightarrow> int option) \<Rightarrow> (int \<Rightarrow> string) \<Rightarrow> 'o alert_table \<Rightarrow> alert \<Rightarrow> bool" where
  "alertMatches pd lt t a \<longleftrightarrow>
     alertGlobalFilter (at_globalFilter t) a \<and> list_all (\<lambda>(c, v). columnFilter pd lt c v a) (at_columnFilters t)"

text \<open>The inputs of the toolbar write the search and the filters of three columns; the menu hides columns; the four
  buttons turn pages, unless they are disabled; and the parent passes new rows.\<close>

datatype 'o table_event =
    TypeSearch string
  | TypeFilter column string
  | ToggleColumn column bool
  | SortChange 'o
  | FirstPage
  | PreviousPage
  | NextPage
  | LastPage
  | NewRows "alert list"

type_synonym 'o table_params = "(string \<Rightarrow> int option) \<times> (int \<Rightarrow> string) \<times> (alert, 'o) engine"

definition filteredRows :: "'o table_params \<Rightarrow> 'o alert_table \<Rightarrow> alert list" where
  "filteredRows ps t = (case ps of (pd, lt, e) \<Rightarrow> en_rows e (alertMatches pd lt t) (at_sorting t) (at_alerts t))"

definition tablePages :: "'o table_params \<Rightarrow> 'o alert_table \<Rightarrow> nat" where
  "tablePages ps t = (case ps of (pd, lt, e) \<Rightarrow> en_pageCount e (length (filteredRows ps t)) (at_pageSize t))"

definition canPrevious :: "'o table_params \<Rightarrow> 'o alert_table \<Rightarrow> bool" where
  "canPrevious ps t = (case ps of (pd, lt, e) \<Rightarrow> en_canPrevious e (at_pageIndex t))"

definition canNext :: "'o table_params \<Rightarrow> 'o alert_table \<Rightarrow> bool" where
  "canNext ps t = (case ps of (pd, lt, e) \<Rightarrow> en_canNext e (at_pageIndex t) (tablePages ps t))"

definition resetPage :: "'o table_params \<Rightarrow> 'o alert_table \<Rightarrow> 'o alert_table" where
  "resetPage ps t = (case ps of (pd, lt, e) \<Rightarrow> t\<lparr>at_pageIndex := en_reset e (at_pageIndex t)\<rparr>)"

definition canHide :: "column \<Rightarrow> bool" where
  "canHide c \<longleftrightarrow> c \<noteq> ColActions"

fun tableStep :: "'o table_params \<Rightarrow> 'o table_event \<Rightarrow> 'o alert_table \<Rightarrow> 'o alert_table" where
  "tableStep ps (TypeSearch s) t = resetPage ps (t\<lparr>at_globalFilter := s\<rparr>)"
| "tableStep ps (TypeFilter c s) t =
     (if c \<in> {ColEntity, ColSource, ColSeverity}
      then resetPage ps (t\<lparr>at_columnFilters := filter (\<lambda>(d, _). d \<noteq> c) (at_columnFilters t) @ (if s = [] then [] else [(c, s)])\<rparr>)
      else t)"
| "tableStep ps (ToggleColumn c shown) t =
     (if canHide c then t\<lparr>at_hidden := filter (\<lambda>d. d \<noteq> c) (at_hidden t) @ (if shown then [] else [c])\<rparr> else t)"
| "tableStep ps (SortChange so) t = resetPage ps (t\<lparr>at_sorting := so\<rparr>)"
| "tableStep ps FirstPage t = (if canPrevious ps t then t\<lparr>at_pageIndex := 0\<rparr> else t)"
| "tableStep ps PreviousPage t = (if canPrevious ps t then t\<lparr>at_pageIndex := at_pageIndex t - 1\<rparr> else t)"
| "tableStep ps NextPage t = (if canNext ps t then t\<lparr>at_pageIndex := at_pageIndex t + 1\<rparr> else t)"
| "tableStep ps LastPage t = (if canNext ps t then t\<lparr>at_pageIndex := tablePages ps t - 1\<rparr> else t)"
| "tableStep ps (NewRows alerts) t = resetPage ps (t\<lparr>at_alerts := alerts\<rparr>)"

subsection \<open>What it shows\<close>

definition pageRows :: "'o table_params \<Rightarrow> 'o alert_table \<Rightarrow> alert list" where
  "pageRows ps t = (case ps of (pd, lt, e) \<Rightarrow> en_pageRows e (at_pageIndex t) (at_pageSize t) (filteredRows ps t))"

definition rowWord :: "nat \<Rightarrow> string" where
  "rowWord n = natStr n @ '' row'' @ (if n \<noteq> 1 then ''s'' else [])"

record row_view =
  rv_executionPath :: execution_path
  rv_live :: bool
  rv_href :: string
  rv_cells :: "string list list"

definition visibleColumns :: "'o alert_table \<Rightarrow> column list" where
  "visibleColumns t = filter (\<lambda>c. c \<notin> set (at_hidden t)) columns"

definition alertRow :: "'o table_params \<Rightarrow> int option \<Rightarrow> 'o alert_table \<Rightarrow> alert \<Rightarrow> row_view" where
  "alertRow ps now t a = (case ps of (pd, lt, e) \<Rightarrow>
     \<lparr>rv_executionPath = al_executionPath a, rv_live = (al_state a = InFlight), rv_href = caseHref a,
      rv_cells = map (\<lambda>c. cellTexts pd lt now c a) (visibleColumns t)\<rparr>)"

datatype table_rows = NoAlerts string | AlertRows "row_view list"

record table_view =
  tv_search :: string
  tv_filters :: "(string \<times> string) list"
  tv_count :: string
  tv_menu :: "(string \<times> bool) list"
  tv_headers :: "string list"
  tv_body :: table_rows
  tv_footer :: string
  tv_backDisabled :: bool
  tv_forwardDisabled :: bool

definition alertDataTable :: "'o table_params \<Rightarrow> int option \<Rightarrow> 'o alert_table \<Rightarrow> table_view" where
  "alertDataTable ps now t =
     (let filteredCount = length (filteredRows ps t); rows = pageRows ps t in
      \<lparr>tv_search = at_globalFilter t,
       tv_filters = [(''Filter by entity'' @ ellipsis, getFilterValue ColEntity t), (''Filter by source'' @ ellipsis, getFilterValue ColSource t),
         (''Filter by severity'' @ ellipsis, getFilterValue ColSeverity t)],
       tv_count = rowWord filteredCount,
       tv_menu = map (\<lambda>c. (columnKey c, c \<notin> set (at_hidden t))) (filter canHide columns),
       tv_headers = map columnHeader (visibleColumns t),
       tv_body = (if rows \<noteq> [] then AlertRows (map (alertRow ps now t) rows) else NoAlerts ''No alerts in this state.''),
       tv_footer = ''Page '' @ natStr (at_pageIndex t + 1) @ '' of '' @
         natStr (if tablePages ps t \<noteq> 0 then tablePages ps t else 1) @ '' '' @ middle_dot @ '' '' @ rowWord filteredCount,
       tv_backDisabled = (\<not> canPrevious ps t),
       tv_forwardDisabled = (\<not> canNext ps t)\<rparr>)"

section \<open>AlertQueue\<close>

record queue_state =
  qs_activeState :: queue_tab
  qs_autoGroupOpen :: bool

definition newQueue :: queue_state where
  "newQueue = \<lparr>qs_activeState = TabAwaiting, qs_autoGroupOpen = False\<rparr>"

datatype queue_click = ClickTab queue_tab | ClickGroup

fun queueClick :: "queue_click \<Rightarrow> queue_state \<Rightarrow> queue_state" where
  "queueClick (ClickTab tab) q = q\<lparr>qs_activeState := tab\<rparr>"
| "queueClick ClickGroup q = q\<lparr>qs_autoGroupOpen := \<not> qs_autoGroupOpen q\<rparr>"

definition queueTabs :: "queue_tab list" where
  "queueTabs = [TabInFlight, TabAwaiting]"

record queue_view =
  qv_group :: "string option"
  qv_groupRows :: "alert list option"
  qv_tabs :: "(string \<times> nat \<times> bool) list"
  qv_rows :: "alert list"

definition alertQueue :: "queue_state \<Rightarrow> alert list \<Rightarrow> queue_view" where
  "alertQueue q alerts =
     (let auto = autoClosedAlerts alerts in
      \<lparr>qv_group = (if auto \<noteq> [] then Some (''Auto-closed ('' @ natStr (length auto) @ '')'') else None),
       qv_groupRows = (if auto \<noteq> [] \<and> qs_autoGroupOpen q then Some auto else None),
       qv_tabs = map (\<lambda>tab. (tabLabels tab, tabCount tab alerts, tab = qs_activeState q)) queueTabs,
       qv_rows = tabAlerts (qs_activeState q) alerts\<rparr>)"

section \<open>AlertQueueLive\<close>

fun liveText :: "ws_status \<Rightarrow> string" where
  "liveText WsConnected = ''Live '' @ em_dash @ '' WebSocket connected''"
| "liveText WsConnecting = ''Connecting'' @ ellipsis"
| "liveText WsDisconnected = ''Reconnecting'' @ ellipsis"

definition liveHeader :: "ws_status \<Rightarrow> alert list \<Rightarrow> string \<times> string" where
  "liveHeader wsStatus alerts =
     (liveText wsStatus, natStr (length alerts) @ '' alert'' @ (if length alerts \<noteq> 1 then ''s'' else []))"

section \<open>Tones\<close>

fun severityTone :: "severity \<Rightarrow> string" where
  "severityTone Critical = ''critical''"
| "severityTone High = ''high''"
| "severityTone Medium = ''medium''"
| "severityTone Low = ''low''"

fun statusTone :: "agent_run \<Rightarrow> string" where
  "statusTone AgComplete = ''text-signal-good''"
| "statusTone AgRunning = ''text-signal-live''"
| "statusTone AgDegraded = ''text-severity-medium''"
| "statusTone AgIdle = ''text-muted-foreground''"

section \<open>Facts\<close>

lemma resetPage_sel [simp]:
  "at_alerts (resetPage ps t) = at_alerts t" "at_globalFilter (resetPage ps t) = at_globalFilter t" "at_pageSize (resetPage ps t) = at_pageSize t"
  "at_columnFilters (resetPage ps t) = at_columnFilters t" "at_sorting (resetPage ps t) = at_sorting t" "at_hidden (resetPage ps t) = at_hidden t"
  by (simp_all add: resetPage_def split: prod.splits)

text \<open>The rows of a table do not depend on the page or on hidden columns.\<close>

lemma alertMatches_frame [simp]:
  "alertMatches pd lt (t\<lparr>at_pageIndex := i\<rparr>) = alertMatches pd lt t" "alertMatches pd lt (t\<lparr>at_hidden := h\<rparr>) = alertMatches pd lt t"
  by (simp_all add: alertMatches_def fun_eq_iff)

lemma filteredRows_frame [simp]:
  "filteredRows ps (t\<lparr>at_pageIndex := i\<rparr>) = filteredRows ps t" "filteredRows ps (t\<lparr>at_hidden := h\<rparr>) = filteredRows ps t"
  by (simp_all add: filteredRows_def split: prod.splits)

lemma tablePages_frame [simp]:
  "tablePages ps (t\<lparr>at_pageIndex := i\<rparr>) = tablePages ps t" "tablePages ps (t\<lparr>at_hidden := h\<rparr>) = tablePages ps t"
  by (simp_all add: tablePages_def split: prod.splits)

text \<open>The page a table is on exists, or the table is empty and on its first page.\<close>

definition tableOk :: "'o table_params \<Rightarrow> 'o alert_table \<Rightarrow> bool" where
  "tableOk ps t \<longleftrightarrow> at_pageSize t = 25 \<and> (at_pageIndex t = 0 \<or> at_pageIndex t < tablePages ps t)"

lemma tableOk_step: "documented e \<Longrightarrow> tableOk (pd, lt, e) t \<Longrightarrow> tableOk (pd, lt, e) (tableStep (pd, lt, e) ev t)"
  by (cases ev) (auto simp: tableOk_def resetPage_def canNext_def documentedD)

interpretation table_machine: preserved "tableStep (pd, lt, e)" "\<lambda>_. documented e" "tableOk (pd, lt, e)" for pd lt e
  by unfold_locales (rule tableOk_step)

lemma tableRun_ok: "documented e \<Longrightarrow> tableOk (pd, lt, e) (fold (tableStep (pd, lt, e)) es (newTable so as))"
  by (rule table_machine.run_inv) (simp_all add: list_all_iff tableOk_def newTable_def)

text \<open>Turning pages from the first one.\<close>

lemma toFirst: "documented e \<Longrightarrow> tableStep (pd, lt, e) FirstPage t = t\<lparr>at_pageIndex := 0\<rparr>"
  by (simp add: canPrevious_def documentedD)

lemma turnPages:
  assumes "documented e" "i < tablePages (pd, lt, e) t"
  shows "((tableStep (pd, lt, e) NextPage) ^^ i) (t\<lparr>at_pageIndex := 0\<rparr>) = t\<lparr>at_pageIndex := i\<rparr>"
  using assms(2) by (induction i) (simp_all add: canNext_def documentedD [OF assms(1)])

lemma tablePages_documented:
  "documented e \<Longrightarrow> at_pageSize t = 25 \<Longrightarrow> tablePages (pd, lt, e) t = pagesOf (length (filteredRows (pd, lt, e) t)) 25"
  by (simp add: tablePages_def documentedD)

lemma pageRows_at: "documented e \<Longrightarrow> pageRows (pd, lt, e) (t\<lparr>at_pageIndex := i\<rparr>) = pageAt i (at_pageSize t) (filteredRows (pd, lt, e) t)"
  by (simp add: pageRows_def documentedD)

text \<open>The page that \<open>i\<close> clicks on the next-button reach from the first page.\<close>

definition pageReached :: "'o table_params \<Rightarrow> nat \<Rightarrow> 'o alert_table \<Rightarrow> alert list" where
  "pageReached ps i t = pageRows ps ((tableStep ps NextPage ^^ i) (tableStep ps FirstPage t))"

lemma pageReached_at:
  assumes "documented e" "i < tablePages (pd, lt, e) t"
  shows "pageReached (pd, lt, e) i t = pageAt i (at_pageSize t) (filteredRows (pd, lt, e) t)"
  using turnPages [OF assms] by (simp add: pageReached_def toFirst [OF assms(1)] pageRows_at [OF assms(1)] del: tableStep.simps)

lemma unfiltered_table: "alertMatches pd lt (newTable so as) a"
  by (simp add: alertMatches_def newTable_def alertGlobalFilter_def toLowerCase_def)

lemma new_table_reaches:
  assumes "documented e" "a \<in> set as"
  shows "\<exists>i < tablePages (pd, lt, e) (newTable so as). a \<in> set (pageReached (pd, lt, e) i (newTable so as))"
proof -
  let ?t = "newTable so as"
  have size: "at_pageSize ?t = 25" by (simp add: newTable_def)
  have "a \<in> set (filteredRows (pd, lt, e) ?t)"
    using assms(2) engine_rows(1) [OF assms(1)] unfiltered_table by (simp add: filteredRows_def) (simp add: newTable_def)
  then show ?thesis
    using on_some_page [of 25] tablePages_documented [OF assms(1) size, of pd lt] pageReached_at [OF assms(1), of _ pd lt ?t] size by fastforce
qed

section \<open>Properties\<close>

text \<open>C34: the table never hides a match behind its pages: after anything the analyst typed, sorted, hid or turned and any
  rows that arrived, going to the first page and on with the next-button shows, page by page and at most
  twenty-five at a time, exactly the alerts that match, each once, and the footer's page always exists.\<close>

theorem pages_show_every_match:
  assumes "documented e" and t: "t = fold (tableStep (pd, lt, e)) es (newTable so as)"
  shows "mset (concat (map (\<lambda>i. pageReached (pd, lt, e) i t) [0..<tablePages (pd, lt, e) t])) =
      mset (filter (alertMatches pd lt t) (at_alerts t)) \<and>
    (\<forall>i < tablePages (pd, lt, e) t. pageReached (pd, lt, e) i t \<noteq> [] \<and> length (pageReached (pd, lt, e) i t) \<le> 25) \<and>
    at_pageIndex t < max 1 (tablePages (pd, lt, e) t)"
proof -
  let ?ps = "(pd, lt, e)"
  have ok: "tableOk ?ps t" unfolding t by (rule tableRun_ok [OF assms(1)])
  then have size: "at_pageSize t = 25" by (simp add: tableOk_def)
  note pages = tablePages_documented [OF assms(1) size, of pd lt]
  have page: "pageReached ?ps i t = pageAt i 25 (filteredRows ?ps t)" if "i < tablePages ?ps t" for i
    using pageReached_at [OF assms(1) that] size by simp
  have "map (\<lambda>i. pageReached ?ps i t) [0..<tablePages ?ps t] = map (\<lambda>i. pageAt i 25 (filteredRows ?ps t)) [0..<tablePages ?ps t]"
    using page by simp
  then have "concat (map (\<lambda>i. pageReached ?ps i t) [0..<tablePages ?ps t]) = filteredRows ?ps t"
    by (simp only: pages pages_cover [of 25, simplified])
  moreover have "mset (filteredRows ?ps t) = mset (filter (alertMatches pd lt t) (at_alerts t))"
    by (simp add: filteredRows_def documentedD(1) [OF assms(1)])
  moreover have "pageReached ?ps i t \<noteq> [] \<and> length (pageReached ?ps i t) \<le> 25" if "i < tablePages ?ps t" for i
    using page_nonempty [of 25 i "filteredRows ?ps t"] page_size that page [OF that] pages by simp
  ultimately show ?thesis using ok by (auto simp: tableOk_def)
qed

theorem pages_show_every_match_witness:
  "mset (concat (map (\<lambda>i. pageReached (\<lambda>_. None, \<lambda>_. [], plainEngine) i (newTable () (replicate 30 sampleAlert)))
     [0..<tablePages (\<lambda>_. None, \<lambda>_. [], plainEngine) (newTable () (replicate 30 sampleAlert))])) = mset (replicate 30 sampleAlert)"
proof -
  let ?t = "newTable () (replicate 30 sampleAlert)"
  have "filter (alertMatches (\<lambda>_. None) (\<lambda>_. []) ?t) (at_alerts ?t) = at_alerts ?t"
    by (rule filter_True) (simp add: unfiltered_table)
  moreover have "at_alerts ?t = replicate 30 sampleAlert" by (simp add: newTable_def)
  moreover have "?t = fold (tableStep (\<lambda>_. None, \<lambda>_. [], plainEngine)) [] ?t" by simp
  ultimately show ?thesis using pages_show_every_match [OF plainEngine_documented] by metis
qed

text \<open>Every alert of the queue is one click and some page turns away: it is in the tab of its state or in the group of
  auto-closed alerts, and on one of the pages of that table.\<close>

theorem every_alert_reachable:
  assumes "documented e" "a \<in> set as"
  shows "\<exists>click rows i. (rows = qv_rows (alertQueue (queueClick click newQueue) as) \<or>
      qv_groupRows (alertQueue (queueClick click newQueue) as) = Some rows) \<and>
    i < tablePages (pd, lt, e) (newTable so rows) \<and> a \<in> set (pageReached (pd, lt, e) i (newTable so rows))"
proof -
  have "\<exists>click rows. (rows = qv_rows (alertQueue (queueClick click newQueue) as) \<or>
      qv_groupRows (alertQueue (queueClick click newQueue) as) = Some rows) \<and> a \<in> set rows"
  proof (cases "al_state a")
    case InFlight
    with assms(2) show ?thesis
      by (intro exI [of _ "ClickTab TabInFlight"] exI [of _ "tabAlerts TabInFlight as"]) (simp add: alertQueue_def Let_def tabAlerts_def)
  next
    case AwaitingReview
    with assms(2) show ?thesis
      by (intro exI [of _ "ClickTab TabAwaiting"] exI [of _ "tabAlerts TabAwaiting as"]) (simp add: alertQueue_def Let_def tabAlerts_def)
  next
    case AutoClosed
    with assms(2) have "a \<in> set (autoClosedAlerts as)" by (simp add: autoClosedAlerts_def)
    then show ?thesis
      by (intro exI [of _ ClickGroup] exI [of _ "autoClosedAlerts as"]) (auto simp: alertQueue_def newQueue_def Let_def)
  qed
  then show ?thesis using new_table_reaches [OF assms(1)] by metis
qed

text \<open>A search typed in one tab stays when the tab is changed: the other tab shows only its matches.\<close>

lemma search_outlives_tab:
  "documented e \<Longrightarrow> set (filteredRows (pd, lt, e) (fold (tableStep (pd, lt, e)) [TypeSearch s, NewRows bs] (newTable so as))) =
     {b \<in> set bs. alertGlobalFilter s b}"
  by (auto simp: filteredRows_def engine_rows alertMatches_def newTable_def)

text \<open>An empty filter is no filter.\<close>

lemma empty_filter_matches: "columnFilter pd lt c [] a"
  by (cases c) (simp_all add: includesLower_def toLowerCase_def titleFilter_def sourceFilter_def triageFilter_def timeFilter_def)

end
