(* ===== verification/Case_View.thy ===== *)
theory Case_View
  imports Trace_Tables Ui_State
begin

text \<open>
  The case workbench as the analyst sees and uses it (\<open>case-workbench.tsx\<close>, \<open>investigator-trace-stepper.tsx\<close>,
  \<open>reasoning-trace-viewer.tsx\<close>): the override dialog, the buttons, the requests for the stored trace, the citation
  chips and the expandable lines as state machines; the page, the two pipelines and the timeline as what they show.
  The data under them is that of \<open>Trace_Views\<close>.
\<close>

section \<open>components/workbench/case-workbench.tsx: the override dialog\<close>

definition dialogLabels :: "(string \<times> string) list" where
  "dialogLabels = [(''true_positive'', ''True Positive''), (''false_positive'', ''False Positive''), (''benign'', ''Benign''),
     (''needs_investigation'', ''Needs Investigation'')]"

record verdict_dialog =
  vd_label :: string
  vd_reason :: string
  vd_busy :: bool

definition newDialog :: verdict_dialog where
  "newDialog = \<lparr>vd_label = ''true_positive'', vd_reason = [], vd_busy = False\<rparr>"

text \<open>The buttons of the dialog: a label is marked when it is chosen; the submit button is disabled without a reason.\<close>

definition dialogView :: "verdict_dialog \<Rightarrow> (string \<times> bool) list \<times> string \<times> bool" where
  "dialogView d = (map (\<lambda>(v, display). (display, vd_label d = v)) dialogLabels,
     if vd_busy d then ''Submitting'' @ ellipsis else ''Submit Override'', \<not> canSubmit (vd_reason d) (vd_busy d))"

section \<open>components/workbench/case-workbench.tsx: the page\<close>

text \<open>The component with its dialog, when that is open, and the requests for the stored trace it has sent, by number.\<close>

record bench_view =
  cv_bench :: workbench
  cv_dialog :: verdict_dialog
  cv_triageLoading :: bool
  cv_traceRequests :: nat

definition loadTrace :: "bench_view \<Rightarrow> bench_view" where
  "loadTrace v = (if wb_oid (cv_bench v) = [] then v else v\<lparr>cv_traceRequests := cv_traceRequests v + 1\<rparr>)"

text \<open>The two effects run on mount; the second one runs again when \<open>triageLoading\<close> changes.\<close>

definition loadingEffect :: "bench_view \<Rightarrow> bench_view" where
  "loadingEffect v = (if \<not> cv_triageLoading v then loadTrace v else v)"

definition mountView :: "workbench \<Rightarrow> bool \<Rightarrow> bench_view" where
  "mountView w loading = loadingEffect (loadTrace \<lparr>cv_bench = w, cv_dialog = newDialog, cv_triageLoading = loading, cv_traceRequests = 0\<rparr>)"

datatype view_event =
    ClickApprove int
  | ClickOverride
  | PickLabel string
  | TypeReason string
  | ClickSubmit int
  | ClickCancel
  | OverrideAnswer fetched
  | TraceAnswer "http_step list option"
  | LoadingChange bool
  | StoreChange case_store

definition onBench :: "(workbench \<Rightarrow> workbench) \<Rightarrow> bench_view \<Rightarrow> bench_view" where
  "onBench f v = v\<lparr>cv_bench := f (cv_bench v)\<rparr>"

text \<open>\<open>handleSubmit\<close> of the dialog: \<open>onSubmit\<close> returns at once, so the dialog is busy only within the click.\<close>

definition handleSubmit :: "int \<Rightarrow> bench_view \<Rightarrow> bench_view" where
  "handleSubmit now v =
     (let d = cv_dialog v in
      if trim (vd_reason d) = [] then v else onBench (handleOverrideSubmit (vd_label d) (vd_reason d) now) v)"

text \<open>A button answers a click only while it is on the page; the dialog is mounted anew each time it opens.\<close>

fun benchStep :: "view_event \<Rightarrow> bench_view \<Rightarrow> bench_view" where
  "benchStep (ClickApprove now) v = (if showsActions (cv_bench v) then onBench (handleApprove now) v else v)"
| "benchStep ClickOverride v =
     (if showsActions (cv_bench v) \<and> \<not> wb_overrideOpen (cv_bench v)
      then (onBench (wb_overrideOpen_update (\<lambda>_. True)) v)\<lparr>cv_dialog := newDialog\<rparr> else v)"
| "benchStep (PickLabel l) v =
     (if wb_overrideOpen (cv_bench v) \<and> l \<in> fst ` set dialogLabels then v\<lparr>cv_dialog := (cv_dialog v)\<lparr>vd_label := l\<rparr>\<rparr> else v)"
| "benchStep (TypeReason r) v =
     (if wb_overrideOpen (cv_bench v) then v\<lparr>cv_dialog := (cv_dialog v)\<lparr>vd_reason := r\<rparr>\<rparr> else v)"
| "benchStep (ClickSubmit now) v =
     (if wb_overrideOpen (cv_bench v) \<and> canSubmit (vd_reason (cv_dialog v)) (vd_busy (cv_dialog v)) then handleSubmit now v else v)"
| "benchStep ClickCancel v =
     (if wb_overrideOpen (cv_bench v) then onBench (wb_overrideOpen_update (\<lambda>_. False)) v else v)"
| "benchStep (OverrideAnswer f) v =
     (let v' = onBench (overrideAnswered f) v in
      case f of Answer st _ _ \<Rightarrow> if okStatus st then loadTrace v' else v' | Rejected _ \<Rightarrow> v')"
| "benchStep (TraceAnswer a) v = onBench (traceLoaded a) v"
| "benchStep (LoadingChange b) v =
     (if b = cv_triageLoading v then v else loadingEffect (v\<lparr>cv_triageLoading := b\<rparr>))"
| "benchStep (StoreChange s) v = onBench (wb_store_update (\<lambda>_. s)) v"

text \<open>What the page shows.\<close>

fun evidenceTypeStr :: "evidence_type \<Rightarrow> string" where
  "evidenceTypeStr EvOcsf = ''ocsf''"
| "evidenceTypeStr EvAsset = ''asset''"
| "evidenceTypeStr EvThreatIntel = ''threat-intel''"

datatype confidence_box = Analysing string | Confidence string

datatype evidence_section = Pipeline "kafka_step list" string | Evidence "(step_state \<times> bool list) option" trace_viewer

record case_page_view =
  pv_dialog :: "((string \<times> bool) list \<times> string \<times> bool) option"
  pv_badges :: "string list"
  pv_title :: string
  pv_subtitle :: string
  pv_confidence :: confidence_box
  pv_actions :: bool
  pv_recorded :: "string option"
  pv_evidence :: evidence_section
  pv_pinned :: "(string \<times> string \<times> string) list"

definition viewCaseId :: "case_record \<Rightarrow> bench_view \<Rightarrow> string" where
  "viewCaseId rec v = (if wb_oid (cv_bench v) = [] then rc_id rec else wb_oid (cv_bench v))"

definition viewTraceSteps :: "case_record \<Rightarrow> kafka_step list \<Rightarrow> bench_view \<Rightarrow> kafka_step list" where
  "viewTraceSteps rec liveSteps v = mergeTraceSteps (viewCaseId rec v) liveSteps (wb_httpSteps (cv_bench v))"

definition caseWorkbench :: "case_record \<Rightarrow> kafka_step list \<Rightarrow> bench_view \<Rightarrow> case_page_view" where
  "caseWorkbench rec liveSteps v =
     (let w = cv_bench v; steps = viewTraceSteps rec liveSteps v in
      \<lparr>pv_dialog = (if wb_overrideOpen w then Some (dialogView (cv_dialog v)) else None),
       pv_badges = [rc_severity rec, statusLabel rec w, rc_executionPath rec],
       pv_title = rc_title rec,
       pv_subtitle = rc_entity rec @ '' '' @ middle_dot @ '' '' @ rc_source rec,
       pv_confidence = (if cv_triageLoading v then Analysing (''analysing'' @ ellipsis)
         else Confidence (intStr (mathRound (rc_confidence rec * 100)) @ ''%'')),
       pv_actions = showsActions w,
       pv_recorded = recordedText w,
       pv_evidence = (if cv_triageLoading v then Pipeline steps (viewCaseId rec v)
         else Evidence (investigatorStepper steps (rc_executionPath rec) (rc_verdict rec))
           (reasoningTraceViewer (rc_executionPath rec) (rc_featureImpacts rec) (wb_httpSteps w) steps)),
       pv_pinned = map (\<lambda>e. (ei_label e, evidenceTypeStr (ei_type e), ei_value e)) (rc_evidence rec)\<rparr>)"

section \<open>components/workbench/investigator-trace-stepper.tsx\<close>

definition PIPELINE_STEPS :: "(string \<times> string) list" where
  "PIPELINE_STEPS = [(''Reasoning'', ''Intermediate beliefs from the investigator model.''),
     (''Tools & evidence'', ''MCP / warm-tier queries and policy-checked calls.''),
     (''Verdict & attestation'', ''Final verdict, guardrails, signed envelope.'')]"

definition PIPELINE_4 :: "(string \<times> string) list" where
  "PIPELINE_4 = [(''Event ingested'', ''OCSF parsed '' @ middle_dot @ '' baseline fetched''),
     (''Classifier'', ''XGBoost/ONNX '' @ middle_dot @ '' SHAP attribution''),
     (''LLM investigation'', ''Investigator agent '' @ middle_dot @ '' MCP tools''),
     (''Verdict & attestation'', ''Guardrails '' @ middle_dot @ '' Ed25519 envelope'')]"

text \<open>Of the three badges of a step the style sheet shows the one of its state; \<open>doneWord\<close> is the completed one.\<close>

definition stepBadge :: "string \<Rightarrow> item_state \<Rightarrow> string" where
  "stepBadge doneWord st = (case st of StepActive \<Rightarrow> ''In progress'' | StepCompleted \<Rightarrow> doneWord | StepInactive \<Rightarrow> ''Pending'')"

record step_view =
  sv_title :: string
  sv_description :: string
  sv_icon :: pipeline_icon
  sv_badge :: string
  sv_separator :: bool

definition stepViews :: "string \<Rightarrow> (string \<times> string) list \<Rightarrow> (item_state \<times> pipeline_icon) list \<Rightarrow> step_view list" where
  "stepViews doneWord steps items =
     map (\<lambda>(index, (title, description), (st, icon)).
         \<lparr>sv_title = title, sv_description = description, sv_icon = icon, sv_badge = stepBadge doneWord st,
          sv_separator = (length steps > index + 1)\<rparr>) (enumerate 0 (zip steps items))"

datatype trace_log = WaitingForTrace string | LogLines "(string \<times> string \<times> string) list"

definition traceLogView :: "kafka_step list \<Rightarrow> trace_log" where
  "traceLogView steps = (if steps = [] then WaitingForTrace (''Waiting for trace events'' @ ellipsis) else LogLines (liveTraceLog steps))"

definition triagePipelineStepper :: "kafka_step list \<Rightarrow> int \<Rightarrow> string \<times> step_view list \<times> string option \<times> trace_log" where
  "triagePipelineStepper liveSteps elapsed =
     (let p = triagePipeline liveSteps elapsed in
      (formatElapsed elapsed @ '' elapsed'',
       stepViews ''Done'' PIPELINE_4 (pipelineItems (ps_activeStep p) (ps_loadingStep p) (ps_done p)),
       if liveSteps \<noteq> [] then Some (natStr (length liveSteps) @ '' event'' @ (if length liveSteps \<noteq> 1 then ''s'' else [])) else None,
       traceLogView liveSteps))"

definition investigatorTraceStepper :: "kafka_step list \<Rightarrow> string \<Rightarrow> string \<Rightarrow> (string option \<times> step_view list) option" where
  "investigatorTraceStepper liveSteps executionPath verdict =
     map_option (\<lambda>(st, doneFlags).
         (if filter llmPath liveSteps = [] then Some (em_dash @ '' no LLM trace steps yet'') else None,
          stepViews ''Completed'' PIPELINE_STEPS (pipelineItems (st_activeStep st) (st_loadingStep st) doneFlags)))
       (investigatorStepper liveSteps executionPath verdict)"

section \<open>components/workbench/reasoning-trace-viewer.tsx\<close>

subsection \<open>A citation\<close>

record citation_chip =
  cc_id :: string
  cc_data :: "jsval option"
  cc_loaded :: bool
  cc_requests :: "string list"

definition newChip :: "string \<Rightarrow> citation_chip" where
  "newChip i = \<lparr>cc_id = i, cc_data = None, cc_loaded = False, cc_requests = []\<rparr>"

datatype chip_event = HoverChange bool | EventAnswer "jsval option"

definition loadChip :: "citation_chip \<Rightarrow> citation_chip" where
  "loadChip c = (if cc_loaded c then c
     else c\<lparr>cc_loaded := True, cc_requests := cc_requests c @ [''/api/events?id='' @ encodeURIComponent (cc_id c)]\<rparr>)"

fun chipStep :: "chip_event \<Rightarrow> citation_chip \<Rightarrow> citation_chip" where
  "chipStep (HoverChange opened) c = (if opened then loadChip c else c)"
| "chipStep (EventAnswer j) c = c\<lparr>cc_data := j\<rparr>"

text \<open>The button and the card: an operation that is a string is shown when it is not empty.\<close>

definition chipView :: "citation_chip \<Rightarrow> string \<times> string \<times> string" where
  "chipView c = (slice 0 8 (cc_id c) @ ellipsis, cc_id c,
     case cc_data c of
       None \<Rightarrow> ''Event metadata''
     | Some j \<Rightarrow> (case jsField ''api_operation'' j of Str s \<Rightarrow> if s \<noteq> [] then s else ''Event metadata'' | _ \<Rightarrow> ''Event metadata''))"

subsection \<open>The lines\<close>

datatype trace_icon = BrainIcon | WrenchIcon | GavelIcon | ShieldIcon | CpuIcon | SearchIcon

definition traceIcon :: "string \<Rightarrow> trace_icon" where
  "traceIcon kind =
     (if kind = ''intermediate_belief'' then BrainIcon
      else if kind = ''tool_call'' then WrenchIcon
      else if kind = ''final_verdict'' then GavelIcon
      else if kind = ''envelope'' then ShieldIcon
      else if kind = ''classifier_complete'' then CpuIcon
      else SearchIcon)"

datatype line_body = Plain string | Cited "part list"

record line_view =
  lv_title :: string
  lv_badge :: "string \<times> string"
  lv_agent :: "string \<times> string"
  lv_toggle :: "string option"
  lv_body :: line_body
  lv_action :: string

definition traceStepBody :: "bool \<Rightarrow> trace_line \<Rightarrow> line_view" where
  "traceStepBody opened row =
     \<lparr>lv_title = prettyKind_viewer (ln_kind row), lv_badge = (traceBadgeVariant (ln_kind row), ln_kind row),
      lv_agent = (ln_agent_id row, ln_execution_path row),
      lv_toggle = (if ln_expandable row then Some (if opened then ''Collapse'' else ''Expand'') else None),
      lv_body = (if ln_expandable row \<and> opened then Cited (citationParts (ln_summary row)) else Plain (ln_summary row)),
      lv_action = ln_agent_action_id row\<rparr>"

datatype timeline_view = TimelineEmpty | TimelineSteps "(item_state \<times> trace_icon option \<times> line_view \<times> bool) list"

text \<open>Every line with its state, its own icon unless it is completed, whether it has a line below it; \<open>opened\<close> are
  the keys of the lines that were expanded.\<close>

definition reasoningTimeline :: "string list \<Rightarrow> http_step list \<Rightarrow> kafka_step list \<Rightarrow> timeline_view" where
  "reasoningTimeline opened httpSteps liveSteps =
     (let rows = timelineRows httpSteps liveSteps in
      if rows = [] then TimelineEmpty
      else TimelineSteps (map (\<lambda>(index, row).
        let st = itemState (lineCompleted rows index) (int index + 1) (int (length rows)) in
        (st, if st = StepCompleted then None else Some (traceIcon (ln_kind row)), traceStepBody (ln_key row \<in> set opened) row,
         Suc index \<noteq> length rows)) (enumerate 0 rows)))"

section \<open>Facts\<close>

lemma map_enumerate_fst: "map (\<lambda>(i, x). g i) (enumerate 0 xs) = map g [0..<length xs]"
  by (rule nth_equalityI) (simp_all add: nth_enumerate_eq)

definition soundRequest :: "string \<times> string \<times> string \<Rightarrow> bool" where
  "soundRequest q \<longleftrightarrow> fst (snd q) \<in> fst ` set dialogLabels \<and> trim (snd (snd q)) \<noteq> []"

text \<open>An override that was sent has left its label, and the dialog is closed for good.\<close>

definition viewOk :: "bench_view \<Rightarrow> bool" where
  "viewOk v \<longleftrightarrow> length (wb_requests (cv_bench v)) \<le> 1 \<and> list_all soundRequest (wb_requests (cv_bench v)) \<and>
     vd_label (cv_dialog v) \<in> fst ` set dialogLabels \<and>
     (wb_localOverrideLabel (cv_bench v) = None \<longrightarrow> wb_requests (cv_bench v) = []) \<and>
     (wb_localOverrideLabel (cv_bench v) \<noteq> None \<longrightarrow> \<not> wb_overrideOpen (cv_bench v))"

lemma bench_frame [simp]:
  "cv_bench (loadTrace v) = cv_bench v" "cv_dialog (loadTrace v) = cv_dialog v" "cv_bench (loadingEffect v) = cv_bench v"
  "cv_dialog (loadingEffect v) = cv_dialog v" "cv_bench (onBench f v) = f (cv_bench v)" "cv_dialog (onBench f v) = cv_dialog v"
  by (simp_all add: loadTrace_def loadingEffect_def onBench_def)

lemma answered_frame [simp]:
  "wb_requests (overrideAnswered f w) = wb_requests w" "wb_localOverrideLabel (overrideAnswered f w) = wb_localOverrideLabel w"
  "wb_overrideOpen (overrideAnswered f w) = wb_overrideOpen w"
  by (simp_all add: overrideAnswered_def split: fetched.splits)

lemma viewOk_frame:
  assumes "viewOk v" "wb_requests (cv_bench v') = wb_requests (cv_bench v)" "cv_dialog v' = cv_dialog v"
    "wb_localOverrideLabel (cv_bench v') = wb_localOverrideLabel (cv_bench v)"
    "wb_overrideOpen (cv_bench v') \<Longrightarrow> wb_overrideOpen (cv_bench v)"
  shows "viewOk v'"
  using assms by (auto simp: viewOk_def)

lemma viewOk_submit: "viewOk v \<Longrightarrow> wb_overrideOpen (cv_bench v) \<Longrightarrow> viewOk (handleSubmit now v)"
  by (auto simp: viewOk_def handleSubmit_def handleOverrideSubmit_def Let_def soundRequest_def)

lemma viewOk_step: "viewOk v \<Longrightarrow> viewOk (benchStep e v)"
proof (cases e)
  case ClickOverride
  assume "viewOk v"
  then show ?thesis using ClickOverride
    by (auto simp: viewOk_def showsActions_def overrideApplied_def newDialog_def dialogLabels_def)
next
  case (PickLabel l)
  assume "viewOk v"
  then show ?thesis using PickLabel by (auto simp: viewOk_def)
next
  case (TypeReason r)
  assume "viewOk v"
  then show ?thesis using TypeReason by (auto simp: viewOk_def)
qed (auto simp: viewOk_submit handleApprove_def traceLoaded_def Let_def elim!: viewOk_frame split: fetched.splits)

interpretation view_machine: preserved benchStep "\<lambda>_. True" viewOk
  by unfold_locales (rule viewOk_step)

definition freshBench :: "workbench \<Rightarrow> bool" where
  "freshBench w \<longleftrightarrow> \<not> wb_overrideOpen w \<and> wb_localOverrideLabel w = None \<and> wb_requests w = []"

lemma viewRun_ok: "freshBench w \<Longrightarrow> viewOk (fold benchStep es (mountView w loading))"
  by (rule view_machine.run_inv)
    (simp_all add: list_all_iff viewOk_def mountView_def freshBench_def newDialog_def dialogLabels_def)

lemma derived_state:
  "st_activeStep (deriveStepState ss) \<in> {1, 2, 3}" "st_step3Done (deriveStepState ss) \<Longrightarrow> st_step2Done (deriveStepState ss)"
  "st_step2Done (deriveStepState ss) \<Longrightarrow> st_step1Done (deriveStepState ss)"
  by (auto simp: deriveStepState_def Let_def hasKind_def kindPhase_def list_ex_iff)

text \<open>Flags that fall are drawn as a prefix of completed steps.\<close>

lemma steps_prefix:
  assumes "a \<in> {1, 2, 3}" "length flags = 3" "flags ! 2 \<longrightarrow> flags ! 1" "flags ! 1 \<longrightarrow> flags ! 0"
  shows "\<exists>k \<le> 3. \<exists>rest. map fst (pipelineItems a loading flags) = replicate k StepCompleted @ rest \<and> StepCompleted \<notin> set rest"
proof -
  obtain x y z where f: "flags = [x, y, z]" using assms(2) by (auto simp: numeral_eq_Suc length_Suc_conv)
  define ms where "ms = map fst (pipelineItems a loading flags)"
  have ms: "ms = [itemState x 1 a, itemState y 2 a, itemState z 3 a]" by (simp add: ms_def pipelineItems_def f Let_def)
  let ?Q = "\<lambda>k. \<exists>rest. ms = replicate k StepCompleted @ rest \<and> StepCompleted \<notin> set rest"
  have some: "?Q 0 \<or> ?Q 1 \<or> ?Q 2 \<or> ?Q 3"
    using assms(1,3,4) unfolding ms by (auto simp: f itemState_def numeral_eq_Suc)
  have "Q 0 \<or> Q 1 \<or> Q 2 \<or> Q 3 \<Longrightarrow> \<exists>k \<le> 3. Q k" for Q :: "nat \<Rightarrow> bool"
    by (elim disjE) (rule exI, rule conjI [rotated], assumption, simp)+
  from this [OF some] show ?thesis by (simp only: ms_def)
qed

section \<open>Properties\<close>

text \<open>C22: a page sends at most one override, whatever the analyst clicks and whatever is answered: the request carries
  one of the four labels and a reason that is not blank, and once it is sent the dialog is closed and the buttons
  that could open it are gone.\<close>

theorem override_sent_once:
  assumes "freshBench w" and v: "v = fold benchStep es (mountView w loading)"
  shows "length (wb_requests (cv_bench v)) \<le> 1 \<and>
    (\<forall>(url, label, reason) \<in> set (wb_requests (cv_bench v)). label \<in> fst ` set dialogLabels \<and> trim reason \<noteq> []) \<and>
    (wb_requests (cv_bench v) \<noteq> [] \<longrightarrow> \<not> wb_overrideOpen (cv_bench v) \<and> \<not> pv_actions (caseWorkbench rec live v))"
proof -
  have ok: "viewOk v" unfolding v by (rule viewRun_ok [OF assms(1)])
  then have "\<forall>(url, label, reason) \<in> set (wb_requests (cv_bench v)). label \<in> fst ` set dialogLabels \<and> trim reason \<noteq> []"
    by (simp add: viewOk_def list_all_iff soundRequest_def case_prod_unfold)
  moreover have "\<not> pv_actions (caseWorkbench rec live v)" if "wb_requests (cv_bench v) \<noteq> []"
    using ok that by (simp add: viewOk_def caseWorkbench_def Let_def showsActions_def overrideApplied_def)
  ultimately show ?thesis using ok by (auto simp: viewOk_def)
qed

definition dialogRun :: "view_event list" where
  "dialogRun = [ClickOverride, TypeReason ''travel'', PickLabel ''benign'', ClickSubmit 5, ClickOverride, ClickSubmit 6]"

definition openBench :: workbench where
  "openBench = \<lparr>wb_oid = ''c'', wb_overrideOpen = False, wb_approved = False, wb_localOverrideLabel = None, wb_httpSteps = [],
     wb_store = [], wb_toasts = [], wb_requests = []\<rparr>"

theorem override_sent_once_witness:
  "map snd (wb_requests (cv_bench (fold benchStep dialogRun (mountView openBench False)))) = [(''benign'', ''travel'')] \<and>
   \<not> wb_overrideOpen (cv_bench (fold benchStep dialogRun (mountView openBench False)))"
proof -
  have r: "map snd (wb_requests (cv_bench (fold benchStep dialogRun (mountView openBench False)))) = [(''benign'', ''travel'')]"
    by code_simp
  have "freshBench openBench" by (simp add: freshBench_def openBench_def)
  from override_sent_once [OF this refl, of dialogRun False] r show ?thesis by auto
qed

text \<open>An approval does not close the dialog: who opens the dialog and then approves, which the keyboard allows, can still
  submit the override, so one case is both approved and overridden.\<close>

theorem approved_and_overridden:
  assumes "showsActions w" "\<not> wb_overrideOpen w" "trim r \<noteq> []"
  shows "let v = fold benchStep [ClickOverride, ClickApprove t, TypeReason r, ClickSubmit t'] (mountView w loading) in
     wb_toasts (cv_bench v) = wb_toasts w @ [''Verdict approved'', ''Override submitted''] \<and>
     approvedUi (cv_bench v) \<and> overrideApplied (cv_bench v)"
proof -
  have m: "cv_bench (mountView w loading) = w" by (simp add: mountView_def)
  have open_w: "showsActions (w\<lparr>wb_overrideOpen := True\<rparr>)"
    using assms(1) by (simp add: showsActions_def overrideApplied_def approvedUi_def)
  have "wb_oid w \<noteq> []" using assms(1) by (simp add: showsActions_def)
  then show ?thesis using assms m open_w
    by (simp add: Let_def handleSubmit_def handleOverrideSubmit_def handleApprove_def canSubmit_def newDialog_def approvedUi_def
        overrideApplied_def)
qed

text \<open>The stored trace is requested twice when a settled case is opened, and once more for every triage that ends.\<close>

theorem trace_requested_twice:
  assumes "wb_oid w \<noteq> []"
  shows "cv_traceRequests (mountView w False) = 2 \<and> cv_traceRequests (mountView w True) = 1 \<and>
    cv_traceRequests (benchStep (LoadingChange False) (mountView w True)) = 2"
  using assms by (simp add: mountView_def loadTrace_def loadingEffect_def)

text \<open>A reload of the trace that fails removes the stored steps from the page, also after an override that was accepted.\<close>

lemma failed_reload_empties: "wb_httpSteps (cv_bench (benchStep (TraceAnswer None) v)) = []"
  by (simp add: traceLoaded_def)

text \<open>A citation asks for its event at most once, however often the card is opened, and not again after a failure.\<close>

theorem chip_loads_once:
  "length (cc_requests (fold chipStep es (newChip i))) \<le> 1 \<and>
   (HoverChange True \<in> set es \<longrightarrow> cc_requests (fold chipStep es (newChip i)) = [''/api/events?id='' @ encodeURIComponent i])"
proof -
  have step: "cc_id (chipStep e c) = cc_id c" "cc_loaded c \<Longrightarrow> cc_loaded (chipStep e c) \<and> cc_requests (chipStep e c) = cc_requests c" for e c
    by (cases e; simp add: loadChip_def)+
  have kept: "cc_loaded c \<Longrightarrow> cc_requests (fold chipStep es c) = cc_requests c" for es c
    by (induction es arbitrary: c) (use step in auto)
  have "\<not> cc_loaded c \<Longrightarrow> cc_requests c = [] \<Longrightarrow> length (cc_requests (fold chipStep es c)) \<le> 1 \<and>
      (HoverChange True \<in> set es \<longrightarrow> cc_requests (fold chipStep es c) = [''/api/events?id='' @ encodeURIComponent (cc_id c)])" for c
  proof (induction es arbitrary: c)
    case (Cons e es)
    show ?case
    proof (cases "e = HoverChange True")
      case True
      then show ?thesis using Cons.prems kept [of "loadChip c" es] by (simp add: loadChip_def)
    next
      case False
      then have "chipStep e c = c \<or> (\<exists>j. chipStep e c = c\<lparr>cc_data := j\<rparr>)" by (cases e) auto
      then have "\<not> cc_loaded (chipStep e c)" "cc_requests (chipStep e c) = []" using Cons.prems by auto
      from Cons.IH [OF this] show ?thesis using False step(1) [of e c] by auto
    qed
  qed simp
  from this [of "newChip i"] show ?thesis by (simp add: newChip_def)
qed

text \<open>The timeline is drawn as progress: every line above the last is completed, and the last one is, too, once the
  trace has ended.\<close>

theorem timeline_draws_progress:
  assumes "reasoningTimeline opened httpSteps liveSteps = TimelineSteps xs"
  shows "map fst xs = replicate (length xs - 1) StepCompleted @
      [if terminalComplete (timelineRows httpSteps liveSteps) then StepCompleted else StepActive]"
proof -
  let ?rows = "timelineRows httpSteps liveSteps"
  have ne: "?rows \<noteq> []" using assms by (auto simp: reasoningTimeline_def Let_def split: if_splits)
  have "xs = map (\<lambda>(i, row). let st = itemState (lineCompleted ?rows i) (int i + 1) (int (length ?rows)) in
        (st, if st = StepCompleted then None else Some (traceIcon (ln_kind row)), traceStepBody (ln_key row \<in> set opened) row,
         Suc i \<noteq> length ?rows)) (enumerate 0 ?rows)"
    using assms ne by (simp add: reasoningTimeline_def Let_def)
  then have "map fst xs = map (\<lambda>(i, row). itemState (lineCompleted ?rows i) (int i + 1) (int (length ?rows))) (enumerate 0 ?rows)"
    by (simp add: comp_def split_def Let_def)
  then have xs: "map fst xs = map (\<lambda>i. itemState (lineCompleted ?rows i) (int i + 1) (int (length ?rows))) [0..<length ?rows]"
    by (simp only: map_enumerate_fst)
  have len: "length xs = length ?rows" using arg_cong [OF xs, of length] by (simp only: length_map length_upt diff_zero)
  show ?thesis
    using ne by (intro nth_equalityI) (auto simp: xs len nth_append itemState_def lineCompleted_def less_Suc_eq_le)
qed

text \<open>The investigator's three steps are drawn as progress: the completed ones come first.\<close>

theorem investigator_draws_progress:
  assumes "investigatorStepper liveSteps path verdict = Some (st, flags)"
  shows "\<exists>k \<le> 3. \<exists>rest. map fst (pipelineItems (st_activeStep st) (st_loadingStep st) flags) = replicate k StepCompleted @ rest \<and>
    StepCompleted \<notin> set rest"
proof -
  have "st_activeStep st \<in> {1, 2, 3}" "length flags = 3" "flags ! 2 \<longrightarrow> flags ! 1" "flags ! 1 \<longrightarrow> flags ! 0"
    using assms derived_state [of "filter llmPath liveSteps"]
    by (auto simp: investigatorStepper_def Let_def split: if_splits)
  then show ?thesis by (rule steps_prefix)
qed

end
