(* ===== verification/Dashboard.thy ===== *)
theory Dashboard
  imports Table_Engine Ui_State Js_Date
begin

text \<open>
  The charts and the dashboard page: \<open>components/ui/chart.tsx\<close> (the style sheet of a chart and the look-up of a
  series' configuration), \<open>components/chart-area-interactive.tsx\<close> (the chart over a range of days) and
  \<open>components/data-table.tsx\<close> (a table whose rows are dragged, selected and paged). The table engine is a parameter
  (\<open>Table_Engine\<close>), and so are drag and drop, of which only \<open>arrayMove\<close> is used, and the drawing of charts.
\<close>

section \<open>components/ui/chart.tsx\<close>

subsection \<open>Configuration\<close>

text \<open>A configuration has a colour or a pair of colours for the two themes.\<close>

record chart_item =
  ci_label :: "string option"
  ci_icon :: "string option"
  ci_color :: "string option"
  ci_theme :: "(string \<times> string) option"

type_synonym chart_config = "chart_item dict"

definition noItem :: chart_item where
  "noItem = \<lparr>ci_label = None, ci_icon = None, ci_color = None, ci_theme = None\<rparr>"

definition THEMES :: "(string \<times> string) list" where
  "THEMES = [(''light'', []), (''dark'', ''.dark'')]"

definition chartId :: "string \<Rightarrow> string \<Rightarrow> string" where
  "chartId given uniqueId = ''chart-'' @ (if given \<noteq> [] then given else filter (\<lambda>c. c \<noteq> CHR '':'') uniqueId)"

subsection \<open>ChartStyle\<close>

definition themeColor :: "string \<Rightarrow> chart_item \<Rightarrow> string" where
  "themeColor theme item =
     (case ci_theme item of
        Some (light, dark) \<Rightarrow>
          (let c = (if theme = ''light'' then light else dark) in if c \<noteq> [] then c else orElse (ci_color item) [])
      | None \<Rightarrow> orElse (ci_color item) [])"

definition colorConfig :: "chart_config \<Rightarrow> chart_config" where
  "colorConfig config = filter (\<lambda>(_, item). ci_theme item \<noteq> None \<or> orElse (ci_color item) [] \<noteq> []) (objectEntries config)"

text \<open>A line that is \<open>null\<close> is joined as the empty string.\<close>

definition colorLine :: "string \<Rightarrow> string \<times> chart_item \<Rightarrow> string" where
  "colorLine theme e = (let color = themeColor theme (snd e) in
     if color \<noteq> [] then ''  --color-'' @ fst e @ '': '' @ color @ '';'' else [])"

definition themeBlock :: "string \<Rightarrow> chart_config \<Rightarrow> string \<times> string \<Rightarrow> string" where
  "themeBlock i cfg tp = newline @ snd tp @ '' [data-chart='' @ i @ ''] {'' @ newline @
     joinWith newline (map (colorLine (fst tp)) cfg) @ newline @ ''}'' @ newline"

definition chartStyle :: "string \<Rightarrow> chart_config \<Rightarrow> string option" where
  "chartStyle i config =
     (let cfg = colorConfig config in
      if cfg = [] then None else Some (joinWith newline (map (themeBlock i cfg) THEMES)))"

subsection \<open>getPayloadConfigFromPayload\<close>

text \<open>\<open>k in o\<close> also holds for the members of \<open>Object.prototype\<close>; none of those is a string, and as a configuration
  each has neither label nor icon nor colour. Payloads are plain objects, as the chart library passes them.\<close>

definition ownString :: "string \<Rightarrow> jsval \<Rightarrow> string option" where
  "ownString k v = (case v of Obj d \<Rightarrow> (case dictGet d k of Some (Str s) \<Rightarrow> Some s | _ \<Rightarrow> None) | _ \<Rightarrow> None)"

definition configAt :: "chart_config \<Rightarrow> string \<Rightarrow> chart_item option" where
  "configAt config k =
     (case dictGet config k of Some item \<Rightarrow> Some item | None \<Rightarrow> if k \<in> set objectPrototype then Some noItem else None)"

definition getPayloadConfigFromPayload :: "chart_config \<Rightarrow> jsval \<Rightarrow> string \<Rightarrow> chart_item option" where
  "getPayloadConfigFromPayload config payload key =
     (case payload of
        Obj _ \<Rightarrow>
          (let inner = jsField ''payload'' payload;
               labelKey = (case ownString key payload of
                   Some s \<Rightarrow> s
                 | None \<Rightarrow> (case ownString key inner of Some s \<Rightarrow> s | None \<Rightarrow> key))
           in if inObject labelKey config then configAt config labelKey else configAt config key)
      | _ \<Rightarrow> None)"

text \<open>The key of an entry of the tooltip and of the legend, and the tooltip's label.\<close>

fun firstTruthy :: "jsval list \<Rightarrow> string" where
  "firstTruthy [] = ''value''"
| "firstTruthy (v # vs) = (if truthy v then jsString v else firstTruthy vs)"

definition tooltipKey :: "string \<Rightarrow> jsval \<Rightarrow> string" where
  "tooltipKey nameKey item = (if nameKey \<noteq> [] then nameKey else firstTruthy [jsField ''name'' item, jsField ''dataKey'' item])"

definition legendKey :: "string \<Rightarrow> jsval \<Rightarrow> string" where
  "legendKey nameKey item = (if nameKey \<noteq> [] then nameKey else firstTruthy [jsField ''dataKey'' item])"

definition itemLabel :: "chart_item option \<Rightarrow> string" where
  "itemLabel item = (case item of None \<Rightarrow> [] | Some it \<Rightarrow> orElse (ci_label it) [])"

definition tooltipLabel ::
  "chart_config \<Rightarrow> bool \<Rightarrow> string \<Rightarrow> string option \<Rightarrow> (string \<Rightarrow> string) option \<Rightarrow> jsval list \<Rightarrow> string option" where
  "tooltipLabel config hideLabel labelKey label labelFormatter payload =
     (case payload of
        [] \<Rightarrow> None
      | item # _ \<Rightarrow>
          if hideLabel then None
          else
            let key = (if labelKey \<noteq> [] then labelKey else firstTruthy [jsField ''dataKey'' item, jsField ''name'' item]);
                value = (case label of
                    Some l \<Rightarrow> if labelKey = [] then (let c = itemLabel (configAt config l) in if c \<noteq> [] then c else l)
                      else itemLabel (getPayloadConfigFromPayload config item key)
                  | None \<Rightarrow> itemLabel (getPayloadConfigFromPayload config item key))
            in case labelFormatter of
                 Some f \<Rightarrow> Some (f value)
               | None \<Rightarrow> if value = [] then None else Some value)"

datatype indicator = IndLine | IndDot | IndDashed

definition nestLabel :: "indicator \<Rightarrow> jsval list \<Rightarrow> bool" where
  "nestLabel ind payload \<longleftrightarrow> length payload = 1 \<and> ind \<noteq> IndDot"

text \<open>A value as a child of an element: a number is drawn, also 0, and \<open>undefined\<close>, \<open>null\<close> and booleans are not. The chart
  library passes names and values that are strings or numbers, and items with a \<open>payload\<close>.\<close>

definition childText :: "jsval \<Rightarrow> string" where
  "childText v = (case v of Num n \<Rightarrow> numStr n | Str s \<Rightarrow> s | _ \<Rightarrow> [])"

datatype marker = IconMark string | ColorMark jsval | NoMark

record tip_row =
  tip_marker :: marker
  tip_nested :: "string option"
  tip_name :: string
  tip_value :: string

datatype tip_item = Formatted string | TipRow tip_row

record tooltip_props =
  tp_nameKey :: string
  tp_hideIndicator :: bool
  tp_indicator :: indicator
  tp_color :: string
  tp_formatter :: "(jsval \<Rightarrow> string) option"

definition firstValue :: "jsval \<Rightarrow> jsval \<Rightarrow> jsval" where
  "firstValue v w = (if truthy v then v else w)"

definition tooltipItem :: "chart_config \<Rightarrow> (jsval \<Rightarrow> string) \<Rightarrow> tooltip_props \<Rightarrow> string option \<Rightarrow> jsval \<Rightarrow> tip_item" where
  "tooltipItem config toLocaleString p nested item =
     (let itemConfig = getPayloadConfigFromPayload config item (tooltipKey (tp_nameKey p) item);
          indicatorColor = firstValue (Str (tp_color p)) (firstValue (jsField ''fill'' (jsField ''payload'' item)) (jsField ''color'' item));
          value = jsField ''value'' item;
          row = TipRow
            \<lparr>tip_marker = (case Option.bind itemConfig ci_icon of
                 Some icon \<Rightarrow> IconMark icon
               | None \<Rightarrow> if tp_hideIndicator p then NoMark else ColorMark indicatorColor),
             tip_nested = nested,
             tip_name = (if itemLabel itemConfig \<noteq> [] then itemLabel itemConfig else childText (jsField ''name'' item)),
             tip_value = (if truthy value then toLocaleString value else childText value)\<rparr>
      in case tp_formatter p of
           Some f \<Rightarrow> if value \<noteq> Undef \<and> truthy (jsField ''name'' item) then Formatted (f item) else row
         | None \<Rightarrow> row)"

text \<open>The label stands above the items, or beside the only one.\<close>

definition tooltipContent ::
  "chart_config \<Rightarrow> (jsval \<Rightarrow> string) \<Rightarrow> tooltip_props \<Rightarrow> bool \<Rightarrow> string option \<Rightarrow> jsval list \<Rightarrow> (string option \<times> tip_item list) option" where
  "tooltipContent config toLocaleString p active label payload =
     (if \<not> active \<or> payload = [] then None
      else
        let nest = nestLabel (tp_indicator p) payload
        in Some (if nest then None else label,
             map (tooltipItem config toLocaleString p (if nest then label else None))
               (filter (\<lambda>item. jsField ''type'' item \<noteq> Str ''none'') payload)))"

definition legendItem :: "chart_config \<Rightarrow> bool \<Rightarrow> string \<Rightarrow> jsval \<Rightarrow> marker \<times> string" where
  "legendItem config hideIcon nameKey item =
     (let itemConfig = getPayloadConfigFromPayload config item (legendKey nameKey item) in
      (case Option.bind itemConfig ci_icon of
           Some icon \<Rightarrow> if hideIcon then ColorMark (jsField ''color'' item) else IconMark icon
         | None \<Rightarrow> ColorMark (jsField ''color'' item), itemLabel itemConfig))"

definition legendContent :: "chart_config \<Rightarrow> bool \<Rightarrow> string \<Rightarrow> jsval list \<Rightarrow> (marker \<times> string) list option" where
  "legendContent config hideIcon nameKey payload =
     (if payload = [] then None
      else Some (map (legendItem config hideIcon nameKey) (filter (\<lambda>item. jsField ''type'' item \<noteq> Str ''none'') payload)))"

section \<open>components/chart-area-interactive.tsx\<close>

definition areaData :: "(string \<times> nat \<times> nat) list" where
  "areaData =
    [(''2024-04-01'', 222, 150), (''2024-04-02'', 97, 180), (''2024-04-03'', 167, 120), (''2024-04-04'', 242, 260),
     (''2024-04-05'', 373, 290), (''2024-04-06'', 301, 340), (''2024-04-07'', 245, 180), (''2024-04-08'', 409, 320),
     (''2024-04-09'', 59, 110), (''2024-04-10'', 261, 190), (''2024-04-11'', 327, 350), (''2024-04-12'', 292, 210),
     (''2024-04-13'', 342, 380), (''2024-04-14'', 137, 220), (''2024-04-15'', 120, 170), (''2024-04-16'', 138, 190),
     (''2024-04-17'', 446, 360), (''2024-04-18'', 364, 410), (''2024-04-19'', 243, 180), (''2024-04-20'', 89, 150),
     (''2024-04-21'', 137, 200), (''2024-04-22'', 224, 170), (''2024-04-23'', 138, 230), (''2024-04-24'', 387, 290),
     (''2024-04-25'', 215, 250), (''2024-04-26'', 75, 130), (''2024-04-27'', 383, 420), (''2024-04-28'', 122, 180),
     (''2024-04-29'', 315, 240), (''2024-04-30'', 454, 380), (''2024-05-01'', 165, 220), (''2024-05-02'', 293, 310),
     (''2024-05-03'', 247, 190), (''2024-05-04'', 385, 420), (''2024-05-05'', 481, 390), (''2024-05-06'', 498, 520),
     (''2024-05-07'', 388, 300), (''2024-05-08'', 149, 210), (''2024-05-09'', 227, 180), (''2024-05-10'', 293, 330),
     (''2024-05-11'', 335, 270), (''2024-05-12'', 197, 240), (''2024-05-13'', 197, 160), (''2024-05-14'', 448, 490),
     (''2024-05-15'', 473, 380), (''2024-05-16'', 338, 400), (''2024-05-17'', 499, 420), (''2024-05-18'', 315, 350),
     (''2024-05-19'', 235, 180), (''2024-05-20'', 177, 230), (''2024-05-21'', 82, 140), (''2024-05-22'', 81, 120),
     (''2024-05-23'', 252, 290), (''2024-05-24'', 294, 220), (''2024-05-25'', 201, 250), (''2024-05-26'', 213, 170),
     (''2024-05-27'', 420, 460), (''2024-05-28'', 233, 190), (''2024-05-29'', 78, 130), (''2024-05-30'', 340, 280),
     (''2024-05-31'', 178, 230), (''2024-06-01'', 178, 200), (''2024-06-02'', 470, 410), (''2024-06-03'', 103, 160),
     (''2024-06-04'', 439, 380), (''2024-06-05'', 88, 140), (''2024-06-06'', 294, 250), (''2024-06-07'', 323, 370),
     (''2024-06-08'', 385, 320), (''2024-06-09'', 438, 480), (''2024-06-10'', 155, 200), (''2024-06-11'', 92, 150),
     (''2024-06-12'', 492, 420), (''2024-06-13'', 81, 130), (''2024-06-14'', 426, 380), (''2024-06-15'', 307, 350),
     (''2024-06-16'', 371, 310), (''2024-06-17'', 475, 520), (''2024-06-18'', 107, 170), (''2024-06-19'', 341, 290),
     (''2024-06-20'', 408, 450), (''2024-06-21'', 169, 210), (''2024-06-22'', 317, 270), (''2024-06-23'', 480, 530),
     (''2024-06-24'', 132, 180), (''2024-06-25'', 141, 190), (''2024-06-26'', 434, 380), (''2024-06-27'', 448, 490),
     (''2024-06-28'', 149, 200), (''2024-06-29'', 103, 160), (''2024-06-30'', 446, 400)]"

definition areaConfig :: chart_config where
  "areaConfig =
     [(''visitors'', noItem\<lparr>ci_label := Some ''Visitors''\<rparr>),
      (''desktop'', noItem\<lparr>ci_label := Some ''Desktop'', ci_color := Some ''hsl(var(--chart-1))''\<rparr>),
      (''mobile'', noItem\<lparr>ci_label := Some ''Mobile'', ci_color := Some ''hsl(var(--chart-2))''\<rparr>)]"

text \<open>\<open>new Date("YYYY-MM-DD")\<close>: midnight of that day in UTC.\<close>

definition dateTime :: "string \<Rightarrow> int" where
  "dateTime s =
     (let y = int (decode (slice 0 4 s)); m = decode (slice 5 7 s); d = decode (slice 8 10 s)
      in (dayFromYear y + monthStarts (leapYear y) ! (m - 1) + int d - 1) * msPerDay)"

definition daysToSubtract :: "string \<Rightarrow> nat" where
  "daysToSubtract rng = (if rng = ''30d'' then 30 else if rng = ''7d'' then 7 else 90)"

definition chartTimeRange :: "bool \<Rightarrow> string \<Rightarrow> string" where
  "chartTimeRange isMobile timeRange = (if isMobile then ''7d'' else timeRange)"

text \<open>\<open>setDate\<close> moves the local date: \<open>shift\<close> is what the clock of the zone was put back by in between.\<close>

definition startDate :: "(nat \<Rightarrow> int) \<Rightarrow> string \<Rightarrow> int" where
  "startDate shift rng = dateTime ''2024-06-30'' - int (daysToSubtract rng) * msPerDay - shift (daysToSubtract rng)"

definition filteredData :: "(nat \<Rightarrow> int) \<Rightarrow> string \<Rightarrow> (string \<times> nat \<times> nat) list" where
  "filteredData shift rng = filter (\<lambda>(date, _). dateTime date \<ge> startDate shift rng) areaData"

definition rangeLabels :: "(string \<times> string) list" where
  "rangeLabels = [(''90d'', ''Last 3 months''), (''30d'', ''Last 30 days''), (''7d'', ''Last 7 days'')]"

section \<open>components/data-table.tsx\<close>

subsection \<open>Columns\<close>

record table_row =
  dr_id :: nat
  dr_header :: string
  dr_type :: string
  dr_status :: string
  dr_target :: string
  dr_limit :: string
  dr_reviewer :: string

text \<open>The columns by id, whether each has an accessor, and whether it can be hidden.\<close>

definition dataColumns :: "(string \<times> bool \<times> bool) list" where
  "dataColumns = [(''drag'', False, True), (''select'', False, False), (''header'', True, False), (''type'', True, True),
     (''status'', True, True), (''target'', True, True), (''limit'', True, True), (''reviewer'', True, True), (''actions'', False, True)]"

definition columnMenu :: "string list" where
  "columnMenu = map fst (filter (\<lambda>(_, accessor, hide). accessor \<and> hide) dataColumns)"

datatype status_icon = DoneIcon | PendingIcon

definition statusIcon :: "table_row \<Rightarrow> status_icon" where
  "statusIcon r = (if dr_status r = ''Done'' then DoneIcon else PendingIcon)"

datatype reviewer_cell = Assigned string | ChooseReviewer "string list"

definition reviewerCell :: "table_row \<Rightarrow> reviewer_cell" where
  "reviewerCell r = (if dr_reviewer r \<noteq> ''Assign reviewer'' then Assigned (dr_reviewer r)
     else ChooseReviewer [''Eddie Lake'', ''Jamik Tashpulatov''])"

definition savingToast :: "table_row \<Rightarrow> string" where
  "savingToast r = ''Saving '' @ dr_header r"

subsection \<open>State\<close>

text \<open>The sorting and the filters are never set; \<open>dt_selection\<close> are the row ids of the selection state.\<close>

record data_table =
  dt_data :: "table_row list"
  dt_selection :: "string list"
  dt_hidden :: "string list"
  dt_pageIndex :: nat
  dt_pageSize :: nat

definition rowId :: "table_row \<Rightarrow> string" where
  "rowId r = natStr (dr_id r)"

definition newDataTable :: "table_row list \<Rightarrow> data_table" where
  "newDataTable rows = \<lparr>dt_data = rows, dt_selection = [], dt_hidden = [], dt_pageIndex = 0, dt_pageSize = 10\<rparr>"

definition dataIds :: "data_table \<Rightarrow> nat list" where
  "dataIds t = map dr_id (dt_data t)"

text \<open>\<open>indexOf\<close> is -1 when the id is missing, which \<open>arrayMove\<close> counts from the end; the ids of the two rows are always
  among the rows, as both are rows of the table.\<close>

definition handleDragEnd :: "(table_row list \<Rightarrow> int \<Rightarrow> int \<Rightarrow> table_row list) \<Rightarrow> nat \<Rightarrow> nat option \<Rightarrow> data_table \<Rightarrow> data_table" where
  "handleDragEnd arrayMove active over t =
     (case over of
        None \<Rightarrow> t
      | Some ov \<Rightarrow>
          if active = ov then t
          else
            let indexIn = (\<lambda>i. case indexOf i (dataIds t) of None \<Rightarrow> - 1 | Some k \<Rightarrow> k)
            in t\<lparr>dt_data := arrayMove (dt_data t) (indexIn active) (indexIn ov)\<rparr>)"

type_synonym 'o data_engine = "(table_row, 'o) engine"

definition dataRows :: "'o data_engine \<Rightarrow> 'o \<Rightarrow> data_table \<Rightarrow> table_row list" where
  "dataRows e so t = en_rows e (\<lambda>_. True) so (dt_data t)"

definition dataPages :: "'o data_engine \<Rightarrow> 'o \<Rightarrow> data_table \<Rightarrow> nat" where
  "dataPages e so t = en_pageCount e (length (dataRows e so t)) (dt_pageSize t)"

definition dataPage :: "'o data_engine \<Rightarrow> 'o \<Rightarrow> data_table \<Rightarrow> table_row list" where
  "dataPage e so t = en_pageRows e (dt_pageIndex t) (dt_pageSize t) (dataRows e so t)"

definition rowSelected :: "data_table \<Rightarrow> table_row \<Rightarrow> bool" where
  "rowSelected t r \<longleftrightarrow> rowId r \<in> set (dt_selection t)"

definition toggleSelected :: "bool \<Rightarrow> table_row \<Rightarrow> data_table \<Rightarrow> data_table" where
  "toggleSelected b r t = t\<lparr>dt_selection := filter (\<lambda>i. i \<noteq> rowId r) (dt_selection t) @ (if b then [rowId r] else [])\<rparr>"

definition toggleAllPage :: "'o data_engine \<Rightarrow> 'o \<Rightarrow> bool \<Rightarrow> data_table \<Rightarrow> data_table" where
  "toggleAllPage e so b t = fold (toggleSelected b) (dataPage e so t) t"

text \<open>The header's check box: all, some or none of the page.\<close>

datatype check_state = CheckAll | CheckSome | CheckNone

definition headerCheck :: "'o data_engine \<Rightarrow> 'o \<Rightarrow> data_table \<Rightarrow> check_state" where
  "headerCheck e so t =
     (let page = dataPage e so t in
      if page \<noteq> [] \<and> list_all (rowSelected t) page then CheckAll
      else if list_ex (rowSelected t) page then CheckSome else CheckNone)"

definition selectedText :: "'o data_engine \<Rightarrow> 'o \<Rightarrow> data_table \<Rightarrow> string" where
  "selectedText e so t = natStr (length (filter (rowSelected t) (dataRows e so t))) @ '' of '' @
     natStr (length (dataRows e so t)) @ '' row(s) selected.''"

definition pageText :: "'o data_engine \<Rightarrow> 'o \<Rightarrow> data_table \<Rightarrow> string" where
  "pageText e so t = ''Page '' @ natStr (dt_pageIndex t + 1) @ '' of '' @ natStr (dataPages e so t)"

definition pageSizes :: "nat list" where
  "pageSizes = [10, 20, 30, 40, 50]"

subsection \<open>Handlers\<close>

text \<open>New data puts the engine on the page of \<open>en_reset\<close>; \<open>pageFor\<close> is the page the engine goes to when the size of
  the pages changes (index, size and new size). Buttons that are disabled do nothing.\<close>

datatype data_event =
    DragEnd nat "nat option"
  | CheckRow table_row bool
  | CheckPage bool
  | ShowColumn string bool
  | ChoosePageSize nat
  | GoFirst
  | GoPrevious
  | GoNext
  | GoLast

record 'o data_params =
  dp_engine :: "'o data_engine"
  dp_order :: 'o
  dp_arrayMove :: "table_row list \<Rightarrow> int \<Rightarrow> int \<Rightarrow> table_row list"
  dp_pageFor :: "nat \<Rightarrow> nat \<Rightarrow> nat \<Rightarrow> nat"

fun dataStep :: "'o data_params \<Rightarrow> data_event \<Rightarrow> data_table \<Rightarrow> data_table" where
  "dataStep ps (DragEnd active over) t =
     (let t' = handleDragEnd (dp_arrayMove ps) active over t in
      if dt_data t' = dt_data t then t' else t'\<lparr>dt_pageIndex := en_reset (dp_engine ps) (dt_pageIndex t')\<rparr>)"
| "dataStep ps (CheckRow r b) t = toggleSelected b r t"
| "dataStep ps (CheckPage b) t = toggleAllPage (dp_engine ps) (dp_order ps) b t"
| "dataStep ps (ShowColumn c shown) t =
     (if c \<in> set columnMenu then t\<lparr>dt_hidden := filter (\<lambda>d. d \<noteq> c) (dt_hidden t) @ (if shown then [] else [c])\<rparr> else t)"
| "dataStep ps (ChoosePageSize k) t =
     (if k \<in> set pageSizes then t\<lparr>dt_pageIndex := dp_pageFor ps (dt_pageIndex t) (dt_pageSize t) k, dt_pageSize := k\<rparr> else t)"
| "dataStep ps GoFirst t = (if en_canPrevious (dp_engine ps) (dt_pageIndex t) then t\<lparr>dt_pageIndex := 0\<rparr> else t)"
| "dataStep ps GoPrevious t = (if en_canPrevious (dp_engine ps) (dt_pageIndex t) then t\<lparr>dt_pageIndex := dt_pageIndex t - 1\<rparr> else t)"
| "dataStep ps GoNext t =
     (if en_canNext (dp_engine ps) (dt_pageIndex t) (dataPages (dp_engine ps) (dp_order ps) t)
      then t\<lparr>dt_pageIndex := dt_pageIndex t + 1\<rparr> else t)"
| "dataStep ps GoLast t =
     (if en_canNext (dp_engine ps) (dt_pageIndex t) (dataPages (dp_engine ps) (dp_order ps) t)
      then t\<lparr>dt_pageIndex := dataPages (dp_engine ps) (dp_order ps) t - 1\<rparr> else t)"

subsection \<open>The drawer of a row\<close>

definition drawerConfig :: chart_config where
  "drawerConfig =
     [(''desktop'', noItem\<lparr>ci_label := Some ''Desktop'', ci_color := Some ''var(--primary)''\<rparr>),
      (''mobile'', noItem\<lparr>ci_label := Some ''Mobile'', ci_color := Some ''var(--primary)''\<rparr>)]"

definition drawerData :: "(string \<times> nat \<times> nat) list" where
  "drawerData = [(''January'', 186, 80), (''February'', 305, 200), (''March'', 237, 120), (''April'', 73, 190), (''May'', 209, 130),
     (''June'', 214, 140)]"

datatype drawer_field = InputField string string | SelectField string string "string list"

record drawer_view =
  dv_title :: string
  dv_chart :: "(string \<times> nat \<times> nat) list option"
  dv_fields :: "drawer_field list"

definition tableCellViewer :: "bool \<Rightarrow> table_row \<Rightarrow> drawer_view" where
  "tableCellViewer isMobile item =
     \<lparr>dv_title = dr_header item,
      dv_chart = (if isMobile then None else Some drawerData),
      dv_fields =
        [InputField ''Header'' (dr_header item),
         SelectField ''Type'' (dr_type item)
           [''Table of Contents'', ''Executive Summary'', ''Technical Approach'', ''Design'', ''Capabilities'', ''Focus Documents'',
            ''Narrative'', ''Cover Page''],
         SelectField ''Status'' (dr_status item) [''Done'', ''In Progress'', ''Not Started''],
         InputField ''Target'' (dr_target item),
         InputField ''Limit'' (dr_limit item),
         SelectField ''Reviewer'' (dr_reviewer item) [''Eddie Lake'', ''Jamik Tashpulatov'', ''Emily Whalen'']]\<rparr>"

section \<open>Facts\<close>

text \<open>What \<open>arrayMove\<close> is documented to do with two places of the list.\<close>

definition moveItem :: "'a list \<Rightarrow> nat \<Rightarrow> nat \<Rightarrow> 'a list" where
  "moveItem xs i j = (let ys = take i xs @ drop (Suc i) xs in take j ys @ xs ! i # drop j ys)"

definition movesItems :: "('a list \<Rightarrow> int \<Rightarrow> int \<Rightarrow> 'a list) \<Rightarrow> bool" where
  "movesItems arrayMove \<longleftrightarrow> (\<forall>xs i j. i < length xs \<and> j < length xs \<longrightarrow> arrayMove xs (int i) (int j) = moveItem xs i j)"

lemma mset_insertAt: "mset (take j ys @ x # drop j ys) = add_mset x (mset ys)"
proof -
  have "mset (take j ys) + mset (drop j ys) = mset ys" by (metis append_take_drop_id mset_append)
  then show ?thesis by simp
qed

lemma mset_moveItem: "i < length xs \<Longrightarrow> mset (moveItem xs i j) = mset xs"
  unfolding moveItem_def Let_def mset_insertAt using id_take_nth_drop [of i xs] by (metis mset_append mset.simps(2) union_mset_add_mset_right)

lemma moveItem_nth: "i < length xs \<Longrightarrow> j < length xs \<Longrightarrow> moveItem xs i j ! j = xs ! i"
proof -
  assume i: "i < length xs" and j: "j < length xs"
  let ?ys = "take i xs @ drop (Suc i) xs"
  have "j \<le> length ?ys" using i j by simp
  then have "(take j ?ys @ xs ! i # drop j ?ys) ! j = xs ! i" by (metis length_take min.absorb2 nth_append_length)
  then show ?thesis by (simp only: moveItem_def Let_def)
qed

lemma rowId_inject: "rowId r = rowId s \<longleftrightarrow> dr_id r = dr_id s"
  by (simp add: rowId_def)

lemma selected_toggle: "rowSelected (toggleSelected b r t) s \<longleftrightarrow> (if rowId s = rowId r then b else rowSelected t s)"
  by (auto simp: rowSelected_def toggleSelected_def)

lemma selected_fold: "rowSelected (fold (toggleSelected b) rs t) s \<longleftrightarrow> (if rowId s \<in> rowId ` set rs then b else rowSelected t s)"
  by (induction rs arbitrary: t) (auto simp: selected_toggle)

lemma data_fold: "dt_data (fold (toggleSelected b) rs t) = dt_data t" "dt_pageIndex (fold (toggleSelected b) rs t) = dt_pageIndex t"
  "dt_pageSize (fold (toggleSelected b) rs t) = dt_pageSize t"
  by (induction rs arbitrary: t) (simp_all add: toggleSelected_def)

lemma includes_left: "str_includes s x \<Longrightarrow> str_includes (s @ b) x"
  unfolding str_includes_iff by (metis append.assoc)

lemma includes_right: "str_includes s x \<Longrightarrow> str_includes (a @ s) x"
  unfolding str_includes_iff by (metis append.assoc)

lemma includes_join: "x \<in> set xs \<Longrightarrow> str_includes (joinWith sep xs) x"
  by (induction xs rule: joinWith.induct [of _ sep]) (auto intro: includes_left includes_right)

text \<open>The days of the data, through the digits of its dates.\<close>

lemma dateTime_2024:
  "dateTime [CHR ''2'', CHR ''0'', CHR ''2'', CHR ''4'', CHR ''-'', a, b, CHR ''-'', c, d] =
     (19723 + monthStarts True ! (10 * (code a - 48) + (code b - 48) - 1) + int (10 * (code c - 48) + (code d - 48)) - 1) * msPerDay"
  by (simp add: dateTime_def slice_def decode_def dayFromYear_def leapYear_def Let_def) (simp add: code_def algebra_simps)

lemma digit_codes:
  "code CHR ''0'' = 48" "code CHR ''1'' = 49" "code CHR ''2'' = 50" "code CHR ''3'' = 51" "code CHR ''4'' = 52"
  "code CHR ''5'' = 53" "code CHR ''6'' = 54" "code CHR ''7'' = 55" "code CHR ''8'' = 56" "code CHR ''9'' = 57"
  by (simp_all add: code_def)

lemma month_starts: "monthStarts True ! 3 = 91" "monthStarts True ! 4 = 121" "monthStarts True ! 5 = 152"
  by (simp_all add: monthStarts_def)

lemma chart_days: "map (\<lambda>(d, _). dateTime d) areaData = map (\<lambda>d. d * msPerDay) [19814..19904]"
  by (simp add: areaData_def dateTime_2024 digit_codes month_starts)

lemma day_cut:
  fixes a d s :: int
  assumes "0 \<le> s" "s < msPerDay"
  shows "d * msPerDay \<ge> a * msPerDay - s \<longleftrightarrow> a \<le> d"
proof
  show "a \<le> d" if "d * msPerDay \<ge> a * msPerDay - s"
  proof (rule ccontr)
    assume "\<not> a \<le> d"
    then have "(d + 1) * msPerDay \<le> a * msPerDay" by (intro mult_right_mono) (simp_all add: msPerDay_def)
    with that assms show False by (simp add: algebra_simps)
  qed
  show "d * msPerDay \<ge> a * msPerDay - s" if "a \<le> d"
    using mult_right_mono [OF that, of msPerDay] assms by (simp add: msPerDay_def)
qed

lemma filteredData_count:
  assumes "0 \<le> shift (daysToSubtract r)" "shift (daysToSubtract r) < msPerDay"
  shows "length (filteredData shift r) = length (filter (\<lambda>d. 19904 - int (daysToSubtract r) \<le> d) [19814..19904])"
proof -
  let ?n = "daysToSubtract r"
  have "dateTime ''2024-06-30'' = 19904 * msPerDay" by (simp add: dateTime_2024 digit_codes month_starts)
  then have s: "startDate shift r = (19904 - int ?n) * msPerDay - shift ?n" by (simp add: startDate_def algebra_simps)
  have "d * msPerDay \<ge> startDate shift r \<longleftrightarrow> 19904 - int ?n \<le> d" for d
    unfolding s by (rule day_cut) (use assms in simp_all)
  then have p: "(\<lambda>d. d \<ge> startDate shift r) \<circ> (\<lambda>d. d * msPerDay) = (\<lambda>d. 19904 - int ?n \<le> d)" by (simp add: fun_eq_iff)
  have "length (filteredData shift r) = length (filter (\<lambda>d. d \<ge> startDate shift r) (map (\<lambda>(d, _). dateTime d) areaData))"
    by (simp add: filteredData_def filter_map comp_def case_prod_unfold)
  also have "\<dots> = length (filter (\<lambda>d. 19904 - int ?n \<le> d) [19814..19904])" unfolding chart_days filter_map length_map p ..
  finally show ?thesis .
qed

section \<open>Properties\<close>

text \<open>Dragging reorders and nothing else: the rows are the same, the dragged row takes the place of the row it was dropped on,
  and a selection still selects the same rows.\<close>

theorem drag_reorders:
  assumes "movesItems arrayMove" "distinct (dataIds t)" "i < length (dt_data t)" "j < length (dt_data t)"
  defines "t' \<equiv> handleDragEnd arrayMove (dr_id (dt_data t ! i)) (Some (dr_id (dt_data t ! j))) t"
  shows "mset (dt_data t') = mset (dt_data t)" "dt_data t' ! j = dt_data t ! i"
    "length (filter (rowSelected t') (dt_data t')) = length (filter (rowSelected t) (dt_data t))"
proof -
  have ix: "indexOf (dr_id (dt_data t ! k)) (dataIds t) = Some (int k)" if "k < length (dt_data t)" for k
    using indexOf_nth [OF assms(2), of k] that by (simp add: dataIds_def)
  have same: "dr_id (dt_data t ! i) = dr_id (dt_data t ! j) \<longleftrightarrow> i = j"
    using assms(2-4) nth_eq_iff_index_eq [of "dataIds t" i j] by (simp add: dataIds_def)
  have t': "t' = (if i = j then t else t\<lparr>dt_data := moveItem (dt_data t) i j\<rparr>)"
    using assms(1,3,4) ix same by (simp add: t'_def handleDragEnd_def Let_def movesItems_def)
  then show m: "mset (dt_data t') = mset (dt_data t)" and "dt_data t' ! j = dt_data t ! i"
    using mset_moveItem [OF assms(3)] moveItem_nth [OF assms(3,4)] by simp_all
  have "rowSelected t' = rowSelected t" by (simp add: fun_eq_iff rowSelected_def t')
  then show "length (filter (rowSelected t') (dt_data t')) = length (filter (rowSelected t) (dt_data t))"
    using arg_cong [OF m, of "\<lambda>x. size (filter_mset (rowSelected t) x)"] by (metis mset_filter size_mset)
qed

text \<open>No sequence of drags, clicks and page turns loses or adds a row: the ids stay distinct and the rows are the ones the table
  was given. The drags are between rows of the table.\<close>

definition dragsRows :: "table_row list \<Rightarrow> data_event \<Rightarrow> bool" where
  "dragsRows rows e \<longleftrightarrow>
     (case e of DragEnd a (Some b) \<Rightarrow> a \<in> dr_id ` set rows \<and> b \<in> dr_id ` set rows | _ \<Rightarrow> True)"

definition holdsRows :: "table_row list \<Rightarrow> data_table \<Rightarrow> bool" where
  "holdsRows rows t \<longleftrightarrow> mset (dt_data t) = mset rows \<and> distinct (map dr_id rows)"

lemma holdsRows_ids: "holdsRows rows t \<Longrightarrow> distinct (dataIds t)"
  unfolding holdsRows_def dataIds_def by (metis mset_eq_imp_distinct_iff mset_map)

lemma holdsRows_place: "holdsRows rows t \<Longrightarrow> k \<in> dr_id ` set rows \<Longrightarrow> \<exists>i < length (dt_data t). dr_id (dt_data t ! i) = k"
proof -
  assume h: "holdsRows rows t" and "k \<in> dr_id ` set rows"
  then have "k \<in> dr_id ` set (dt_data t)" using mset_eq_setD [of "dt_data t" rows] by (simp add: holdsRows_def)
  then show ?thesis by (auto simp: in_set_conv_nth)
qed

lemma holdsRows_drag:
  assumes "movesItems arrayMove" "dragsRows rows (DragEnd a b)" "holdsRows rows t"
  shows "holdsRows rows (handleDragEnd arrayMove a b t)"
proof (cases b)
  case (Some o')
  then have "a \<in> dr_id ` set rows" "o' \<in> dr_id ` set rows" using assms(2) by (simp_all add: dragsRows_def)
  then obtain i j where "i < length (dt_data t)" "dr_id (dt_data t ! i) = a" "j < length (dt_data t)" "dr_id (dt_data t ! j) = o'"
    using holdsRows_place [OF assms(3)] by metis
  then show ?thesis using drag_reorders(1) [OF assms(1) holdsRows_ids [OF assms(3)], of i j] assms(3) Some by (simp add: holdsRows_def)
qed (use assms(3) in \<open>simp add: handleDragEnd_def\<close>)

lemma holdsRows_step:
  "movesItems (dp_arrayMove ps) \<and> dragsRows rows e \<Longrightarrow> holdsRows rows t \<Longrightarrow> holdsRows rows (dataStep ps e t)"
proof (cases e)
  case (DragEnd a b)
  then show "movesItems (dp_arrayMove ps) \<and> dragsRows rows e \<Longrightarrow> holdsRows rows t \<Longrightarrow> ?thesis"
    using holdsRows_drag [of "dp_arrayMove ps" rows a b t] by (simp add: Let_def holdsRows_def)
qed (simp_all add: holdsRows_def toggleSelected_def toggleAllPage_def data_fold)

interpretation data_machine:
  preserved "dataStep ps" "\<lambda>e. movesItems (dp_arrayMove ps) \<and> dragsRows rows e" "holdsRows rows" for ps :: "'o data_params" and rows
  by unfold_locales (rule holdsRows_step)

theorem table_keeps_rows:
  assumes "movesItems (dp_arrayMove ps)" "distinct (map dr_id rows)" "list_all (dragsRows rows) es"
  shows "mset (dt_data (fold (dataStep ps) es (newDataTable rows))) = mset rows"
proof -
  have "holdsRows rows (fold (dataStep ps) es (newDataTable rows))"
    using assms by (intro data_machine.run_inv) (auto simp: list_all_iff holdsRows_def newDataTable_def)
  then show ?thesis by (simp add: holdsRows_def)
qed

text \<open>The box in the header selects the page and only the page.\<close>

theorem header_box_selects_page:
  assumes "dataPage e so t \<noteq> []"
  shows "headerCheck e so (toggleAllPage e so True t) = CheckAll" "headerCheck e so (toggleAllPage e so False t) = CheckNone"
    "rowId r \<notin> rowId ` set (dataPage e so t) \<Longrightarrow> rowSelected (toggleAllPage e so b t) r = rowSelected t r"
proof -
  have page: "dataPage e so (toggleAllPage e so b t) = dataPage e so t" for b
    by (simp add: dataPage_def dataRows_def toggleAllPage_def data_fold)
  have sel: "rowSelected (toggleAllPage e so b t) s \<longleftrightarrow> (if rowId s \<in> rowId ` set (dataPage e so t) then b else rowSelected t s)" for b s
    by (simp add: toggleAllPage_def selected_fold)
  show "headerCheck e so (toggleAllPage e so True t) = CheckAll" "headerCheck e so (toggleAllPage e so False t) = CheckNone"
    using assms by (auto simp: headerCheck_def Let_def page sel list_all_iff list_ex_iff)
  show "rowId r \<notin> rowId ` set (dataPage e so t) \<Longrightarrow> rowSelected (toggleAllPage e so b t) r = rowSelected t r" by (simp add: sel)
qed

text \<open>The chart's style sheet names the colour of every series that has one, in the block of each theme.\<close>

theorem style_names_colors:
  assumes "(k, item) \<in> set config" "(theme, prefix) \<in> set THEMES" "themeColor theme item = c" "c \<noteq> []"
  shows "\<exists>css. chartStyle i config = Some css \<and> str_includes css (themeBlock i (colorConfig config) (theme, prefix)) \<and>
    str_includes (themeBlock i (colorConfig config) (theme, prefix)) (''  --color-'' @ k @ '': '' @ c @ '';'')"
proof -
  have "(k, item) \<in> set (objectEntries config)" using assms(1) mset_eq_setD [OF mset_objectEntries [of config]] by simp
  moreover have "ci_theme item \<noteq> None \<or> orElse (ci_color item) [] \<noteq> []"
    using assms(3,4) by (auto simp: themeColor_def split: option.splits)
  ultimately have mem: "(k, item) \<in> set (colorConfig config)" by (auto simp: colorConfig_def)
  then have ne: "colorConfig config \<noteq> []" by auto
  have "''  --color-'' @ k @ '': '' @ c @ '';'' \<in> set (map (colorLine theme) (colorConfig config))"
    using mem assms(3,4) by (force simp: colorLine_def Let_def)
  then have line: "str_includes (joinWith newline (map (colorLine theme) (colorConfig config)) @ rest) (''  --color-'' @ k @ '': '' @ c @ '';'')" for rest
    by (intro includes_left includes_join)
  have "str_includes (themeBlock i (colorConfig config) (theme, prefix)) (''  --color-'' @ k @ '': '' @ c @ '';'')"
    unfolding themeBlock_def fst_conv
    by (rule includes_right, rule includes_right, rule includes_right, rule includes_right, rule includes_right, rule includes_right, rule line)
  moreover have "themeBlock i (colorConfig config) (theme, prefix) \<in> set (map (themeBlock i (colorConfig config)) THEMES)"
    using assms(2) by auto
  ultimately show ?thesis using ne includes_join by (auto simp: chartStyle_def Let_def)
qed

text \<open>A series of the chart is drawn in the tooltip with its configured label whenever its payload does not name another key, and
  a value of 0 is drawn too.\<close>

theorem tooltip_row_labels:
  assumes "dictGet config key = Some it" "ci_label it = Some l" "l \<noteq> []" "key \<noteq> []"
    "ownString key item = None" "ownString key (jsField ''payload'' item) = None" "item = Obj d" "tp_formatter p = None"
    "jsField ''value'' item = Num (Fin 0)" "tp_nameKey p = key"
  shows "\<exists>row. tooltipItem config loc p nested item = TipRow row \<and> tip_name row = l \<and> tip_value row = numStr (Fin 0)"
proof -
  have "getPayloadConfigFromPayload config item (tooltipKey (tp_nameKey p) item) = Some it"
    using assms by (simp add: getPayloadConfigFromPayload_def tooltipKey_def configAt_def)
  then show ?thesis using assms by (simp add: tooltipItem_def Let_def itemLabel_def childText_def)
qed

text \<open>A range shows one day more than it is called: eight points for the last seven days and thirty-one for the last thirty,
  in every zone whose clock was not put forward in between.\<close>

theorem ranges_show_one_day_more:
  assumes "\<forall>n. 0 \<le> shift n \<and> shift n < msPerDay"
  shows "length (filteredData shift ''7d'') = 8 \<and> length (filteredData shift ''30d'') = 31 \<and>
    length (filteredData shift ''90d'') = length areaData"
proof -
  have "length areaData = 91" using arg_cong [OF chart_days, of length] by simp
  then show ?thesis using assms by (simp add: filteredData_count daysToSubtract_def)
qed

end
