(* ===== verification/Environment.thy ===== *)
theory Environment
  imports Workbench_Pages Auth_Routes Ws_Hooks Case_Repository
begin

text \<open>
  What the process is configured with and what it reports: \<open>lib/env.ts\<close> (the public environment), the connection
  pool of \<open>lib/db.ts\<close>, the tables of \<open>lib/auth.ts\<close> against \<open>types/db.ts\<close>, \<open>lib/auth-client.ts\<close>, the ticks of
  \<open>hooks/use-now.ts\<close>, and the telemetry of \<open>lib/analytics.ts\<close>, \<open>lib/sentry.ts\<close>, \<open>components/shared/posthog-pageview.tsx\<close>
  and the client configurations next to \<open>src\<close>. The check of addresses (zod) is a parameter, and so are the
  clients: what they are called with is the result.
\<close>

section \<open>lib/env.ts\<close>

text \<open>The variables the process was built with.\<close>

type_synonym process_env = "string \<Rightarrow> string option"

record public_env =
  pe_APP_URL :: "string option"
  pe_CP_URL :: string
  pe_CP_WS_URL :: string
  pe_WS_GATEWAY_URL :: string
  pe_POSTHOG_KEY :: "string option"
  pe_POSTHOG_HOST :: "string option"
  pe_SENTRY_DSN :: "string option"

text \<open>The fields of the schema in its order, each with the check it makes and the value that is checked: an absent value is
  left out or replaced by its default, any other one is checked, also the empty string.\<close>

datatype env_check = UrlCheck | NonEmptyCheck | AnyString

fun checked :: "(string \<Rightarrow> bool) \<Rightarrow> env_check \<Rightarrow> string option \<Rightarrow> bool" where
  "checked isUrl c None = True"
| "checked isUrl UrlCheck (Some s) = isUrl s"
| "checked isUrl NonEmptyCheck (Some s) = (s \<noteq> [])"
| "checked isUrl AnyString (Some s) = True"

definition clientEnvSchema :: "(string \<times> env_check) list" where
  "clientEnvSchema =
     [(''NEXT_PUBLIC_APP_URL'', UrlCheck), (''NEXT_PUBLIC_CP_URL'', UrlCheck), (''NEXT_PUBLIC_CP_WS_URL'', NonEmptyCheck),
      (''NEXT_PUBLIC_WS_GATEWAY_URL'', NonEmptyCheck), (''NEXT_PUBLIC_POSTHOG_KEY'', AnyString),
      (''NEXT_PUBLIC_POSTHOG_HOST'', UrlCheck), (''NEXT_PUBLIC_SENTRY_DSN'', UrlCheck)]"

text \<open>The object that is parsed: two of its fields fall back to older names.\<close>

definition envInput :: "process_env \<Rightarrow> string \<Rightarrow> string option" where
  "envInput env k =
     (if k = ''NEXT_PUBLIC_CP_URL'' then (case env k of Some v \<Rightarrow> Some v | None \<Rightarrow> env ''NEXT_PUBLIC_API_URL'')
      else if k = ''NEXT_PUBLIC_CP_WS_URL'' then (case env k of Some v \<Rightarrow> Some v | None \<Rightarrow> env ''NEXT_PUBLIC_WS_URL'')
      else env k)"

text \<open>\<open>parse\<close> throws the fields at fault (\<open>Inl\<close>).\<close>

definition parseEnv :: "(string \<Rightarrow> bool) \<Rightarrow> process_env \<Rightarrow> string list + public_env" where
  "parseEnv isUrl env =
     (let input = envInput env; faults = map fst (filter (\<lambda>(k, c). \<not> checked isUrl c (input k)) clientEnvSchema) in
      if faults \<noteq> [] then Inl faults
      else Inr
        \<lparr>pe_APP_URL = input ''NEXT_PUBLIC_APP_URL'',
         pe_CP_URL = orElse (input ''NEXT_PUBLIC_CP_URL'') ''http://localhost:8080'',
         pe_CP_WS_URL = orElse (input ''NEXT_PUBLIC_CP_WS_URL'') ''ws://localhost:8080'',
         pe_WS_GATEWAY_URL = orElse (input ''NEXT_PUBLIC_WS_GATEWAY_URL'') ''ws://localhost:4500'',
         pe_POSTHOG_KEY = input ''NEXT_PUBLIC_POSTHOG_KEY'',
         pe_POSTHOG_HOST = input ''NEXT_PUBLIC_POSTHOG_HOST'',
         pe_SENTRY_DSN = input ''NEXT_PUBLIC_SENTRY_DSN''\<rparr>)"

section \<open>lib/auth-client.ts\<close>

definition authClientBase :: "string option \<Rightarrow> string" where
  "authClientBase windowOrigin = orElse windowOrigin ''http://localhost:3000''"

section \<open>lib/db.ts\<close>

record pool_options =
  po_connectionString :: string
  po_max :: nat
  po_idleTimeoutMillis :: nat
  po_connectionTimeoutMillis :: nat
  po_statement_timeout :: nat

definition poolOptions :: "string option \<Rightarrow> string option \<Rightarrow> pool_options" where
  "poolOptions databaseUrl postgresUrl = \<lparr>po_connectionString = connectionString databaseUrl postgresUrl, po_max = 20,
     po_idleTimeoutMillis = 30000, po_connectionTimeoutMillis = 1500, po_statement_timeout = 5000\<rparr>"

text \<open>The pools made so far, in order, and the one kept at the global object; a module evaluation takes that one or makes one.\<close>

record db_module =
  dm_pools :: "pool_options list"
  dm_holder :: "nat option"

definition makeHolder :: "pool_options \<Rightarrow> db_module \<Rightarrow> db_module" where
  "makeHolder o' m = m\<lparr>dm_pools := dm_pools m @ [o'], dm_holder := Some (length (dm_pools m))\<rparr>"

definition evaluateDb :: "pool_options \<Rightarrow> db_module \<Rightarrow> db_module" where
  "evaluateDb o' m = (case dm_holder m of Some _ \<Rightarrow> m | None \<Rightarrow> makeHolder o' m)"

section \<open>lib/auth.ts and types/db.ts: the tables of the accounts\<close>

definition authTables :: "(string \<times> string list) list" where
  "authTables =
     [(''auth_users'', [''id'', ''name'', ''email'', ''email_verified'', ''image'', ''created_at'', ''updated_at'']),
      (''auth_sessions'', [''id'', ''user_id'', ''token'', ''expires_at'', ''ip_address'', ''user_agent'', ''created_at'', ''updated_at'']),
      (''auth_accounts'', [''id'', ''user_id'', ''account_id'', ''provider_id'', ''access_token'', ''refresh_token'',
        ''access_token_expires_at'', ''refresh_token_expires_at'', ''scope'', ''id_token'', ''password'', ''created_at'', ''updated_at'']),
      (''auth_verifications'', [''id'', ''identifier'', ''value'', ''expires_at'', ''created_at'', ''updated_at''])]"

text \<open>The models with their tables and the columns of the fields that are named differently.\<close>

definition authModels :: "(string \<times> string \<times> string dict) list" where
  "authModels =
     [(''user'', ''auth_users'', [(''emailVerified'', ''email_verified''), (''createdAt'', ''created_at''), (''updatedAt'', ''updated_at'')]),
      (''session'', ''auth_sessions'',
        [(''userId'', ''user_id''), (''expiresAt'', ''expires_at''), (''ipAddress'', ''ip_address''), (''userAgent'', ''user_agent''),
         (''createdAt'', ''created_at''), (''updatedAt'', ''updated_at'')]),
      (''account'', ''auth_accounts'',
        [(''userId'', ''user_id''), (''accountId'', ''account_id''), (''providerId'', ''provider_id''), (''accessToken'', ''access_token''),
         (''refreshToken'', ''refresh_token''), (''accessTokenExpiresAt'', ''access_token_expires_at''),
         (''refreshTokenExpiresAt'', ''refresh_token_expires_at''), (''idToken'', ''id_token''), (''createdAt'', ''created_at''),
         (''updatedAt'', ''updated_at'')]),
      (''verification'', ''auth_verifications'',
        [(''expiresAt'', ''expires_at''), (''createdAt'', ''created_at''), (''updatedAt'', ''updated_at'')])]"

text \<open>The name in the database of a name in the code: each capital is a low line and the small letter.\<close>

fun snakeCase :: "string \<Rightarrow> string" where
  "snakeCase [] = []"
| "snakeCase (c # cs) = (if c \<in> set ''ABCDEFGHIJKLMNOPQRSTUVWXYZ'' then CHR ''_'' # toLowerCase [c] else [c]) @ snakeCase cs"

definition trustedOrigins :: "auth_env \<Rightarrow> string list" where
  "trustedOrigins env = [authBaseURL env, ''https://attest.homaid.dev'', ''https://attest-wb.up.railway.app'']"

section \<open>hooks/use-now.ts\<close>

text \<open>A subscriber's timer, by number, and the snapshot it was last drawn with. A tick draws again when the snapshot is
  another one; on the server there is none.\<close>

record now_hook =
  nh_timer :: bool
  nh_shown :: "int option"
  nh_draws :: nat

datatype now_event = NowMount int | NowTick int | NowUnmount

definition serverNow :: now_hook where
  "serverNow = \<lparr>nh_timer = False, nh_shown = None, nh_draws = 0\<rparr>"

definition drawNow :: "int \<Rightarrow> int \<Rightarrow> now_hook \<Rightarrow> now_hook" where
  "drawNow intervalMs now h =
     (if nh_shown h = Some (nowSnapshot intervalMs now) then h
      else h\<lparr>nh_shown := Some (nowSnapshot intervalMs now), nh_draws := nh_draws h + 1\<rparr>)"

fun nowStep :: "int \<Rightarrow> now_event \<Rightarrow> now_hook \<Rightarrow> now_hook" where
  "nowStep intervalMs (NowMount now) h = drawNow intervalMs now (h\<lparr>nh_timer := True\<rparr>)"
| "nowStep intervalMs (NowTick now) h = (if nh_timer h then drawNow intervalMs now h else h)"
| "nowStep intervalMs NowUnmount h = h\<lparr>nh_timer := False\<rparr>"

section \<open>lib/analytics.ts, components/shared/posthog-pageview.tsx and instrumentation-client.ts\<close>

text \<open>The typed events; numbers and booleans among the properties are kept as JSON values.\<close>

datatype analytics_event =
    CaseOpened
  | VerdictOverridden
  | VerdictApproved
  | QueryRun
  | CommandPaletteUsed
  | UserSignedIn string
  | LoginFailed string
  | SimulationRun string string string jsnum bool
  | BatchSimulationRun string nat jsnum jsnum nat
  | HuntQueryRun
  | MarketingCtaClicked string
  | MarketingQuickstartCopied string
  | MarketingDemoStep string string

datatype posthog_call = Capture string "jsval dict" | Identify string "jsval dict"

text \<open>\<open>captured\<close> is the private helper of the file: nothing is sent on the server or without a key.\<close>

definition posthogOn :: "bool \<Rightarrow> string option \<Rightarrow> bool" where
  "posthogOn inBrowser key \<longleftrightarrow> inBrowser \<and> orElse key [] \<noteq> []"

definition captured :: "bool \<Rightarrow> string option \<Rightarrow> string \<Rightarrow> jsval dict \<Rightarrow> posthog_call list" where
  "captured inBrowser key event props = (if posthogOn inBrowser key then [Capture event props] else [])"

fun analytics :: "bool \<Rightarrow> string option \<Rightarrow> analytics_event \<Rightarrow> posthog_call list" where
  "analytics b key CaseOpened = captured b key ''case_opened'' []"
| "analytics b key VerdictOverridden = captured b key ''verdict_overridden'' []"
| "analytics b key VerdictApproved = captured b key ''verdict_approved'' []"
| "analytics b key QueryRun = captured b key ''query_run'' []"
| "analytics b key CommandPaletteUsed = captured b key ''command_palette_used'' []"
| "analytics b key (UserSignedIn userId) =
     (if posthogOn b key then Identify userId [(''role'', Str ''analyst'')] # captured b key ''user_signed_in'' [] else [])"
| "analytics b key (LoginFailed reason) = captured b key ''login_failed'' [(''reason'', Str reason)]"
| "analytics b key (SimulationRun scenario verdict path latency escalated) =
     captured b key ''simulation_run'' [(''scenario_id'', Str scenario), (''verdict'', Str verdict), (''execution_path'', Str path),
       (''latency_ms'', Num latency), (''escalated'', Bool escalated)]"
| "analytics b key (BatchSimulationRun scenario n p95 p99 errors) =
     captured b key ''batch_simulation_run'' [(''scenario_id'', Str scenario), (''n'', Num (Fin (of_nat n))), (''p95_ms'', Num p95),
       (''p99_ms'', Num p99), (''errors'', Num (Fin (of_nat errors)))]"
| "analytics b key HuntQueryRun = captured b key ''hunt_query_run'' []"
| "analytics b key (MarketingCtaClicked cta) = captured b key ''marketing_cta_clicked'' [(''cta'', Str cta)]"
| "analytics b key (MarketingQuickstartCopied st) = captured b key ''marketing_quickstart_copied'' [(''step'', Str st)]"
| "analytics b key (MarketingDemoStep demo st) = captured b key ''marketing_demo_step'' [(''demo'', Str demo), (''step'', Str st)]"

text \<open>The effect of the page view component, with the address of the page.\<close>

definition pageviewEffect :: "string option \<Rightarrow> string \<Rightarrow> string \<Rightarrow> string \<Rightarrow> posthog_call list" where
  "pageviewEffect key origin pathname search =
     (if orElse key [] = [] \<or> pathname = [] then []
      else [Capture ''$pageview'' [(''$current_url'', Str (origin @ pathname @ (if search \<noteq> [] then ''?'' @ search else [])))]])"

text \<open>What the client is told to delete from the properties of every event.\<close>

definition BLOCKED_KEYS :: "string list" where
  "BLOCKED_KEYS = [''email'', ''alert_body'', ''case_body'', ''reasoning'']"

definition sanitizeProperties :: "jsval dict \<Rightarrow> jsval dict" where
  "sanitizeProperties props = fold dictDel BLOCKED_KEYS props"

fun delivered :: "posthog_call \<Rightarrow> posthog_call" where
  "delivered (Capture event props) = Capture event (sanitizeProperties props)"
| "delivered (Identify i props) = Identify i props"

section \<open>lib/sentry.ts, sentry.client.config.ts, sentry.server.config.ts, sentry.edge.config.ts and instrumentation.ts\<close>

text \<open>The options of an \<open>init\<close> call; the rate in per cent.\<close>

record sentry_options =
  so_dsn :: "string option"
  so_enabled :: bool
  so_tracesPercent :: nat
  so_beforeSend :: "(sentry_event \<Rightarrow> sentry_event) option"

definition initSentry :: "string option \<Rightarrow> sentry_options option" where
  "initSentry dsn = (if orElse dsn [] = [] then None
     else Some \<lparr>so_dsn = dsn, so_enabled = True, so_tracesPercent = 10, so_beforeSend = Some beforeSend\<rparr>)"

definition sentryConfig :: "string option \<Rightarrow> sentry_options" where
  "sentryConfig dsn = \<lparr>so_dsn = dsn, so_enabled = (orElse dsn [] \<noteq> []), so_tracesPercent = 5, so_beforeSend = None\<rparr>"

datatype sentry_runtime = ServerConfig | EdgeConfig

definition registerSentry :: "string option \<Rightarrow> sentry_runtime list" where
  "registerSentry runtime =
     (if runtime = Some ''nodejs'' then [ServerConfig] else []) @ (if runtime = Some ''edge'' then [EdgeConfig] else [])"

text \<open>What a client with these options sends of an event: nothing when it is not enabled, and what \<open>beforeSend\<close> makes of it
  when there is one.\<close>

definition sentrySends :: "sentry_options \<Rightarrow> sentry_event \<Rightarrow> sentry_event list" where
  "sentrySends o' e = (if so_enabled o' then [case so_beforeSend o' of Some f \<Rightarrow> f e | None \<Rightarrow> e] else [])"

section \<open>Properties\<close>

text \<open>Reading the environment succeeds exactly when no variable that is set is at fault; then the two addresses of the streams
  are never empty.\<close>

theorem env_parses:
  "(\<exists>e. parseEnv isUrl env = Inr e) \<longleftrightarrow> (\<forall>(k, c) \<in> set clientEnvSchema. checked isUrl c (envInput env k))"
  by (auto simp: parseEnv_def Let_def filter_empty_conv)

theorem env_stream_urls:
  assumes "parseEnv isUrl env = Inr e"
  shows "pe_CP_WS_URL e \<noteq> []" "pe_WS_GATEWAY_URL e \<noteq> []"
proof -
  have "\<forall>(k, c) \<in> set clientEnvSchema. checked isUrl c (envInput env k)" using env_parses [of isUrl env] assms by blast
  then have "checked isUrl NonEmptyCheck (envInput env ''NEXT_PUBLIC_CP_WS_URL'')"
    "checked isUrl NonEmptyCheck (envInput env ''NEXT_PUBLIC_WS_GATEWAY_URL'')" by (simp_all add: clientEnvSchema_def)
  moreover have "pe_CP_WS_URL e = orElse (envInput env ''NEXT_PUBLIC_CP_WS_URL'') ''ws://localhost:8080''"
    "pe_WS_GATEWAY_URL e = orElse (envInput env ''NEXT_PUBLIC_WS_GATEWAY_URL'') ''ws://localhost:4500''"
    using assms by (auto simp: parseEnv_def Let_def split: if_splits)
  ultimately show "pe_CP_WS_URL e \<noteq> []" "pe_WS_GATEWAY_URL e \<noteq> []" by (auto simp: orElse_def split: option.splits)
qed

text \<open>A variable that is set to nothing is not an absent one: with an empty \<open>NEXT_PUBLIC_SENTRY_DSN\<close> both stream modules fail
  to load, although every other reader of that variable takes it for absent.\<close>

theorem empty_dsn_breaks_streams:
  assumes "\<not> isUrl []" "env ''NEXT_PUBLIC_SENTRY_DSN'' = Some []"
  shows "\<exists>faults. parseEnv isUrl env = Inl faults \<and> ''NEXT_PUBLIC_SENTRY_DSN'' \<in> set faults \<and>
    initSentry (env ''NEXT_PUBLIC_SENTRY_DSN'') = None \<and> \<not> so_enabled (sentryConfig (env ''NEXT_PUBLIC_SENTRY_DSN''))"
proof -
  have "(''NEXT_PUBLIC_SENTRY_DSN'', UrlCheck) \<in> set (filter (\<lambda>(k, c). \<not> checked isUrl c (envInput env k)) clientEnvSchema)"
    using assms by (simp add: clientEnvSchema_def envInput_def)
  then have m: "''NEXT_PUBLIC_SENTRY_DSN'' \<in> set (map fst (filter (\<lambda>(k, c). \<not> checked isUrl c (envInput env k)) clientEnvSchema))"
    by force
  then have "parseEnv isUrl env = Inl (map fst (filter (\<lambda>(k, c). \<not> checked isUrl c (envInput env k)) clientEnvSchema))"
    by (simp only: parseEnv_def Let_def) (metis empty_iff list.set(1))
  then show ?thesis using m assms(2) by (simp add: initSentry_def sentryConfig_def)
qed

text \<open>However often the module is evaluated, there is one pool, with the options of the first evaluation.\<close>

lemma evaluate_again: "dm_holder m \<noteq> None \<Longrightarrow> fold evaluateDb os m = m"
  by (induction os) (auto simp: evaluateDb_def)

theorem one_pool:
  assumes "os \<noteq> []"
  shows "fold evaluateDb os \<lparr>dm_pools = [], dm_holder = None\<rparr> = \<lparr>dm_pools = [hd os], dm_holder = Some 0\<rparr>"
proof (cases os)
  case (Cons o' rest)
  have "evaluateDb o' \<lparr>dm_pools = [], dm_holder = None\<rparr> = \<lparr>dm_pools = [o'], dm_holder = Some 0\<rparr>"
    by (simp add: evaluateDb_def makeHolder_def)
  then show ?thesis using Cons by (simp add: evaluate_again)
qed (use assms in simp)

text \<open>Every field of the account models is stored in a column that its table has, no two in the same one, and under the name
  that the convention gives it.\<close>

theorem auth_fields_are_columns:
  "\<forall>(model, table, fields) \<in> set authModels.
     set (map snd fields) \<subseteq> set (the (dictGet authTables table)) \<and> table \<in> set (map fst authTables) \<and> distinct (map snd fields) \<and>
     list_all (\<lambda>(f, c). c = snakeCase f) fields"
  by code_simp

text \<open>The clock is drawn with a time that is at most an interval behind, never on the server, and a tick within the same
  interval draws nothing; after the page is left no tick draws.\<close>

theorem now_is_recent:
  assumes "0 < intervalMs" "nh_timer h"
  shows "\<exists>s. nh_shown (nowStep intervalMs (NowTick now) h) = Some s \<and> s \<le> now \<and> now < s + intervalMs"
  using nowSnapshot_bounds [OF assms(1), of now] assms(2) by (auto simp: drawNow_def)

theorem now_stable:
  assumes "nowSnapshot intervalMs now = nowSnapshot intervalMs later"
  shows "nowStep intervalMs (NowTick later) (nowStep intervalMs (NowTick now) h) = nowStep intervalMs (NowTick now) h"
    "nowStep intervalMs (NowTick later) (nowStep intervalMs NowUnmount h) = nowStep intervalMs NowUnmount h"
  using assms by (auto simp: drawNow_def)

text \<open>No event of the product carries one of the blocked properties, so the client's filter removes nothing from them.\<close>

theorem analytics_unfiltered: "map delivered (analytics b key e) = analytics b key e"
proof -
  have "sanitizeProperties props = props" if "\<forall>k \<in> fst ` set props. k \<notin> set BLOCKED_KEYS" for props :: "jsval dict"
    using that by (auto simp: sanitizeProperties_def BLOCKED_KEYS_def dictDel_def filter_id_conv)
  then show ?thesis by (cases e) (auto simp: captured_def BLOCKED_KEYS_def)
qed

text \<open>The scrubbing is never in effect. The clients of browser, server and edge are started with the options of their
  configuration files, which have no \<open>beforeSend\<close>: what they send of an event is the event, breadcrumbs about alerts
  and customers included; \<open>initSentry\<close>, which would scrub it, has no caller.\<close>

theorem reports_not_scrubbed:
  assumes "dsn = Some d" "d \<noteq> []"
  shows "sentrySends (sentryConfig dsn) e = [e]" "map_option (\<lambda>o'. sentrySends o' e) (initSentry dsn) = Some [beforeSend e]"
  using assms by (simp_all add: sentrySends_def sentryConfig_def initSentry_def)

end
