(* ===== verification/Repo_Tests.thy ===== *)
theory Repo_Tests
  imports Case_Store Alert_Mappers Waitlist
begin

text \<open>
  The unit tests of the repository, evaluated on the model: \<open>lib/stores/case-store.test.ts\<close>,
  \<open>lib/alert-mappers.test.ts\<close> and the mail test of \<open>lib/waitlist.test.ts\<close>. What the tests expect of the
  program holds of the definitions.
\<close>

section \<open>lib/stores/case-store.test.ts\<close>

definition bareEvent :: "string \<Rightarrow> ocsf_event" where
  "bareEvent i = \<lparr>ev_event_id = i, ev_class_uid = None, ev_time = None, ev_tenant_id = None, ev_actor_user_name = None,
     ev_actor_user_uid = None, ev_cloud_region = None, ev_cloud_account_uid = None, ev_severity = None, ev_auth_status = None,
     ev_api_operation = None, ev_api_service = None\<rparr>"

definition testEvent :: "string \<Rightarrow> ocsf_event" where
  "testEvent i = (bareEvent i)\<lparr>ev_severity := Some ''high''\<rparr>"

definition testVerdict :: "string \<Rightarrow> triage_verdict" where
  "testVerdict caseId = \<lparr>tv_action_id = ''a1'', tv_case_id = caseId, tv_verdict = ''benign'', tv_execution_path = ''classifier'',
     tv_calibrated_confidence = 97 / 100, tv_novelty_score = 1 / 10, tv_escalated = False, tv_escalation_reason = None,
     tv_latency_ms = 3, tv_classifier_evidence = None\<rparr>"

definition testStep :: "string \<Rightarrow> int \<Rightarrow> kafka_step" where
  "testStep kind ts = \<lparr>ks_case_id = ''c1'', ks_tenant_id = ''t1'', ks_agent_action_id = ''a1'', ks_agent_id = ''triager'',
     ks_execution_path = ''classifier'', ks_step_kind = kind, ks_summary = kind, ks_ts = ts\<rparr>"

definition testNow :: int where
  "testNow = 1767225600000"

lemma test_reinit_keeps:
  "case dictGet (fold caseStep [InitCase ''c1'' (testEvent ''c1'') None testNow, SetVerdict ''c1'' (testVerdict ''c1'') testNow,
       AppendTraceStep ''c1'' (testStep ''envelope'' 1) testNow, SetOverride ''c1'' ''false_positive'' testNow,
       InitCase ''c1'' ((testEvent ''c1'')\<lparr>ev_severity := Some ''low''\<rparr>) (Some (Some [''us-east-1''])) testNow] []) ''c1'' of
     None \<Rightarrow> False
   | Some e \<Rightarrow> ev_severity (ce_event e) = Some ''low'' \<and> ce_baseline e = Some (Some [''us-east-1'']) \<and>
       map_option tv_verdict (ce_verdict e) = Some ''benign'' \<and> ce_triageStatus e = TComplete \<and> length (ce_traceSteps e) = 1 \<and>
       ce_disposition e = DOverride \<and> ce_overrideLabel e = Some ''false_positive''"
  by code_simp

definition lifecycle :: "case_op list" where
  "lifecycle = [InitCase ''c1'' (testEvent ''c1'') None testNow, StartTriage ''c1'' testNow testNow,
     FailTriage ''c1'' ''HTTP 502'' testNow, StartTriage ''c1'' testNow testNow, SetVerdict ''c1'' (testVerdict ''c1'') testNow]"

lemma test_lifecycle:
  "map (\<lambda>n. map_option (\<lambda>e. (ce_triageStatus e, ce_triageStartedAt e, ce_triageError e))
       (dictGet (fold caseStep (take n lifecycle) []) ''c1'')) [2, 3, 4, 5] =
     [Some (TRunning, Some testNow, None), Some (TFailed, Some testNow, Some ''HTTP 502''), Some (TRunning, Some testNow, None),
      Some (TComplete, Some testNow, None)]"
  by code_simp

lemma test_steps_deduplicated:
  "let s = fold caseStep [InitCase ''c1'' (testEvent ''c1'') None testNow, AppendTraceStep ''c1'' (testStep ''classifier_complete'' 1) testNow,
       AppendTraceStep ''c1'' (testStep ''envelope'' 2) testNow, AppendTraceStep ''c1'' (testStep ''envelope'' 2) testNow] []
   in map ks_step_kind (selectTraceSteps ''c1'' s) = [''envelope'', ''classifier_complete''] \<and>
      selectTraceSteps ''c1'' (clearTraceSteps ''c1'' testNow s) = []"
  by code_simp

lemma test_unknown_case:
  "fold caseStep [SetOverride ''missing'' ''false_positive'' testNow, SetVerdict ''missing'' (testVerdict ''missing'') testNow,
     AppendTraceStep ''missing'' (testStep ''envelope'' 1) testNow] [] = []"
  by code_simp

text \<open>Cases that are opened one a second: while there is room each is kept as it was opened.\<close>

definition caseName :: "nat \<Rightarrow> string" where
  "caseName i = CHR ''c'' # natStr i"

definition openCases :: "nat \<Rightarrow> case_store" where
  "openCases n = fold (\<lambda>i. initCase (caseName i) (testEvent (caseName i)) None (testNow + 1000 * int i)) [0..<n] []"

definition openedEntry :: "nat \<Rightarrow> case_entry" where
  "openedEntry i = initEntry None (testEvent (caseName i)) None (testNow + 1000 * int i)"

lemma caseName_inject [simp]: "caseName i = caseName j \<longleftrightarrow> i = j"
  by (simp add: caseName_def)

lemma caseName_proper: "caseName i \<notin> set objectPrototype"
proof -
  have "\<forall>k \<in> set objectPrototype. \<exists>c \<in> set (drop 1 k). \<not> is_digit c" by code_simp
  then show ?thesis using natStr_digits [of _ i] by (fastforce simp: caseName_def)
qed

lemma openCases_map: "n \<le> MAX_CASES \<Longrightarrow> openCases n = map (\<lambda>i. (caseName i, openedEntry i)) [0..<n]"
proof (induction n)
  case (Suc n)
  let ?s = "map (\<lambda>i. (caseName i, openedEntry i)) [0..<n]"
  have s: "openCases n = ?s" using Suc by simp
  have free: "caseName n \<notin> set (dictKeys ?s)" by (auto simp: dictKeys_def)
  have "evictIfNeeded ?s (caseName n) = ?s" using Suc.prems by (intro evictIfNeeded_room) simp
  moreover have "dictGet ?s (caseName n) = None" using free by (simp add: dictKeys_get)
  moreover have "dictPut (caseName n) e ?s = ?s @ [(caseName n, e)]" for e
    using free by (rule dictPut_fresh)
  ultimately have "initCase (caseName n) (testEvent (caseName n)) None (testNow + 1000 * int n) ?s = ?s @ [(caseName n, openedEntry n)]"
    by (simp add: initCase_def openedEntry_def)
  then show ?case by (simp add: openCases_def fold_append s [unfolded openCases_def])
qed (simp add: openCases_def)

lemma openCases_get: "dictGet (openCases 50) k = Some e \<longleftrightarrow> (\<exists>i < 50. k = caseName i \<and> e = openedEntry i)"
proof -
  have m: "openCases 50 = map (\<lambda>i. (caseName i, openedEntry i)) [0..<50]" by (rule openCases_map) (simp add: MAX_CASES_def)
  have "wf_dict (openCases 50)" by (simp add: m wf_dict_def dictKeys_def comp_def distinct_map inj_on_def)
  from dictGet_in_set [OF this] show ?thesis by (auto simp: m)
qed

lemma openCases_wf: "wf_dict (openCases 50)" "length (openCases 50) = MAX_CASES"
  using openCases_map [of 50] by (simp_all add: MAX_CASES_def wf_dict_def dictKeys_def comp_def distinct_map inj_on_def)

lemma test_evicts_oldest:
  fixes s ids
  defines "s \<equiv> setApproved (caseName 0) (testNow + 60000) (openCases 50)"
  defines "ids \<equiv> dictKeys (initCase ''new'' (testEvent ''new'') None (testNow + 60000) s)"
  shows "length ids = 50 \<and> ''new'' \<in> set ids \<and> caseName 0 \<in> set ids \<and> caseName 1 \<notin> set ids"
proof -
  have get: "dictGet s k = Some e \<longleftrightarrow> (\<exists>i < 50. k = caseName i \<and>
      e = (if i = 0 then (openedEntry 0)\<lparr>ce_disposition := DApproved, ce_updatedAt := testNow + 60000\<rparr> else openedEntry i))" for k e
    using openCases_get [of k] openCases_get [of "caseName 0"]
    by (auto simp: s_def setApproved_def updateEntry_get)
  have wf: "wf_dict s" "length s = MAX_CASES"
    using openCases_wf by (simp_all add: s_def setApproved_def wf_dict_def updateEntry_keys updateEntry_length)
  have "dictGet s ''new'' = None" using get [of "''new''"] by (cases "dictGet s ''new''") (auto simp: caseName_def)
  moreover have "''new'' \<notin> set objectPrototype" by code_simp
  ultimately obtain k e where k: "dictGet s k = Some e" and old: "\<forall>j f. dictGet s j = Some f \<longrightarrow> ce_updatedAt e \<le> ce_updatedAt f"
    and len: "length (initCase ''new'' (testEvent ''new'') None (testNow + 60000) s) = MAX_CASES"
    and new: "dictGet (initCase ''new'' (testEvent ''new'') None (testNow + 60000) s) =
      (dictGet s)(k := None, ''new'' \<mapsto> initEntry None (testEvent ''new'') None (testNow + 60000))"
    using initCase_evicts_oldest [OF wf, of "''new''" "testEvent ''new''" None "testNow + 60000"] by blast
  have t: "ce_updatedAt (openedEntry i) = testNow + 1000 * int i" for i by (simp add: openedEntry_def initEntry_def)
  have "dictGet s (caseName 1) = Some (openedEntry 1)" using get [of "caseName 1" "openedEntry 1"] by simp
  with old t [of 1] have le: "ce_updatedAt e \<le> testNow + 1000" by fastforce
  from k get [of k e] obtain i where i: "k = caseName i" "e = (if i = 0 then
      (openedEntry 0)\<lparr>ce_disposition := DApproved, ce_updatedAt := testNow + 60000\<rparr> else openedEntry i)" by blast
  with le t [of i] have "i \<noteq> 0" "i \<le> 1" by (auto split: if_splits)
  with i(1) have kn: "k = caseName 1" by simp
  have "dictGet s (caseName 0) \<noteq> None" using get [of "caseName 0"] by auto
  moreover have "caseName i \<noteq> ''new''" for i by (simp add: caseName_def)
  ultimately show ?thesis
    using len kn by (simp add: ids_def dictKeys_get new MAX_CASES_def)
qed

lemma test_reopen_evicts_nothing:
  "length (dictKeys (initCase (caseName 25) (testEvent (caseName 25)) None (testNow + 49000) (openCases 50))) = 50 \<and>
   dictGet (initCase (caseName 25) (testEvent (caseName 25)) None (testNow + 49000) (openCases 50)) (caseName 0) \<noteq> None"
proof -
  have known: "caseName i \<in> set (dictKeys (openCases 50))" if "i < 50" for i
    using openCases_get [of "caseName i" "openedEntry i"] that by (auto simp: dictKeys_get)
  have "evictIfNeeded (openCases 50) (caseName 25) = openCases 50"
    by (rule evictIfNeeded_room) (simp add: inObject_def known)
  moreover have "length (dictKeys (openCases 50)) = 50" using openCases_wf(2) by (simp add: MAX_CASES_def length_dictKeys)
  ultimately show ?thesis using known [of 25] known [of 0]
    by (simp add: initCase_def Let_def dictKeys_put dictGet_put dictKeys_get)
qed

section \<open>lib/alert-mappers.test.ts\<close>

definition testRow :: fired_detection where
  "testRow = \<lparr>fd_detection_id = ''aws_console_login_from_anomalous_geolocation'', fd_event_id = ''e-123'',
     fd_actor_user_name = ''alice@corp.com'', fd_cloud_region = ''ap-southeast-1'', fd_severity = ''HIGH'',
     fd_fired_at = ''2026-04-27 05:36:45.785834+00:00''\<rparr>"

lemma test_known_detection:
  "let a = firedDetectionToAlert testRow in
   al_id a = ''e-123'' \<and> al_caseId a = ''e-123'' \<and> al_title a = ''Console Login from Anomalous Region'' \<and>
   al_technique a = ''T1078.004'' \<and> al_severity a = High \<and> al_entity a = ''alice@corp.com'' \<and> al_region a = ''ap-southeast-1'' \<and>
   al_state a = AwaitingReview"
  by code_simp

lemma test_unknown_detection:
  "let a = firedDetectionToAlert (testRow\<lparr>fd_detection_id := ''custom_rule_x'', fd_severity := ''urgent'', fd_actor_user_name := [],
       fd_cloud_region := []\<rparr>) in
   al_title a = ''Custom Rule X'' \<and> al_technique a = [] \<and> al_severity a = Medium \<and> al_entity a = ''unknown'' \<and> al_region a = ''unknown''"
  by code_simp

definition testRowJson :: jsval where
  "testRowJson = Obj [(''detection_id'', Str (fd_detection_id testRow)), (''event_id'', Str (fd_event_id testRow)),
     (''actor_user_name'', Str (fd_actor_user_name testRow)), (''cloud_region'', Str (fd_cloud_region testRow)),
     (''severity'', Str (fd_severity testRow)), (''fired_at'', Str (fd_fired_at testRow))]"

lemma test_parse_detections:
  "parseFiredDetections (Obj [(''error'', Str ''boom'')]) = Some [] \<and> map_option length (parseFiredDetections (Arr [testRowJson])) = Some 1"
  by code_simp

lemma test_login_titles:
  "let login = (bareEvent ''abcdef1234'')\<lparr>ev_class_uid := Some ''3002''\<rparr>;
       ok = ocsfEventToAlert id (login\<lparr>ev_auth_status := Some ''Success'', ev_cloud_region := Some ''us-east-1''\<rparr>) 0
   in al_title ok = ''successful console login (us-east-1)'' \<and> al_technique ok = ''T1078.004'' \<and>
      al_title (ocsfEventToAlert id login 0) = ''failed console login''"
  by code_simp

lemma test_api_titles:
  "al_title (ocsfEventToAlert id ((bareEvent ''e1'')\<lparr>ev_api_operation := Some ''PutBucketPolicy'', ev_api_service := Some ''s3''\<rparr>) 0) =
     ''PutBucketPolicy via s3'' \<and>
   al_title (ocsfEventToAlert id (bareEvent ''abcdef1234'') 0) = ''OCSF event abcdef12''"
  by code_simp

lemma test_event_defaults:
  "let a = ocsfEventToAlert id ((bareEvent ''e1'')\<lparr>ev_severity := Some ''bogus'', ev_actor_user_uid := Some ''u-1'',
       ev_actor_user_name := Some ''bob''\<rparr>) 4
   in al_severity a = Low \<and> al_entity a = ''bob'' \<and> al_updatedAt a = ''event 5''"
  by code_simp

lemma test_parse_events:
  "map_option length (parseEventsResponse id (Arr [Obj [(''event_id'', Str ''a'')], Obj [(''event_id'', Str ''b'')]])) = Some 2 \<and>
   map_option length (parseEventsResponse id (Obj [(''event_id'', Str ''a'')])) = Some 1 \<and>
   parseEventsResponse id (Obj [(''nope'', Bool True)]) = Some [] \<and> parseEventsResponse id Null = Some []"
  by code_simp

section \<open>lib/waitlist.test.ts\<close>

definition testVisitor :: waitlist_input where
  "testVisitor = \<lparr>wi_name = ''Ada Lovelace'', wi_email = ''ada@example.com'', wi_company = Some ''Analytical Engines'',
     wi_role = SecurityEngineer, wi_message = ''I want to try the signed triage loop on our CloudTrail.'', wi_website = Some []\<rparr>"

lemma test_notify_mail:
  "let (subject, body) = formatWaitlistEmail testVisitor ''203.0.113.4'' in
   str_includes subject ''Ada Lovelace'' \<and> str_includes body ''ada@example.com'' \<and> str_includes body ''203.0.113.4''"
  by code_simp

end
