(* ===== verification/Spec2Isabelle.thy ===== *)
theory Spec2Isabelle
  imports Local_Stores Alert_Mappers Enrich_Alert Trace_Route Triage_Route Waitlist Demo_Run
    Simulate_Route Proxy_Routes Auth_Routes Ws_Hooks Triage_Hook Case_Page Alert_Queue Trace_Views Lab_Pages Workbench_Pages
    Case_Site Triage_Loop Trace_Flow Lab_Views Ui_State Public_Site Trace_Tables Queue_Table Case_View
    Dashboard Environment Repo_Tests
begin

text \<open>
  Verification of the attest workbench, the TypeScript application under \<open>src/apps/workbench\<close> of the attest
  repository. All paths below are relative to \<open>src/apps/workbench/src\<close>.

  \<^bold>\<open>The program.\<close> Attest is a security operations platform. Its services (control plane, orchestrator,
  gateway: Rust, not modelled) collect events, fire detections and investigate cases. The workbench is a Next.js
  application between analysts and those services. Its server side keeps cases, verdicts and trace steps in
  Postgres, runs triage through the orchestrator and relays the other services; its browser side keeps a case
  store, opens two streams (alerts, trace steps), asks for triage when a case is opened and renders queue,
  case and laboratory pages. The parts meet in three places: the database (case page, triage and trace routes,
  queue), the browser's case store (trace stream, triage hook, case views) and the HTTP answers of the
  services, which are inputs of the model.

  \<^bold>\<open>Theories and sources.\<close>
  \<^item> \<open>Js_Prelude\<close>, \<open>Js_Value\<close>, \<open>Js_Date\<close>: what the source uses of the language. Ordered objects as
    association lists (\<open>dict\<close>), JSON values (\<open>jsval\<close>) with truthiness, string and number conversion,
    \<open>toFixed\<close>, \<open>Math.round\<close>, slices, ISO dates; the locales \<open>preserved\<close> (an invariant of a step function)
    and \<open>bounded_log\<close> that the components interpret. \<open>Workbench_Types\<close>: the types of \<open>lib/mock-data.ts\<close>
    and the shared shapes.
  \<^item> \<open>Case_Store\<close> (\<open>lib/stores/case-store.ts\<close>, \<open>case-state-store.ts\<close>) and \<open>Local_Stores\<close> (the load,
    simulate and palette stores): every action as a function on the store; sequences of actions as folds.
  \<^item> \<open>Alert_Mappers\<close> (\<open>lib/ocsf-to-alert.ts\<close>, \<open>lib/detection-to-alert.ts\<close>).
  \<^item> \<open>Case_Repository\<close> (\<open>lib/server/case-repository.ts\<close>): the two tables with their constraints, the schema
    promise, each statement with the faults of the database as arguments; the locale \<open>case_table\<close> is the
    contract that the triage route relies on. \<open>Enrich_Alert\<close> (\<open>lib/server/enrich-alert.ts\<close>).
  \<^item> \<open>Trace_Route\<close>, \<open>Triage_Features\<close>, \<open>Triage_Route\<close> (\<open>app/api/cases/[caseId]\<close>): the trace handlers, the
    feature enrichment, and triage as turns. A request's state between two awaits is a program counter;
    requests interleave arbitrarily over the process's two maps and the database.
  \<^item> \<open>Rate_Limit\<close>, \<open>Waitlist\<close>, \<open>Scenarios\<close>, \<open>Demo_Run\<close>, \<open>Simulate_Route\<close>, \<open>Proxy_Routes\<close>,
    \<open>Auth_Routes\<close>: the remaining routes with \<open>lib/waitlist.ts\<close>, \<open>lib/scenarios.ts\<close>, \<open>lib/auth.ts\<close> and
    \<open>proxy.ts\<close>, as functions of body, session and upstream answers.
  \<^item> \<open>Ws_Hooks\<close> (\<open>hooks/use-alerts-ws.ts\<close>, \<open>hooks/use-case-trace-ws.ts\<close>, \<open>hooks/use-now.ts\<close>) and
    \<open>Triage_Hook\<close> (\<open>hooks/use-triage.ts\<close>): sockets, timers, effects and their clean-ups as steps on browser
    events; sockets, timers and mounts are numbered in creation order. The locale \<open>backoff\<close> carries the delays
    of all three streams.
  \<^item> \<open>Case_Page\<close> (the case page, its fallback and client), \<open>Alert_Queue\<close> (queue and cases pages, the queue
    component), \<open>Trace_Views\<close> (case workbench, reasoning viewer, stepper, attestation panel), \<open>Trace_Tables\<close> (the
    panel's columns, filters and table, the evidence rows), \<open>Lab_Pages\<close> and \<open>Lab_Views\<close> (the state of the simulate and
    load pages; what they show and their controls), \<open>Workbench_Pages\<close> (sign-in, waitlist form, hunt, detections, admin
    and agents pages, palette, sidebar, public demo, error reports): what the components compute and the state they
    keep, without the markup. \<open>Ui_State\<close>: the stepper and the sidebar of the interface library.
  \<^item> \<open>Table_Engine\<close> (the table library as a record of functions, with the documented behaviour as the predicate
    \<open>documented\<close>), \<open>Queue_Table\<close> (the table, tabs and live header of \<open>components/workbench/alert-queue.tsx\<close>), \<open>Case_View\<close> (the
    page, the override dialog and the requests of \<open>case-workbench.tsx\<close>, both pipelines of
    \<open>investigator-trace-stepper.tsx\<close>, chips and timeline of \<open>reasoning-trace-viewer.tsx\<close>) and \<open>Dashboard\<close>
    (\<open>components/ui/chart.tsx\<close>, \<open>components/chart-area-interactive.tsx\<close>, \<open>components/data-table.tsx\<close>): components as state
    records, handlers as steps, and what is shown as a function of the state.
  \<^item> \<open>Environment\<close>: the public environment (\<open>lib/env.ts\<close>), the connection pool (\<open>lib/db.ts\<close>), the account tables
    (\<open>lib/auth.ts\<close>, \<open>types/db.ts\<close>), the shared clock's ticks and the telemetry with the options its clients start with.
  \<^item> \<open>Stack_Data\<close>, \<open>Public_Site\<close>: the tables of the public site, the text for language models made from them, the
    deployment boxes and the carousels, whose shared contract is the locale \<open>carousel\<close>.
  \<^item> \<open>Case_Site\<close>: everything the server process does to a case, as one step relation (triage turns, page visits, trace
    requests, the queue and its restarts), with the locale \<open>table_invariant\<close> for what all of it keeps. \<open>Triage_Loop\<close>: a
    page with its triage hook and that process joined, each message on its own way. \<open>Trace_Flow\<close>: a trace step from the browser through the routes and the database back into a timeline.
  \<^item> \<open>Repo_Tests\<close>: the repository's own unit tests, evaluated on the definitions.

  \<^bold>\<open>What is shown.\<close>
  \<^item> Browser and server together: every verdict a page shows was given by the orchestrator for that very case, however
    messages, reloads and restarts interleave; and an opened case does end with its verdict.
  \<^item> Triage: a request left alone completes and its verdict reaches every view; a failing orchestrator leaves a
    case that can be retried; under any interleaving no request is stuck, every request takes a bounded number
    of turns, and a registered run is joined. The browser never asks twice within the running time-to-live. Once a
    case is complete and nobody works on it, its verdict is final under everything the process serves, restarts
    included.
  \<^item> Invariants under any sequence of operations and faults: the tables, the case store, the load store, both
    kinds of stream.
  \<^item> Equivalences and refinements: the batched queue enrichment is the per-alert look-up; the pruned rate limiter
    decides like the full log; the ring buffers are the newest entries; tabs and groups partition the queue.
  \<^item> Round trips: the live trace survives a reload, each line once; a case outlives its hot event; citations lose no
    text.
  \<^item> Safety of what leaves the process: secrets, authenticated overrides and tokens, the SQL and the addresses
    sent upstream, the number of mails; signing out locks the workbench.
  \<^item> What is shown is what happened: a simulation's end is reported by its last answer, the pipeline is drawn as
    progress, the pages of a table hold every match exactly once, bars are to scale; a page sends one override at most.
  \<^item> Where the code does not do what it means to, theorems that show it: concurrent requests that investigate
    twice and lose the verdict to a late failure, a baseline erased by triage, streams that reconnect after clean-up,
    rows that spin for ever, a loading state that never ends, error reports that are never scrubbed; further ones are theorems of their theories.

  \<^bold>\<open>Bounds.\<close> Every function is structurally recursive or has a termination proof. The only fuel is that of
  \<open>decimalPlaces\<close>, twenty decimal places when a number is printed, more than a double that is not printed with an
  exponent has. JavaScript
  numbers are \<open>rat\<close> with the non-finite values as constructors where they can arise, so rounding of doubles is not
  modelled; times are \<open>int\<close> milliseconds. Strings are character lists.

  \<^bold>\<open>Not modelled.\<close> The Rust services; React, the table engine, zustand's persistence, better-auth and the
  Postgres driver, of which only the calls and their answers appear; class names, the drawing of charts and styling; the
  static sections of the public site, and the sidebar and cards of the template's sample dashboard.
\<close>

section \<open>Facts\<close>

lemma repoOk_triaged:
  assumes "repoOk r" and "upsertCaseSnapshot c tn ev b dt t1 fs fq r = (x, r1)"
    and "markTriageRunning c t2 fs' fq' r1 = (y, r2)" and "markTriageComplete c d t3 fs'' fq'' r2 = (z, r3)"
  shows "repoOk r3"
  using repo_machine.run_inv [of "[UpsertCase c tn ev b dt t1 fs fq, MarkRunning c t2 fs' fq', MarkComplete c d t3 fs'' fq'']" r] assms
  by simp

text \<open>What each view makes of a complete row.\<close>

lemma triageGET_complete:
  assumes "rp_schema r = SchemaReady" "dictGet (rp_cases r) c = Some row" "cr_triage_status row = TComplete" "cr_error row = None"
  shows "triageGET c fs None r = (Some (respond 200 (Obj [(''status'', Str ''complete''), (''verdict'', cr_verdict row),
    (''error'', Null), (''triage_started_at'', timeVal (cr_triage_started_at row)),
    (''triage_completed_at'', timeVal (cr_triage_completed_at row))])), r)"
  using assms by (simp add: triageGET_def ready_statements(1) str_null_def)

lemma overlay_complete:
  assumes "truthy (cr_event row)" "cr_triage_status row = TComplete" "jsField ''verdict'' (cr_verdict row) = Str w"
  shows "al_verdict (overlay a (Some row)) = normalizeVerdict w" "ag_status (al_agentStatus (overlay a (Some row))) = AgComplete"
proof -
  have "nullish (cr_verdict row) Null = cr_verdict row" using assms(3) by (cases "cr_verdict row") simp_all
  with assms show "al_verdict (overlay a (Some row)) = normalizeVerdict w" "ag_status (al_agentStatus (overlay a (Some row))) = AgComplete"
    by (simp_all add: overlay_def mergePersistedCase_def Let_def)
qed

lemma casePage_stored:
  assumes "rp_schema r = SchemaReady" "dictGet (rp_cases r) c = Some row" "fetchEvent f = Some Null" "truthy (cr_event row)"
  shows "casePage c f None None fBase now fw r = (Some (Investigate (cr_event row) (cr_baseline row)), r)"
  using assms by (simp add: casePage_def getCase_ready Let_def)

section \<open>Properties that span components\<close>

text \<open>C7: a verdict reaches every view that reads the database: after a triage POST has been answered with \<open>d\<close>, the
  triage GET reports it as complete, the queue shows the case's alert as settled with the verdict's word,
  and the case page, its live event gone, opens on the enriched alert.\<close>

theorem verdict_reaches_views:
  assumes ok: "repoOk (tq_repo s)" and ready: "rp_schema (tq_repo s) = SchemaReady"
    and body: "jsFieldE ''alert'' body = Some al" "truthy al"
    and fresh: "persistedVerdict (dictGet (rp_cases (tq_repo s)) c) = None" "cachedVerdict (tq_cache s) c = None"
      "dictGet (tq_inflight s) c = None"
    and upstream: "okStatus st" "truthy d"
    and s': "s' = fold serve (startEvents (length (tq_reqs s)) c (Some body) fb t1 t2 @
      [Turn (length (tq_reqs s)) (Fetched (Answer st (Some d) txt)), Turn (length (tq_reqs s)) (DbWrite t3 None None)]) s"
    and word: "jsField ''verdict'' d = Str w" and a: "al_caseId a = c"
  shows "(\<exists>t t'. triageGET c None None (tq_repo s') = (Some (respond 200 (Obj [(''status'', Str ''complete''), (''verdict'', d),
      (''error'', Null), (''triage_started_at'', t), (''triage_completed_at'', t')])), tq_repo s')) \<and>
    (\<exists>q. enrichAlertsWithPersisted [a] None None (tq_repo s') = ([q], tq_repo s') \<and> al_id q = al_id a \<and>
      al_verdict q = normalizeVerdict w \<and> ag_status (al_agentStatus q) = AgComplete) \<and>
    casePage c (Rejected m) None None fBase now fw (tq_repo s') =
      (Some (Investigate (Obj (enrichAlert fb (spreadObject al))) Null), tq_repo s')"
proof -
  let ?e = "enrichAlert fb (spreadObject al)" and ?r = "tq_repo s'"
  from post_settles [OF ready body fresh upstream s'] obtain r1 r2 where ready': "rp_schema ?r = SchemaReady"
    and r: "upsertCaseSnapshot c None (Obj ?e) Null Undef t1 None None (tq_repo s) = (Inr (), r1)"
      "markTriageRunning c t2 None None r1 = (Inr (), r2)" "markTriageComplete c d t3 None None r2 = (Inr (), ?r)" by blast
  have ok': "repoOk ?r" by (rule repoOk_triaged [OF ok r])
  obtain row where row: "dictGet (rp_cases ?r) c = Some row" "cr_triage_status row = TComplete" "cr_verdict row = d"
    "cr_error row = None" "cr_event row = Obj ?e" "cr_baseline row = Null"
    using case_db.completed_row [of c "Obj ?e" Null Undef t1 "(None, None)" "tq_repo s" r1 t2 "(None, None)" r2
        d t3 "(None, None)" ?r] r truthy_nullish [OF upstream(2)] by auto
  have q: "enrichAlertsWithPersisted [a] None None ?r = ([overlay a (Some row)], ?r)"
    using enrich_rows [OF ok' ready', of "[a]" None] a row by simp
  show ?thesis
    using triageGET_complete [OF ready' row(1,2,4), of None] q overlay_complete [of row w a] overlay_keeps(1) [of a "Some row"]
      casePage_stored [OF ready' row(1), of "Rejected m" fBase now fw] row word
    by (auto simp: fetchEvent_def)
qed

definition spokenVerdict :: jsval where
  "spokenVerdict = Obj [(''verdict'', Str ''true_positive'')]"

theorem verdict_reaches_views_witness:
  "map al_verdict (fst (enrichAlertsWithPersisted [sampleAlert] None None (tq_repo
     (fold serve (startEvents 0 ''c'' (Some sampleBody) (Rejected []) 1 2 @
       [Turn 0 (Fetched (Answer 200 (Some spokenVerdict) [])), Turn 0 (DbWrite 3 None None)]) (triageInit sampleRepo))))) = [Malicious]"
proof -
  let ?s = "triageInit sampleRepo"
  define s' where "s' = fold serve (startEvents 0 ''c'' (Some sampleBody) (Rejected []) 1 2 @
    [Turn 0 (Fetched (Answer 200 (Some spokenVerdict) [])), Turn 0 (DbWrite 3 None None)]) ?s"
  have n: "length (tq_reqs ?s) = 0" by (simp add: triageInit_def)
  have h: "rp_schema (tq_repo ?s) = SchemaReady" "jsFieldE ''alert'' sampleBody = Some (Obj [(''severity'', Str ''High'')])"
      "persistedVerdict (dictGet (rp_cases (tq_repo ?s)) ''c'') = None" "cachedVerdict (tq_cache ?s) ''c'' = None"
      "dictGet (tq_inflight ?s) ''c'' = None" "repoOk (tq_repo ?s)"
    using sampleRepo_ok
    by (simp_all add: triageInit_def sampleRepo_def sampleBody_def jsFieldE_def dictGet_def insertedCase_def
        persistedVerdict_def cachedVerdict_def)
  have "truthy (Obj [(''severity'', Str ''High'')])" "okStatus 200" "truthy spokenVerdict"
    "jsField ''verdict'' spokenVerdict = Str ''true_positive''" "al_caseId sampleAlert = ''c''"
    by (simp_all add: spokenVerdict_def sampleAlert_def firedDetectionToAlert_def dictGet_def okStatus_def)
  from verdict_reaches_views [OF h(6,1,2) this(1) h(3,4,5) this(2,3) s'_def [folded n] this(4,5)]
  obtain q where "enrichAlertsWithPersisted [sampleAlert] None None (tq_repo s') = ([q], tq_repo s')"
    "al_verdict q = normalizeVerdict ''true_positive''" by blast
  then show ?thesis by (simp add: s'_def normalizeVerdict_def)
qed

text \<open>C37: investigating a case erases its baseline: the triage POST stores its snapshot without the baseline the case
  page had stored, and as the stored event still has the live event's id, every later visit \<dash> with the
  event live, and whatever the control plane would answer \<dash> shows no baseline and fetches none.\<close>

theorem baseline_lost_after_triage:
  assumes ready: "rp_schema (tq_repo s) = SchemaReady"
    and snap: "turn n c (AwaitSnapshot enriched) (DbWrite t None None) s = Some s'"
    and live: "okStatus st" "truthy ev"
    and same: "jsField ''event_id'' (Obj enriched) = jsField ''event_id'' ev" "jsField ''event_id'' ev \<noteq> Undef"
  shows "casePage c (Answer st (Some ev) tx) None None fBase now fw (tq_repo s') = (Some (Investigate ev Null), tq_repo s')"
proof -
  obtain r row where "upsertCaseSnapshot c None (Obj enriched) Null Undef t None None (tq_repo s) = (Inr (), r)"
      "rp_schema r = SchemaReady" "dictGet (rp_cases r) c = Some row" "cr_event row = Obj enriched" "cr_baseline row = Null"
    using upsert_ready [OF ready, of "Obj enriched" c None Null Undef t None] by (auto simp: notNull_def)
  with snap live same show ?thesis
    by (auto simp: registerRun_def setPc_def setRepo_def casePage_def getCase_ready Let_def fetchEvent_def eventUnchanged_def
        persistedBaseline_def)
qed

theorem baseline_lost_after_triage_witness:
  "\<exists>s. casePage ''e1'' (Answer 200 (Some sampleLive) []) None None (Answer 200 (Some sampleBase) []) 7 None readyRepo =
      (Some (Investigate sampleLive sampleBase), tq_repo s) \<and>
    (\<exists>s'. turn 0 ''e1'' (AwaitSnapshot [(''event_id'', Str ''e1'')]) (DbWrite 8 None None) s = Some s' \<and>
      casePage ''e1'' (Answer 200 (Some sampleLive) []) None None (Answer 200 (Some sampleBase) []) 9 None (tq_repo s') =
        (Some (Investigate sampleLive Null), tq_repo s'))"
proof -
  let ?f = "Answer 200 (Some sampleLive) []" and ?b = "Answer 200 (Some sampleBase) []"
  obtain r where v: "casePage ''e1'' ?f None None ?b 7 None readyRepo = (Some (Investigate sampleLive sampleBase), r)"
    and r: "rp_schema r = SchemaReady"
    by (simp add: casePage_def getCase_ready readyRepo_def fetchEvent_def fetchBaseline_def okStatus_def sampleLive_def
        eventUnchanged_def upsertCaseSnapshot_def dbStatement_def ensureCaseSchema_def notNull_def)
  let ?s = "triageInit r"
  have tr: "tq_repo ?s = r" by (simp add: triageInit_def)
  obtain s' where s': "turn 0 ''e1'' (AwaitSnapshot [(''event_id'', Str ''e1'')]) (DbWrite 8 None None) ?s = Some s'"
    using upsert_ready [of r "Obj [(''event_id'', Str ''e1'')]" "''e1''" None Null Undef 8 None] r
    by (auto simp: notNull_def tr)
  have "casePage ''e1'' ?f None None ?b 9 None (tq_repo s') = (Some (Investigate sampleLive Null), tq_repo s')"
    using baseline_lost_after_triage [OF _ s', of 200 sampleLive] r
    by (simp add: okStatus_def sampleLive_def tr dictGet_def)
  with v s' tr show ?thesis by metis
qed

end
